(* ===== verification/Prelude.thy ===== *)
theory Prelude
  imports Main "HOL-Library.Word"
begin

text \<open>
  Shared vocabulary of the development.

  \<^item> Results: a call of a C function either returns (\<open>Inr\<close>) or ends in a fault (\<open>Inl\<close>): the
    process aborts in \<open>caml_fatal_error\<close>, spins for ever on the native guard, or touches
    memory it may not touch. \<open>bind\<close> sequences calls, \<open>deref\<close> reads a heap cell.
  \<^item> Triples: \<open>runs m Q\<close> says that \<open>m\<close> returns and its result satisfies \<open>Q\<close> (total
    correctness). \<open>runs_bind\<close> turns a composed call into nested triples, so a stub is
    verified by rewriting.
  \<^item> Sums: \<open>msum m g\<close> adds up \<open>g\<close> over the values of a finite map. Reference counts and
    the resource counter are specified with it, and its update lemmas are the only facts
    about sums the other theories use.
  \<^item> Strings: C strings in bounded buffers.
\<close>

subsection \<open>Results of a call\<close>

datatype fault =
    Fatal string        \<comment> \<open>\<open>caml_fatal_error\<close>: the process aborts with this message\<close>
  | Spins               \<comment> \<open>a loop that only another thread could end\<close>
  | Bad_memory          \<comment> \<open>NULL, freed or out-of-bounds memory is accessed\<close>

type_synonym 'a run = "fault + 'a"

definition bind :: "'a run \<Rightarrow> ('a \<Rightarrow> 'b run) \<Rightarrow> 'b run" where
  "bind m f = (case m of Inl e \<Rightarrow> Inl e | Inr x \<Rightarrow> f x)"

lemma bind_Inl_Inr [simp]:
  "bind (Inl e) f = Inl e"
  "bind (Inr x) f = f x"
  by (simp_all add: bind_def)

lemma bind_assoc: "bind (bind m f) g = bind m (\<lambda>x. bind (f x) g)"
  by (simp add: bind_def split: sum.splits)

lemma bind_Inr_iff: "bind m f = Inr y \<longleftrightarrow> (\<exists>x. m = Inr x \<and> f x = Inr y)"
  by (cases m) auto

lemma bind_cong [fundef_cong]:
  "m = m' \<Longrightarrow> (\<And>x. m' = Inr x \<Longrightarrow> f x = f' x) \<Longrightarrow> bind m f = bind m' f'"
  by (cases m') auto

lemma bind_if: "bind (if b then m else n) f = (if b then bind m f else bind n f)"
  by simp

definition deref :: "('k \<rightharpoonup> 'v) \<Rightarrow> 'k \<Rightarrow> 'v run" where
  "deref m k = (case m k of None \<Rightarrow> Inl Bad_memory | Some v \<Rightarrow> Inr v)"

lemma deref_Some [simp]: "m k = Some v \<Longrightarrow> deref m k = Inr v"
  by (simp add: deref_def)

lemma deref_None [simp]: "m k = None \<Longrightarrow> deref m k = Inl Bad_memory"
  by (simp add: deref_def)

lemma deref_Inr_iff: "deref m k = Inr v \<longleftrightarrow> m k = Some v"
  by (simp add: deref_def split: option.splits)

text \<open>Following a pointer that may be NULL.\<close>

definition not_null :: "'a option \<Rightarrow> 'a run" where
  "not_null p = (case p of None \<Rightarrow> Inl Bad_memory | Some x \<Rightarrow> Inr x)"

lemma not_null_simps [simp]: "not_null None = Inl Bad_memory" "not_null (Some x) = Inr x"
  by (simp_all add: not_null_def)

text \<open>Array reads and writes at a given index, out of range being a fault.\<close>

definition at_index :: "'a list \<Rightarrow> nat \<Rightarrow> 'a run" where
  "at_index xs k = (if k < length xs then Inr (xs ! k) else Inl Bad_memory)"

lemma at_index_simps [simp]:
  "k < length xs \<Longrightarrow> at_index xs k = Inr (xs ! k)"
  "\<not> k < length xs \<Longrightarrow> at_index xs k = Inl Bad_memory"
  by (simp_all add: at_index_def)

definition overwrite :: "nat \<Rightarrow> 'a list \<Rightarrow> 'a list \<Rightarrow> 'a list run" where
  "overwrite k src dst =
     (if k + length src \<le> length dst then Inr (take k dst @ src @ drop (k + length src) dst)
      else Inl Bad_memory)"

lemma overwrite_nth:
  assumes "overwrite k src dst = Inr out"
  shows "length out = length dst"
    and "i < length dst \<Longrightarrow> out ! i = (if k \<le> i \<and> i < k + length src then src ! (i - k) else dst ! i)"
  using assms by (auto simp: overwrite_def nth_append min_def split: if_splits)

subsection \<open>Total-correctness triples\<close>

named_theorems steps \<open>rules that run one step of a stub\<close>

definition runs :: "'a run \<Rightarrow> ('a \<Rightarrow> bool) \<Rightarrow> bool" where
  "runs m Q = (case m of Inl e \<Rightarrow> False | Inr x \<Rightarrow> Q x)"

lemma runs_simps [simp]:
  "\<not> runs (Inl e) Q"
  "runs (Inr x) Q = Q x"
  by (simp_all add: runs_def)

lemma runs_bind: "runs (bind m f) Q = runs m (\<lambda>x. runs (f x) Q)"
  by (cases m) simp_all

lemma runs_conseq: "runs m P \<Longrightarrow> (\<And>x. P x \<Longrightarrow> Q x) \<Longrightarrow> runs m Q"
  by (cases m) simp_all

lemma runs_bindI: "runs m P \<Longrightarrow> (\<And>x. P x \<Longrightarrow> runs (f x) Q) \<Longrightarrow> runs (bind m f) Q"
  by (cases m) simp_all

lemma runs_bindI2:
  "runs m (\<lambda>(x, w). P x w) \<Longrightarrow> (\<And>x w. P x w \<Longrightarrow> runs (f (x, w)) Q) \<Longrightarrow> runs (bind m f) Q"
  by (cases m) auto

lemma runs_bind_pair:
  "runs m (\<lambda>(x, w). P x w) \<Longrightarrow> (\<And>x w. P x w \<Longrightarrow> runs (f x w) Q) \<Longrightarrow> runs (bind m (\<lambda>(x, w). f x w)) Q"
  by (cases m) auto

lemma runs_bind_pair2:
  "runs m (\<lambda>(x, w). P x w) \<Longrightarrow> (\<And>x y w. P (x, y) w \<Longrightarrow> runs (f x y w) Q) \<Longrightarrow>
   runs (bind m (\<lambda>((x, y), w). f x y w)) Q"
  by (cases m) auto

lemma runs_case_pair:
  "(\<And>x y. r = (x, y) \<Longrightarrow> runs (f x y w) Q) \<Longrightarrow> runs ((case r of (x, y) \<Rightarrow> f x y) w) Q"
  by (cases r) simp

lemma runs_cond:
  "(b \<Longrightarrow> runs m Q) \<Longrightarrow> (\<not> b \<Longrightarrow> runs n Q) \<Longrightarrow> runs (if b then m else n) Q"
  by simp

lemma runs_let: "runs (f x) Q \<Longrightarrow> runs (let y = x in f y) Q"
  by simp

lemma runs_option:
  "(x = None \<Longrightarrow> runs m Q) \<Longrightarrow> (\<And>y. x = Some y \<Longrightarrow> runs (f y) Q) \<Longrightarrow>
   runs (case x of None \<Rightarrow> m | Some y \<Rightarrow> f y) Q"
  by (cases x) simp_all

lemma runs_conj: "runs m P \<Longrightarrow> runs m Q \<Longrightarrow> runs m (\<lambda>x. P x \<and> Q x)"
  by (cases m) simp_all

declare runs_case_pair [steps] runs_cond [steps] runs_let [steps] runs_option [steps]

lemma runs_exists: "runs m Q \<longleftrightarrow> (\<exists>x. m = Inr x \<and> Q x)"
  by (cases m) simp_all

lemma runs_if: "runs (if b then m else n) Q = (if b then runs m Q else runs n Q)"
  by simp

subsection \<open>Loops\<close>

text \<open>
  \<open>for (i in is) body\<close>, and \<open>for (i in is && guard) body\<close>, whose guard has effects and is
  evaluated before every iteration.
\<close>

primrec for_each :: "('i \<Rightarrow> 'w \<Rightarrow> 'w run) \<Rightarrow> 'i list \<Rightarrow> 'w \<Rightarrow> 'w run" where
  "for_each f [] w = Inr w"
| "for_each f (i # is) w = bind (f i w) (for_each f is)"

primrec for_while :: "('w \<Rightarrow> (bool \<times> 'w) run) \<Rightarrow> ('i \<Rightarrow> 'w \<Rightarrow> 'w run) \<Rightarrow> 'i list \<Rightarrow> 'w \<Rightarrow> 'w run" where
  "for_while g f [] w = Inr w"
| "for_while g f (i # is) w =
     bind (g w) (\<lambda>(go_on, w). if go_on then bind (f i w) (for_while g f is) else Inr w)"

lemma for_each_append: "for_each f (is @ js) w = bind (for_each f is w) (for_each f js)"
  by (induction "is" arbitrary: w) (auto simp: bind_assoc intro!: bind_cong)

lemma runs_for_each:
  assumes "I w" and "\<And>i w. i \<in> set is \<Longrightarrow> I w \<Longrightarrow> runs (f i w) I"
  shows "runs (for_each f is w) I"
  using assms by (induction "is" arbitrary: w) (auto intro!: runs_bindI [where P = I])

lemma runs_for_while:
  assumes "I w" and "\<And>w. I w \<Longrightarrow> runs (g w) (\<lambda>(go_on, w). if go_on then J w else I w)"
    and "\<And>i w. i \<in> set is \<Longrightarrow> J w \<Longrightarrow> runs (f i w) I"
  shows "runs (for_while g f is w) I"
  using assms
proof (induction "is" arbitrary: w)
  case (Cons i "is")
  show ?case
    unfolding for_while.simps
  proof (rule runs_bindI2)
    show "runs (g w) (\<lambda>(go_on, w). if go_on then J w else I w)" by (rule Cons.prems)+
  next
    fix go_on w1
    assume "if go_on then J w1 else I w1"
    then show "runs (case (go_on, w1) of (go_on, w) \<Rightarrow>
        if go_on then bind (f i w) (for_while g f is) else Inr w) I"
      using Cons by (auto intro!: runs_bindI [where P = I] split: if_splits)
  qed
qed simp

subsection \<open>Sums over the values of a finite map\<close>

definition msum :: "('k \<rightharpoonup> 'v) \<Rightarrow> ('v \<Rightarrow> nat) \<Rightarrow> nat" where
  "msum m g = (\<Sum>k\<in>dom m. g (the (m k)))"

lemma msum_empty [simp]: "msum Map.empty g = 0"
  by (simp add: msum_def)

lemma msum_insert:
  assumes "finite (dom m)" and "m k = None"
  shows "msum (m(k \<mapsto> v)) g = g v + msum m g"
proof -
  have k: "k \<notin> dom m" using assms(2) by (simp add: domIff)
  have "msum (m(k \<mapsto> v)) g = (\<Sum>j\<in>insert k (dom m). g (the ((m(k \<mapsto> v)) j)))"
    by (simp only: msum_def dom_fun_upd option.distinct if_False)
  also have "\<dots> = g v + (\<Sum>j\<in>dom m. g (the ((m(k \<mapsto> v)) j)))"
    using assms(1) k by simp
  also have "(\<Sum>j\<in>dom m. g (the ((m(k \<mapsto> v)) j))) = (\<Sum>j\<in>dom m. g (the (m j)))"
    using k by (intro sum.cong) auto
  finally show ?thesis by (simp only: msum_def)
qed

lemma msum_delete:
  assumes "finite (dom m)" and "m k = Some v"
  shows "msum m g = g v + msum (m(k := None)) g"
proof -
  have "m = (m(k := None))(k \<mapsto> v)" using assms(2) by auto
  then show ?thesis
    using msum_insert [of "m(k := None)" k v g] assms(1) by simp
qed

lemma msum_update:
  assumes "finite (dom m)" and "m k = Some v"
  shows "msum (m(k \<mapsto> v')) g + g v = msum m g + g v'"
proof -
  have "msum (m(k \<mapsto> v')) g = g v' + msum (m(k := None)) g"
    using msum_insert [of "m(k := None)" k v' g] assms(1) by simp
  then show ?thesis using msum_delete [OF assms, of g] by simp
qed

lemma msum_update_same:
  "finite (dom m) \<Longrightarrow> m k = Some v \<Longrightarrow> g v' = g v \<Longrightarrow> msum (m(k \<mapsto> v')) g = msum m g"
  using msum_update [of m k v v' g] by simp

lemma msum_ge: "finite (dom m) \<Longrightarrow> m k = Some v \<Longrightarrow> g v \<le> msum m g"
  using msum_delete [of m k v g] by simp

lemma msum_zero_iff: "finite (dom m) \<Longrightarrow> msum m g = 0 \<longleftrightarrow> (\<forall>k v. m k = Some v \<longrightarrow> g v = 0)"
  by (force simp: msum_def dom_def)

lemma msum_pos: "finite (dom m) \<Longrightarrow> 0 < msum m g \<longleftrightarrow> (\<exists>k v. m k = Some v \<and> 0 < g v)"
  using msum_zero_iff [of m g] by auto

definition points :: "'a \<Rightarrow> 'a option \<Rightarrow> nat" where
  "points a p = (if p = Some a then 1 else 0)"

lemma points_simps [simp]:
  "points a None = 0"
  "points a (Some a) = 1"
  "a \<noteq> b \<Longrightarrow> points a (Some b) = 0"
  by (simp_all add: points_def)

definition present :: "'a option \<Rightarrow> nat" where
  "present p = (case p of None \<Rightarrow> 0 | Some _ \<Rightarrow> 1)"

lemma present_simps [simp]: "present None = 0" "present (Some x) = 1"
  by (simp_all add: present_def)

subsection \<open>C strings in bounded buffers\<close>

text \<open>
  \<open>snprintf(out, n, "%s", in)\<close> writes at most \<open>n - 1\<close> bytes of the C string and a NUL. A C
  string ends at its first NUL byte; an OCaml string read as one is cut there.
\<close>

definition c_string :: "string \<Rightarrow> string" where
  "c_string s = takeWhile (\<lambda>c. c \<noteq> CHR 0x00) s"

definition snprintf_s :: "nat \<Rightarrow> string \<Rightarrow> string" where
  "snprintf_s n s = take (n - 1) (c_string s)"

lemma length_snprintf_s: "length (snprintf_s n s) \<le> n - 1"
  by (simp add: snprintf_s_def)

end
