(* ===== verification/Native_Types.thy ===== *)
theory Native_Types
  imports Prelude
begin

text \<open>
  The types of the private native seam, \<open>src/lib/ffi/query_native.h\<close>: the status ABI, the
  runtime flag, call admission, the engine's type and statement enumerations as far as the
  stubs name them, the element widths, and the per-chunk vector cache entry. Numeric enum
  values are only modelled where the code depends on them (the status codes, which
  \<open>Duckdb_ffi.Status.of_code\<close> decodes).
\<close>

definition DUCKDB_ML_MESSAGE_SIZE :: nat where
  "DUCKDB_ML_MESSAGE_SIZE = 512"

datatype duckdb_ml_status =
    DUCKDB_ML_STATUS_OK
  | DUCKDB_ML_STATUS_ERROR
  | DUCKDB_ML_STATUS_UNSUPPORTED
  | DUCKDB_ML_STATUS_CANCELLED

definition status_code :: "duckdb_ml_status \<Rightarrow> int" where
  "status_code s = (case s of
      DUCKDB_ML_STATUS_OK \<Rightarrow> 0
    | DUCKDB_ML_STATUS_ERROR \<Rightarrow> 1
    | DUCKDB_ML_STATUS_UNSUPPORTED \<Rightarrow> 2
    | DUCKDB_ML_STATUS_CANCELLED \<Rightarrow> 3)"

text \<open>The ML side of the status ABI (\<open>Duckdb_ffi.Status\<close>).\<close>

datatype ml_status = Success | Native_failure | Unsupported | Suppressed

definition of_code :: "int \<Rightarrow> ml_status" where
  "of_code c = (if c = 0 then Success else if c = 2 then Unsupported
                else if c = 3 then Suppressed else Native_failure)"

datatype duckdb_ml_runtime = DUCKDB_ML_RUNTIME_HELD | DUCKDB_ML_RUNTIME_RELEASED

datatype duckdb_ml_call_admission = DUCKDB_ML_CALL_ADMITTED | DUCKDB_ML_CALL_CANCELLED

datatype duckdb_state = DuckDBSuccess | DuckDBError

datatype duckdb_type =
    DUCKDB_TYPE_BOOLEAN | DUCKDB_TYPE_TINYINT | DUCKDB_TYPE_SMALLINT | DUCKDB_TYPE_INTEGER
  | DUCKDB_TYPE_BIGINT | DUCKDB_TYPE_FLOAT | DUCKDB_TYPE_DOUBLE | DUCKDB_TYPE_DATE
  | DUCKDB_TYPE_TIMESTAMP | DUCKDB_TYPE_TIMESTAMP_S | DUCKDB_TYPE_TIMESTAMP_MS
  | DUCKDB_TYPE_TIMESTAMP_NS | DUCKDB_TYPE_TIMESTAMP_TZ | DUCKDB_TYPE_VARCHAR
  | DUCKDB_TYPE_BLOB
  | DUCKDB_TYPE_OTHER nat  \<comment> \<open>every type id the stubs do not name\<close>

datatype duckdb_statement_type =
    DUCKDB_STATEMENT_TYPE_SELECT | DUCKDB_STATEMENT_TYPE_INSERT
  | DUCKDB_STATEMENT_TYPE_UPDATE | DUCKDB_STATEMENT_TYPE_DELETE
  | DUCKDB_STATEMENT_TYPE_CREATE | DUCKDB_STATEMENT_TYPE_ALTER
  | DUCKDB_STATEMENT_TYPE_DROP | DUCKDB_STATEMENT_TYPE_COPY
  | DUCKDB_STATEMENT_TYPE_ANALYZE | DUCKDB_STATEMENT_TYPE_MERGE_INTO
  | DUCKDB_STATEMENT_TYPE_OTHER nat  \<comment> \<open>PREPARE, EXECUTE, PRAGMA, SET, TRANSACTION, ...\<close>

text \<open>Bytes per element of a fixed-width engine type the views read; 0 otherwise.\<close>

fun duckdb_ml_type_width :: "duckdb_type \<Rightarrow> nat" where
  "duckdb_ml_type_width DUCKDB_TYPE_BOOLEAN = 1"
| "duckdb_ml_type_width DUCKDB_TYPE_TINYINT = 1"
| "duckdb_ml_type_width DUCKDB_TYPE_SMALLINT = 2"
| "duckdb_ml_type_width DUCKDB_TYPE_INTEGER = 4"
| "duckdb_ml_type_width DUCKDB_TYPE_DATE = 4"
| "duckdb_ml_type_width DUCKDB_TYPE_FLOAT = 4"
| "duckdb_ml_type_width DUCKDB_TYPE_BIGINT = 8"
| "duckdb_ml_type_width DUCKDB_TYPE_DOUBLE = 8"
| "duckdb_ml_type_width DUCKDB_TYPE_TIMESTAMP = 8"
| "duckdb_ml_type_width DUCKDB_TYPE_TIMESTAMP_S = 8"
| "duckdb_ml_type_width DUCKDB_TYPE_TIMESTAMP_MS = 8"
| "duckdb_ml_type_width DUCKDB_TYPE_TIMESTAMP_NS = 8"
| "duckdb_ml_type_width DUCKDB_TYPE_TIMESTAMP_TZ = 8"
| "duckdb_ml_type_width _ = 0"

text \<open>
  One column of the per-chunk cache. \<open>v_data\<close> is the address of the column's elements and
  \<open>v_validity\<close> that of its mask of 64-bit words, \<open>None\<close> (NULL) when every row is valid.
\<close>

record duckdb_ml_vector =
  v_data :: nat
  v_validity :: "nat option"
  v_type :: duckdb_type
  v_width :: nat

text \<open>
  Diagnostics are copied into a fixed buffer; a missing one is replaced by the caller's
  default text.
\<close>

definition diagnostic :: "string \<Rightarrow> string option \<Rightarrow> string" where
  "diagnostic dflt m =
     snprintf_s DUCKDB_ML_MESSAGE_SIZE (case m of None \<Rightarrow> dflt | Some s \<Rightarrow> s)"

lemma length_diagnostic: "length (diagnostic d m) < DUCKDB_ML_MESSAGE_SIZE"
  using length_snprintf_s [of DUCKDB_ML_MESSAGE_SIZE "case m of None \<Rightarrow> d | Some s \<Rightarrow> s"]
  by (simp add: diagnostic_def DUCKDB_ML_MESSAGE_SIZE_def)

text \<open>\<open>if (error && *error)\<close>: the engine returned a non-empty diagnostic.\<close>

definition nonempty :: "string option \<Rightarrow> bool" where
  "nonempty m = (case m of None \<Rightarrow> False | Some s \<Rightarrow> c_string s \<noteq> [])"

text \<open>\<open>snprintf(..., "%ld", n)\<close>.\<close>

fun digits :: "nat \<Rightarrow> string" where
  "digits n = (if n < 10 then [char_of (48 + n)] else digits (n div 10) @ [char_of (48 + n mod 10)])"

declare digits.simps [simp del]

definition decimal :: "int \<Rightarrow> string" where
  "decimal n = (if n < 0 then CHR ''-'' # digits (nat (- n)) else digits (nat n))"

end
