(* ===== verification/World.thy ===== *)
theory World
  imports Native_Types
begin

text \<open>
  The state of the native layer. Every struct of \<open>src/lib/ffi/*.c\<close> is a record, and a
  \<open>world\<close> holds a heap of each: owners are allocated and freed, reached through custom
  blocks of the OCaml heap (the \<open>*_slot\<close> maps, one entry per non-NULL slot) and through each
  other's pointers. Addresses come from a counter and are never reused, so a dangling
  pointer is an address without a cell, and reading it is \<open>Bad_memory\<close>.

  The engine is not under \<open>src/\<close>: its state is the type parameter \<open>'e\<close> and its C API is a
  parameter of every definition that calls it (the \<open>*_api\<close> records). Pointers the engine
  hands out are \<open>nat option\<close>, \<open>None\<close> being NULL; a destructor returns the value it leaves in
  the pointer. Allocation failure and pending OCaml actions (signals, which may raise at a
  runtime transition) are oracles of the world: the head of the list decides the next one.

  \<open>w_log\<close> is a history variable: it records each call into the engine made on behalf of a
  connection together with the phase that connection was in, and each advance of the schema
  epoch, newest first. No definition reads it.
\<close>

subsection \<open>The engine's C API, as parameters\<close>

record 'e session_api =
  duckdb_library_version :: string
  duckdb_create_config :: "'e \<Rightarrow> (duckdb_state \<times> nat option) \<times> 'e"
  duckdb_set_config :: "nat option \<Rightarrow> string \<Rightarrow> string \<Rightarrow> 'e \<Rightarrow> duckdb_state \<times> 'e"
  duckdb_destroy_config :: "nat \<Rightarrow> 'e \<Rightarrow> nat option \<times> 'e"
  duckdb_open_ext :: "string option \<Rightarrow> nat option \<Rightarrow> 'e \<Rightarrow>
    (duckdb_state \<times> nat option \<times> string option) \<times> 'e"
  duckdb_close :: "nat \<Rightarrow> 'e \<Rightarrow> nat option \<times> 'e"
  duckdb_connect :: "nat option \<Rightarrow> 'e \<Rightarrow> (duckdb_state \<times> nat option) \<times> 'e"
  duckdb_disconnect :: "nat \<Rightarrow> 'e \<Rightarrow> nat option \<times> 'e"
  duckdb_interrupt :: "nat option \<Rightarrow> 'e \<Rightarrow> 'e"

record 'e statement_api =
  duckdb_query :: "nat option \<Rightarrow> string \<Rightarrow> 'e \<Rightarrow> (duckdb_state \<times> nat) \<times> 'e"
  duckdb_result_error :: "nat \<Rightarrow> 'e \<Rightarrow> string option"
  duckdb_destroy_result :: "nat \<Rightarrow> 'e \<Rightarrow> nat \<times> 'e"
  duckdb_extract_statements :: "nat option \<Rightarrow> string \<Rightarrow> 'e \<Rightarrow> (nat \<times> nat option) \<times> 'e"
  duckdb_extract_statements_error :: "nat \<Rightarrow> 'e \<Rightarrow> string option"
  duckdb_destroy_extracted :: "nat \<Rightarrow> 'e \<Rightarrow> nat option \<times> 'e"
  duckdb_prepare_extracted_statement ::
    "nat option \<Rightarrow> nat option \<Rightarrow> nat \<Rightarrow> 'e \<Rightarrow> (duckdb_state \<times> nat option) \<times> 'e"
  duckdb_prepare_error :: "nat option \<Rightarrow> 'e \<Rightarrow> string option"
  duckdb_prepared_statement_type :: "nat option \<Rightarrow> 'e \<Rightarrow> duckdb_statement_type"
  duckdb_execute_prepared :: "nat option \<Rightarrow> 'e \<Rightarrow> (duckdb_state \<times> nat) \<times> 'e"
  duckdb_destroy_prepare :: "nat \<Rightarrow> 'e \<Rightarrow> nat option \<times> 'e"

subsection \<open>Calls into the engine that the history records\<close>

datatype engine_call =
    Connect | Disconnect | Interrupt
  | Query string | Extract string | Prepare | Execute duckdb_statement_type
  | Bind | Clear_bindings | Create_value | Fetch
  | Appender_create | Appender_add_column | Appender_append | Appender_flush
  | Appender_close | Appender_clear | Appender_destroy
  | Destroy_result | Destroy_prepare | Destroy_extracted | Destroy_chunk
  | Destroy_value | Destroy_error_data | Destroy_logical_type

datatype duckdb_ml_native_phase =
    DUCKDB_ML_NATIVE_IDLE
  | DUCKDB_ML_NATIVE_NONINTERRUPTIBLE
  | DUCKDB_ML_NATIVE_USER
  | DUCKDB_ML_NATIVE_CLEANUP
  | DUCKDB_ML_NATIVE_CLOSING

datatype event =
    Engine nat duckdb_ml_native_phase engine_call
  | Epoch_advanced

subsection \<open>Owners\<close>

record database_owner =
  d_references :: "32 word"
  d_database :: "nat option"
  d_config :: "nat option"
  d_path :: "string option"
  d_open_error :: "string option"
  d_status :: duckdb_ml_status
  d_message :: string

datatype duckdb_ml_request_state =
    DUCKDB_ML_REQUEST_FRESH
  | DUCKDB_ML_REQUEST_INSTALLED
  | DUCKDB_ML_REQUEST_DETACHED

record duckdb_ml_native_request =
  r_owner :: "nat option"
  r_state :: duckdb_ml_request_state
  r_reserved :: bool
  r_cancelled :: bool

record connection_owner =
  c_references :: "32 word"
  c_parent :: nat
  c_connection :: "nat option"
  c_native_guard :: bool
  c_active_request :: "nat option"
  c_native_phase :: duckdb_ml_native_phase
  c_native_closing :: bool
  c_foreign_active :: bool
  c_schema_dirty :: bool
  c_cleanup_depth :: "32 word"
  c_sql :: "string option"
  c_extracted :: "nat option"
  c_prepared :: "nat option"
  c_result :: nat
  c_has_result :: bool
  c_status :: duckdb_ml_status
  c_message :: string

record prepared_owner =
  p_parent :: nat
  p_prepared :: "nat option"
  p_extracted :: "nat option"
  p_result :: nat
  p_chunk :: "nat option"
  p_input :: "string option"
  p_has_result :: bool
  p_status :: duckdb_ml_status
  p_message :: string
  p_vectors :: "duckdb_ml_vector list option"
  p_vector_count :: nat
  p_chunk_rows :: nat

record appender_owner =
  a_parent :: nat
  a_appender :: "nat option"
  a_status :: duckdb_ml_status
  a_message :: string
  a_schema :: "string option"
  a_table :: "string option"
  a_types :: "duckdb_type list option"
  a_nullable :: "bool list option"
  a_columns :: nat
  a_logical :: "nat list option"
  a_staged :: "nat option list option"  \<comment> \<open>a slot never filled holds \<open>None\<close>\<close>
  a_staged_capacity :: nat
  a_staged_rows :: nat
  a_stage_failed :: bool
  a_stage_message :: string

record file_work =
  f_source :: "string option"
  f_destination :: "string option"
  f_parent :: "nat option"

subsection \<open>The world\<close>

record 'e world =
  w_next :: nat
  w_oom :: "bool list"
  w_pending :: "bool list"
  w_live :: "32 word"
  w_fallback :: "32 word"
  w_schema_epoch :: "64 word"
  w_engine :: 'e
  w_log :: "event list"
  databases :: "nat \<rightharpoonup> database_owner"
  connections :: "nat \<rightharpoonup> connection_owner"
  requests :: "nat \<rightharpoonup> duckdb_ml_native_request"
  prepareds :: "nat \<rightharpoonup> prepared_owner"
  appenders :: "nat \<rightharpoonup> appender_owner"
  works :: "nat \<rightharpoonup> file_work"
  Database :: "nat \<rightharpoonup> nat"
  Connection :: "nat \<rightharpoonup> nat"
  Native_request :: "nat \<rightharpoonup> nat"
  Prepared :: "nat \<rightharpoonup> nat"
  Appender :: "nat \<rightharpoonup> nat"
  Work :: "nat \<rightharpoonup> nat"

abbreviation put_database :: "nat \<Rightarrow> database_owner \<Rightarrow> 'e world \<Rightarrow> 'e world" where
  "put_database a d w \<equiv> w\<lparr>databases := (databases w)(a \<mapsto> d)\<rparr>"

abbreviation put_connection :: "nat \<Rightarrow> connection_owner \<Rightarrow> 'e world \<Rightarrow> 'e world" where
  "put_connection a c w \<equiv> w\<lparr>connections := (connections w)(a \<mapsto> c)\<rparr>"

abbreviation put_request :: "nat \<Rightarrow> duckdb_ml_native_request \<Rightarrow> 'e world \<Rightarrow> 'e world" where
  "put_request a r w \<equiv> w\<lparr>requests := (requests w)(a \<mapsto> r)\<rparr>"

abbreviation put_prepared :: "nat \<Rightarrow> prepared_owner \<Rightarrow> 'e world \<Rightarrow> 'e world" where
  "put_prepared a p w \<equiv> w\<lparr>prepareds := (prepareds w)(a \<mapsto> p)\<rparr>"

abbreviation put_appender :: "nat \<Rightarrow> appender_owner \<Rightarrow> 'e world \<Rightarrow> 'e world" where
  "put_appender a p w \<equiv> w\<lparr>appenders := (appenders w)(a \<mapsto> p)\<rparr>"

abbreviation put_work :: "nat \<Rightarrow> file_work \<Rightarrow> 'e world \<Rightarrow> 'e world" where
  "put_work a f w \<equiv> w\<lparr>works := (works w)(a \<mapsto> f)\<rparr>"

text \<open>Read-modify-write of one owner through a pointer.\<close>

definition on_database :: "nat \<Rightarrow> (database_owner \<Rightarrow> database_owner) \<Rightarrow> 'e world \<Rightarrow> 'e world run" where
  "on_database a f w = bind (deref (databases w) a) (\<lambda>d. Inr (put_database a (f d) w))"

definition on_connection :: "nat \<Rightarrow> (connection_owner \<Rightarrow> connection_owner) \<Rightarrow> 'e world \<Rightarrow> 'e world run" where
  "on_connection a f w = bind (deref (connections w) a) (\<lambda>c. Inr (put_connection a (f c) w))"

definition on_request :: "nat \<Rightarrow> (duckdb_ml_native_request \<Rightarrow> duckdb_ml_native_request) \<Rightarrow> 'e world \<Rightarrow> 'e world run" where
  "on_request a f w = bind (deref (requests w) a) (\<lambda>r. Inr (put_request a (f r) w))"

definition on_prepared :: "nat \<Rightarrow> (prepared_owner \<Rightarrow> prepared_owner) \<Rightarrow> 'e world \<Rightarrow> 'e world run" where
  "on_prepared a f w = bind (deref (prepareds w) a) (\<lambda>p. Inr (put_prepared a (f p) w))"

definition on_appender :: "nat \<Rightarrow> (appender_owner \<Rightarrow> appender_owner) \<Rightarrow> 'e world \<Rightarrow> 'e world run" where
  "on_appender a f w = bind (deref (appenders w) a) (\<lambda>p. Inr (put_appender a (f p) w))"

definition on_work :: "nat \<Rightarrow> (file_work \<Rightarrow> file_work) \<Rightarrow> 'e world \<Rightarrow> 'e world run" where
  "on_work a f w = bind (deref (works w) a) (\<lambda>x. Inr (put_work a (f x) w))"

lemmas on_owner_defs =
  on_database_def on_connection_def on_request_def on_prepared_def on_appender_def on_work_def

subsection \<open>Process-wide counters, allocation, runtime transitions\<close>

definition acquired :: "'e world \<Rightarrow> 'e world" where
  "acquired w = w\<lparr>w_live := w_live w + 1\<rparr>"

definition released :: "'e world \<Rightarrow> 'e world" where
  "released w = w\<lparr>w_live := w_live w - 1\<rparr>"

definition count_fallback :: "'e world \<Rightarrow> 'e world" where
  "count_fallback w = w\<lparr>w_fallback := w_fallback w + 1\<rparr>"

lemma counters_frame [simp]:
  "w_next (acquired w) = w_next w" "w_next (released w) = w_next w"
  "w_oom (acquired w) = w_oom w" "w_oom (released w) = w_oom w"
  "w_pending (acquired w) = w_pending w" "w_pending (released w) = w_pending w"
  "w_fallback (acquired w) = w_fallback w" "w_fallback (released w) = w_fallback w"
  "w_schema_epoch (acquired w) = w_schema_epoch w" "w_schema_epoch (released w) = w_schema_epoch w"
  "w_engine (acquired w) = w_engine w" "w_engine (released w) = w_engine w"
  "w_log (acquired w) = w_log w" "w_log (released w) = w_log w"
  "databases (acquired w) = databases w" "databases (released w) = databases w"
  "connections (acquired w) = connections w" "connections (released w) = connections w"
  "requests (acquired w) = requests w" "requests (released w) = requests w"
  "prepareds (acquired w) = prepareds w" "prepareds (released w) = prepareds w"
  "appenders (acquired w) = appenders w" "appenders (released w) = appenders w"
  "works (acquired w) = works w" "works (released w) = works w"
  "Database (acquired w) = Database w" "Database (released w) = Database w"
  "Connection (acquired w) = Connection w" "Connection (released w) = Connection w"
  "Native_request (acquired w) = Native_request w" "Native_request (released w) = Native_request w"
  "Prepared (acquired w) = Prepared w" "Prepared (released w) = Prepared w"
  "Appender (acquired w) = Appender w" "Appender (released w) = Appender w"
  "Work (acquired w) = Work w" "Work (released w) = Work w"
  by (simp_all add: acquired_def released_def)

text \<open>Whether the next allocation fails.\<close>

definition malloc_fails :: "'e world \<Rightarrow> bool \<times> 'e world" where
  "malloc_fails w = (case w_oom w of [] \<Rightarrow> (False, w) | b # bs \<Rightarrow> (b, w\<lparr>w_oom := bs\<rparr>))"

text \<open>Whether the next runtime transition delivers a pending action that raises.\<close>

definition pending_raises :: "'e world \<Rightarrow> bool \<times> 'e world" where
  "pending_raises w = (case w_pending w of [] \<Rightarrow> (False, w) | b # bs \<Rightarrow> (b, w\<lparr>w_pending := bs\<rparr>))"

definition fresh :: "'e world \<Rightarrow> nat \<times> 'e world" where
  "fresh w = (w_next w, w\<lparr>w_next := Suc (w_next w)\<rparr>)"

text \<open>What a stub gives back to OCaml: a value, or an exception that leaves the state as is.\<close>

datatype 'a reply = Returned 'a | Out_of_memory | Async_exception

text \<open>
  \<open>caml_enter_blocking_section(); body; caml_leave_blocking_section();
  caml_process_pending_actions();\<close>. Entering may raise before the body runs; the last step
  may raise after it. In both cases the C state is as the code has left it.
\<close>

definition blocking :: "('e world \<Rightarrow> ('a \<times> 'e world) run) \<Rightarrow> 'e world \<Rightarrow> ('a reply \<times> 'e world) run" where
  "blocking body w =
     (case pending_raises w of (raises, w) \<Rightarrow>
      if raises then Inr (Async_exception, w)
      else bind (body w) (\<lambda>(x, w).
        case pending_raises w of (raises, w) \<Rightarrow>
        Inr (if raises then Async_exception else Returned x, w)))"

subsection \<open>Engine calls\<close>

text \<open>A call made on behalf of connection \<open>a\<close>: the history gets the phase it is made in.\<close>

definition call :: "nat \<Rightarrow> engine_call \<Rightarrow> ('e \<Rightarrow> 'r \<times> 'e) \<Rightarrow> 'e world \<Rightarrow> ('r \<times> 'e world) run" where
  "call a k f w = bind (deref (connections w) a) (\<lambda>c.
     case f (w_engine w) of (r, e) \<Rightarrow>
     Inr (r, w\<lparr>w_engine := e, w_log := Engine a (c_native_phase c) k # w_log w\<rparr>))"

text \<open>A call that concerns no connection (opening and closing a database).\<close>

definition engine :: "('e \<Rightarrow> 'r \<times> 'e) \<Rightarrow> 'e world \<Rightarrow> 'r \<times> 'e world" where
  "engine f w = (case f (w_engine w) of (r, e) \<Rightarrow> (r, w\<lparr>w_engine := e\<rparr>))"

subsection \<open>Resources\<close>

text \<open>
  What \<open>acquired\<close> and \<open>released\<close> count: each owner once, and each thing it holds.
\<close>

definition database_resources :: "database_owner \<Rightarrow> nat" where
  "database_resources d = 1 + present (d_database d) + present (d_config d) + present (d_path d)"

definition connection_resources :: "connection_owner \<Rightarrow> nat" where
  "connection_resources c = 1 + present (c_connection c) + present (c_sql c)
     + present (c_extracted c) + present (c_prepared c) + of_bool (c_has_result c)"

definition prepared_resources :: "prepared_owner \<Rightarrow> nat" where
  "prepared_resources p = 1 + present (p_prepared p) + present (p_extracted p)
     + present (p_chunk p) + present (p_input p) + of_bool (p_has_result p) + present (p_vectors p)"

definition appender_resources :: "appender_owner \<Rightarrow> nat" where
  "appender_resources p = 1 + present (a_appender p) + present (a_schema p) + present (a_table p)
     + present (a_types p) + present (a_nullable p) + present (a_logical p) + present (a_staged p)
     + a_staged_capacity p"

definition work_resources :: "file_work \<Rightarrow> nat" where
  "work_resources f = 1 + present (f_source f) + present (f_destination f)"

definition resources :: "'e world \<Rightarrow> nat" where
  "resources w = msum (databases w) database_resources + msum (connections w) connection_resources
     + msum (requests w) (\<lambda>_. 1) + msum (prepareds w) prepared_resources
     + msum (appenders w) appender_resources + msum (works w) work_resources"

lemmas resource_defs = database_resources_def connection_resources_def prepared_resources_def
  appender_resources_def work_resources_def

end
