(* ===== verification/Native_Guard.thy ===== *)
theory Native_Guard
  imports World
begin

text \<open>
  The native guard and the phase machine of a connection: the functions of
  \<open>resource_stubs.c\<close> from \<open>duckdb_ml_native_try_lock\<close> to \<open>native_close_begin\<close>. Each takes the
  guard, checks the flags (\<open>foreign_active\<close>, \<open>cleanup_depth\<close>, \<open>native_closing\<close>), changes them,
  recomputes the phase and drops the guard before it returns or aborts.

  \<open>quiet\<close> describes a connection between stubs. The equations \<open>guard_eqs\<close> give the effect
  of every operation on an unlocked connection in closed form; the stubs' proofs run on
  them. \<open>phase_ok\<close> is the invariant that ties the phase to the flags: only an admitted
  interruptible call of a connection with an active request shows \<open>USER\<close>.
\<close>

subsection \<open>The guard\<close>

definition duckdb_ml_native_try_lock :: "nat \<Rightarrow> 'e world \<Rightarrow> (bool \<times> 'e world) run" where
  "duckdb_ml_native_try_lock a w = bind (deref (connections w) a) (\<lambda>c.
     if c_native_guard c then Inr (False, w)
     else Inr (True, put_connection a (c\<lparr>c_native_guard := True\<rparr>) w))"

definition duckdb_ml_native_unlock :: "nat \<Rightarrow> 'e world \<Rightarrow> 'e world run" where
  "duckdb_ml_native_unlock a = on_connection a (\<lambda>c. c\<lparr>c_native_guard := False\<rparr>)"

text \<open>
  The loop retries while the guard is taken. With the runtime held it aborts instead; with
  the runtime released it yields and tries again, which in this sequential reading (no
  other thread moves during the call) is to spin for ever.
\<close>

definition native_lock :: "nat \<Rightarrow> duckdb_ml_runtime \<Rightarrow> 'e world \<Rightarrow> 'e world run" where
  "native_lock a runtime w = bind (duckdb_ml_native_try_lock a w) (\<lambda>(locked, w).
     if locked then Inr w
     else if runtime = DUCKDB_ML_RUNTIME_HELD
     then Inl (Fatal ''native fallback requires exclusive quiescent ownership'')
     else Inl Spins)"

subsection \<open>The phase\<close>

definition phase_of :: "connection_owner \<Rightarrow> duckdb_ml_native_phase" where
  "phase_of c =
     (if c_native_closing c then DUCKDB_ML_NATIVE_CLOSING
      else if c_cleanup_depth c \<noteq> 0 then DUCKDB_ML_NATIVE_CLEANUP
      else if c_foreign_active c then DUCKDB_ML_NATIVE_NONINTERRUPTIBLE
      else DUCKDB_ML_NATIVE_IDLE)"

definition native_phase_update :: "nat \<Rightarrow> 'e world \<Rightarrow> 'e world run" where
  "native_phase_update a = on_connection a (\<lambda>c. c\<lparr>c_native_phase := phase_of c\<rparr>)"

text \<open>\<open>duckdb_ml_native_unlock(owner); caml_fatal_error(message);\<close>\<close>

definition unlock_fatal :: "nat \<Rightarrow> string \<Rightarrow> 'e world \<Rightarrow> 'a run" where
  "unlock_fatal a m w = bind (duckdb_ml_native_unlock a w) (\<lambda>_. Inl (Fatal m))"

definition duckdb_ml_native_work_begin :: "nat \<Rightarrow> 'e world \<Rightarrow> 'e world run" where
  "duckdb_ml_native_work_begin a w =
     bind (native_lock a DUCKDB_ML_RUNTIME_RELEASED w) (\<lambda>w.
     bind (deref (connections w) a) (\<lambda>c.
     if c_native_closing c \<or> c_foreign_active c \<or> c_cleanup_depth c \<noteq> 0
     then unlock_fatal a ''native work requires an open exclusive owner'' w
     else bind (on_connection a (\<lambda>c. c\<lparr>c_foreign_active := True\<rparr>) w) (\<lambda>w.
          bind (native_phase_update a w) (\<lambda>w.
          duckdb_ml_native_unlock a w))))"

definition duckdb_ml_native_work_end :: "nat \<Rightarrow> 'e world \<Rightarrow> 'e world run" where
  "duckdb_ml_native_work_end a w =
     bind (native_lock a DUCKDB_ML_RUNTIME_RELEASED w) (\<lambda>w.
     bind (deref (connections w) a) (\<lambda>c.
     if \<not> c_foreign_active c \<or> c_cleanup_depth c \<noteq> 0
     then unlock_fatal a ''native work completion requires balanced cleanup'' w
     else bind (on_connection a (\<lambda>c. c\<lparr>c_foreign_active := False\<rparr>) w) (\<lambda>w.
          bind (native_phase_update a w) (\<lambda>w.
          duckdb_ml_native_unlock a w))))"

text \<open>\<open>request && atomic_load(&request->cancelled)\<close>\<close>

definition latched :: "nat option \<Rightarrow> 'e world \<Rightarrow> bool run" where
  "latched request w = (case request of None \<Rightarrow> Inr False
     | Some r \<Rightarrow> bind (deref (requests w) r) (\<lambda>q. Inr (r_cancelled q)))"

definition native_call_begin :: "nat \<Rightarrow> bool \<Rightarrow> 'e world \<Rightarrow> (duckdb_ml_call_admission \<times> 'e world) run" where
  "native_call_begin a interruptible w =
     bind (native_lock a DUCKDB_ML_RUNTIME_RELEASED w) (\<lambda>w.
     bind (deref (connections w) a) (\<lambda>c.
     if \<not> c_foreign_active c \<or> c_cleanup_depth c \<noteq> 0 \<or> c_native_closing c
     then unlock_fatal a ''native user admission requires exclusive open work'' w
     else bind (latched (c_active_request c) w) (\<lambda>cancelled.
     if cancelled
     then bind (native_phase_update a w) (\<lambda>w.
          bind (duckdb_ml_native_unlock a w) (\<lambda>w.
          Inr (DUCKDB_ML_CALL_CANCELLED, w)))
     else bind (on_connection a (\<lambda>c. c\<lparr>c_native_phase :=
                  (if c_active_request c \<noteq> None \<and> interruptible then DUCKDB_ML_NATIVE_USER
                   else DUCKDB_ML_NATIVE_NONINTERRUPTIBLE)\<rparr>) w) (\<lambda>w.
          bind (duckdb_ml_native_unlock a w) (\<lambda>w.
          Inr (DUCKDB_ML_CALL_ADMITTED, w))))))"

definition duckdb_ml_native_user_call_begin :: "nat \<Rightarrow> 'e world \<Rightarrow> (duckdb_ml_call_admission \<times> 'e world) run" where
  "duckdb_ml_native_user_call_begin a = native_call_begin a True"

definition duckdb_ml_native_noninterruptible_call_begin ::
  "nat \<Rightarrow> 'e world \<Rightarrow> (duckdb_ml_call_admission \<times> 'e world) run" where
  "duckdb_ml_native_noninterruptible_call_begin a = native_call_begin a False"

definition duckdb_ml_native_user_call_end :: "nat \<Rightarrow> 'e world \<Rightarrow> 'e world run" where
  "duckdb_ml_native_user_call_end a w =
     bind (native_lock a DUCKDB_ML_RUNTIME_RELEASED w) (\<lambda>w.
     bind (native_phase_update a w) (\<lambda>w.
     duckdb_ml_native_unlock a w))"

definition duckdb_ml_native_cleanup_begin :: "nat \<Rightarrow> duckdb_ml_runtime \<Rightarrow> 'e world \<Rightarrow> 'e world run" where
  "duckdb_ml_native_cleanup_begin a runtime w =
     bind (native_lock a runtime w) (\<lambda>w.
     bind (deref (connections w) a) (\<lambda>c.
     if runtime = DUCKDB_ML_RUNTIME_HELD \<and> c_foreign_active c
     then unlock_fatal a ''native fallback cannot overlap foreign work'' w
     else bind (on_connection a (\<lambda>c. c\<lparr>c_cleanup_depth := c_cleanup_depth c + 1\<rparr>) w) (\<lambda>w.
          bind (native_phase_update a w) (\<lambda>w.
          duckdb_ml_native_unlock a w))))"

definition duckdb_ml_native_cleanup_end :: "nat \<Rightarrow> duckdb_ml_runtime \<Rightarrow> 'e world \<Rightarrow> 'e world run" where
  "duckdb_ml_native_cleanup_end a runtime w =
     bind (native_lock a runtime w) (\<lambda>w.
     bind (deref (connections w) a) (\<lambda>c.
     if c_cleanup_depth c = 0
     then unlock_fatal a ''native cleanup completion requires matching entry'' w
     else bind (on_connection a (\<lambda>c. c\<lparr>c_cleanup_depth := c_cleanup_depth c - 1\<rparr>) w) (\<lambda>w.
          bind (native_phase_update a w) (\<lambda>w.
          duckdb_ml_native_unlock a w))))"

definition native_close_begin :: "nat \<Rightarrow> duckdb_ml_runtime \<Rightarrow> 'e world \<Rightarrow> 'e world run" where
  "native_close_begin a runtime w =
     bind (native_lock a runtime w) (\<lambda>w.
     bind (deref (connections w) a) (\<lambda>c.
     if c_foreign_active c \<or> c_cleanup_depth c \<noteq> 0 \<or> c_active_request c \<noteq> None
     then unlock_fatal a ''native close requires completed work and detached request'' w
     else bind (on_connection a (\<lambda>c. c\<lparr>c_native_closing := True\<rparr>) w) (\<lambda>w.
          bind (native_phase_update a w) (\<lambda>w.
          duckdb_ml_native_unlock a w))))"

lemmas guard_defs =
  duckdb_ml_native_try_lock_def duckdb_ml_native_unlock_def native_lock_def phase_of_def
  native_phase_update_def unlock_fatal_def duckdb_ml_native_work_begin_def
  duckdb_ml_native_work_end_def native_call_begin_def duckdb_ml_native_user_call_begin_def
  duckdb_ml_native_noninterruptible_call_begin_def duckdb_ml_native_user_call_end_def
  duckdb_ml_native_cleanup_begin_def duckdb_ml_native_cleanup_end_def native_close_begin_def
  on_connection_def

subsection \<open>Closed forms on an unlocked connection\<close>

lemma native_lock_taken:
  assumes "connections w a = Some c" and "c_native_guard c"
  shows "native_lock a runtime w = Inl (if runtime = DUCKDB_ML_RUNTIME_HELD
    then Fatal ''native fallback requires exclusive quiescent ownership'' else Spins)"
  using assms by (simp add: native_lock_def duckdb_ml_native_try_lock_def)

lemma work_begin_eq:
  assumes "connections w a = Some c" and "\<not> c_native_guard c"
  shows "duckdb_ml_native_work_begin a w =
    (if c_native_closing c \<or> c_foreign_active c \<or> c_cleanup_depth c \<noteq> 0
     then Inl (Fatal ''native work requires an open exclusive owner'')
     else Inr (put_connection a (c\<lparr>c_foreign_active := True,
       c_native_phase := DUCKDB_ML_NATIVE_NONINTERRUPTIBLE\<rparr>) w))"
  using assms by (cases c) (simp add: guard_defs)

lemma work_end_eq:
  assumes "connections w a = Some c" and "\<not> c_native_guard c"
  shows "duckdb_ml_native_work_end a w =
    (if \<not> c_foreign_active c \<or> c_cleanup_depth c \<noteq> 0
     then Inl (Fatal ''native work completion requires balanced cleanup'')
     else Inr (put_connection a (c\<lparr>c_foreign_active := False,
       c_native_phase := phase_of (c\<lparr>c_foreign_active := False\<rparr>)\<rparr>) w))"
  using assms by (cases c) (simp add: guard_defs)

lemma call_begin_eq:
  assumes "connections w a = Some c" and "\<not> c_native_guard c"
  shows "native_call_begin a interruptible w =
    (if \<not> c_foreign_active c \<or> c_cleanup_depth c \<noteq> 0 \<or> c_native_closing c
     then Inl (Fatal ''native user admission requires exclusive open work'')
     else bind (latched (c_active_request c) w) (\<lambda>cancelled.
       if cancelled
       then Inr (DUCKDB_ML_CALL_CANCELLED,
              put_connection a (c\<lparr>c_native_phase := DUCKDB_ML_NATIVE_NONINTERRUPTIBLE\<rparr>) w)
       else Inr (DUCKDB_ML_CALL_ADMITTED, put_connection a (c\<lparr>c_native_phase :=
         (if c_active_request c \<noteq> None \<and> interruptible then DUCKDB_ML_NATIVE_USER
          else DUCKDB_ML_NATIVE_NONINTERRUPTIBLE)\<rparr>) w)))"
  using assms
  by (cases c; cases "c_active_request c"; cases "requests w (the (c_active_request c))")
     (simp_all add: guard_defs latched_def)

lemma user_call_end_eq:
  assumes "connections w a = Some c" and "\<not> c_native_guard c"
  shows "duckdb_ml_native_user_call_end a w = Inr (put_connection a (c\<lparr>c_native_phase := phase_of c\<rparr>) w)"
  using assms by (cases c) (simp add: guard_defs)

lemma cleanup_begin_eq:
  assumes "connections w a = Some c" and "\<not> c_native_guard c"
  shows "duckdb_ml_native_cleanup_begin a runtime w =
    (if runtime = DUCKDB_ML_RUNTIME_HELD \<and> c_foreign_active c
     then Inl (Fatal ''native fallback cannot overlap foreign work'')
     else Inr (put_connection a (c\<lparr>c_cleanup_depth := c_cleanup_depth c + 1,
       c_native_phase := phase_of (c\<lparr>c_cleanup_depth := c_cleanup_depth c + 1\<rparr>)\<rparr>) w))"
  using assms by (cases c) (simp add: guard_defs)

lemma cleanup_end_eq:
  assumes "connections w a = Some c" and "\<not> c_native_guard c"
  shows "duckdb_ml_native_cleanup_end a runtime w =
    (if c_cleanup_depth c = 0
     then Inl (Fatal ''native cleanup completion requires matching entry'')
     else Inr (put_connection a (c\<lparr>c_cleanup_depth := c_cleanup_depth c - 1,
       c_native_phase := phase_of (c\<lparr>c_cleanup_depth := c_cleanup_depth c - 1\<rparr>)\<rparr>) w))"
  using assms by (cases c) (simp add: guard_defs)

lemma close_begin_eq:
  assumes "connections w a = Some c" and "\<not> c_native_guard c"
  shows "native_close_begin a runtime w =
    (if c_foreign_active c \<or> c_cleanup_depth c \<noteq> 0 \<or> c_active_request c \<noteq> None
     then Inl (Fatal ''native close requires completed work and detached request'')
     else Inr (put_connection a (c\<lparr>c_native_closing := True,
       c_native_phase := DUCKDB_ML_NATIVE_CLOSING\<rparr>) w))"
  using assms by (cases c) (simp add: guard_defs)

lemmas guard_eqs = work_begin_eq work_end_eq call_begin_eq user_call_end_eq cleanup_begin_eq
  cleanup_end_eq close_begin_eq

subsection \<open>The protocol the guard enforces\<close>

text \<open>
  The guarded operations as one type, to speak of sequences of them, and the abstract
  protocol they implement: a work bracket, calls inside it, nested cleanup brackets, and a
  close that needs completed work and a detached request. The abstract depth is a natural
  number; the code's is a 32-bit counter.
\<close>

datatype guarded =
    Work_begin | Work_end | Call_begin bool | Call_end
  | Cleanup_begin duckdb_ml_runtime | Cleanup_end duckdb_ml_runtime | Close_begin duckdb_ml_runtime

primrec guarded_step :: "nat \<Rightarrow> guarded \<Rightarrow> 'e world \<Rightarrow> 'e world run" where
  "guarded_step a Work_begin w = duckdb_ml_native_work_begin a w"
| "guarded_step a Work_end w = duckdb_ml_native_work_end a w"
| "guarded_step a (Call_begin i) w = bind (native_call_begin a i w) (\<lambda>(_, w). Inr w)"
| "guarded_step a Call_end w = duckdb_ml_native_user_call_end a w"
| "guarded_step a (Cleanup_begin rt) w = duckdb_ml_native_cleanup_begin a rt w"
| "guarded_step a (Cleanup_end rt) w = duckdb_ml_native_cleanup_end a rt w"
| "guarded_step a (Close_begin rt) w = native_close_begin a rt w"

primrec guarded_run :: "nat \<Rightarrow> guarded list \<Rightarrow> 'e world \<Rightarrow> 'e world run" where
  "guarded_run a [] w = Inr w"
| "guarded_run a (op # ops) w = bind (guarded_step a op w) (guarded_run a ops)"

record protocol =
  closing :: bool
  working :: bool
  depth :: nat

fun protocol_step :: "bool \<Rightarrow> guarded \<Rightarrow> protocol \<Rightarrow> protocol option" where
  "protocol_step leased Work_begin p =
     (if closing p \<or> working p \<or> 0 < depth p then None else Some (p\<lparr>working := True\<rparr>))"
| "protocol_step leased Work_end p =
     (if working p \<and> depth p = 0 then Some (p\<lparr>working := False\<rparr>) else None)"
| "protocol_step leased (Call_begin i) p =
     (if working p \<and> depth p = 0 \<and> \<not> closing p then Some p else None)"
| "protocol_step leased Call_end p = Some p"
| "protocol_step leased (Cleanup_begin rt) p =
     (if rt = DUCKDB_ML_RUNTIME_HELD \<and> working p then None else Some (p\<lparr>depth := Suc (depth p)\<rparr>))"
| "protocol_step leased (Cleanup_end rt) p =
     (if depth p = 0 then None else Some (p\<lparr>depth := depth p - 1\<rparr>))"
| "protocol_step leased (Close_begin rt) p =
     (if working p \<or> 0 < depth p \<or> leased then None else Some (p\<lparr>closing := True\<rparr>))"

primrec protocol_run :: "bool \<Rightarrow> guarded list \<Rightarrow> protocol \<Rightarrow> protocol option" where
  "protocol_run leased [] p = Some p"
| "protocol_run leased (op # ops) p =
     (case protocol_step leased op p of None \<Rightarrow> None | Some p' \<Rightarrow> protocol_run leased ops p')"

definition protocol_of :: "connection_owner \<Rightarrow> protocol" where
  "protocol_of c = \<lparr>closing = c_native_closing c, working = c_foreign_active c,
     depth = unat (c_cleanup_depth c)\<rparr>"

text \<open>The invariant on the phase: it agrees with the flags, or it is an open user call.\<close>

definition phase_ok :: "connection_owner \<Rightarrow> bool" where
  "phase_ok c \<longleftrightarrow> c_native_phase c = phase_of c \<or>
     (c_native_phase c = DUCKDB_ML_NATIVE_USER \<and> c_foreign_active c \<and> c_cleanup_depth c = 0 \<and>
      \<not> c_native_closing c \<and> c_active_request c \<noteq> None)"

definition unlocked :: "nat \<Rightarrow> 'e world \<Rightarrow> connection_owner \<Rightarrow> bool" where
  "unlocked a w c \<longleftrightarrow> connections w a = Some c \<and> \<not> c_native_guard c \<and>
     (\<forall>r. c_active_request c = Some r \<longrightarrow> requests w r \<noteq> None)"

lemma phase_of_simps [simp]:
  "c_native_closing c \<Longrightarrow> phase_of c = DUCKDB_ML_NATIVE_CLOSING"
  "\<not> c_native_closing c \<Longrightarrow> c_cleanup_depth c \<noteq> 0 \<Longrightarrow> phase_of c = DUCKDB_ML_NATIVE_CLEANUP"
  "\<not> c_native_closing c \<Longrightarrow> c_cleanup_depth c = 0 \<Longrightarrow> c_foreign_active c \<Longrightarrow>
     phase_of c = DUCKDB_ML_NATIVE_NONINTERRUPTIBLE"
  "\<not> c_native_closing c \<Longrightarrow> c_cleanup_depth c = 0 \<Longrightarrow> \<not> c_foreign_active c \<Longrightarrow>
     phase_of c = DUCKDB_ML_NATIVE_IDLE"
  by (simp_all add: phase_of_def)

lemma phase_of_phase [simp]: "phase_of (c\<lparr>c_native_phase := x\<rparr>) = phase_of c"
  by (simp add: phase_of_def)

lemma phase_of_not_user [simp]: "phase_of c \<noteq> DUCKDB_ML_NATIVE_USER"
  by (simp add: phase_of_def)

text \<open>Every guarded operation recomputes the phase: one step establishes the invariant.\<close>

lemma guarded_step_phase:
  assumes "unlocked a w c"
  shows "case guarded_step a op w of
      Inl f \<Rightarrow> \<exists>m. f = Fatal m
    | Inr w' \<Rightarrow> \<exists>c'. w' = put_connection a c' w \<and> unlocked a w' c' \<and> phase_ok c' \<and>
        c_active_request c' = c_active_request c \<and>
        (c_native_phase c' = DUCKDB_ML_NATIVE_USER \<longleftrightarrow>
           op = Call_begin True \<and> latched (c_active_request c) w = Inr False \<and> c_active_request c \<noteq> None)"
proof -
  from assms have c: "connections w a = Some c" "\<not> c_native_guard c"
    by (simp_all add: unlocked_def)
  obtain b where b: "latched (c_active_request c) w = Inr b"
    and none: "c_active_request c = None \<Longrightarrow> \<not> b"
    using assms by (cases "c_active_request c") (auto simp: latched_def unlocked_def)
  show ?thesis
  proof (cases op)
    case (Call_begin i)
    then show ?thesis using assms b none
      by (cases b; cases i) (auto simp: guard_eqs [OF c] unlocked_def phase_ok_def)
  qed (use assms b none in \<open>auto simp: guard_eqs [OF c] unlocked_def phase_ok_def\<close>)
qed

text \<open>One step of the code is one step of the abstract protocol.\<close>

lemma unat_inc: "unat (d :: 32 word) < 2 ^ 32 - 1 \<Longrightarrow> unat (d + 1) = Suc (unat d)"
  by (simp add: unat_word_ariths)

lemma unat_dec: "(d :: 32 word) \<noteq> 0 \<Longrightarrow> unat (d - 1) = unat d - 1"
  by (simp add: unat_minus_one)

lemma guarded_step_refines:
  assumes u: "unlocked a w c" and bound: "unat (c_cleanup_depth c) < 2 ^ 32 - 1"
  shows "case guarded_step a op w of
      Inl f \<Rightarrow> protocol_step (c_active_request c \<noteq> None) op (protocol_of c) = None
    | Inr w' \<Rightarrow> \<exists>c'. w' = put_connection a c' w \<and> unlocked a w' c' \<and>
        c_active_request c' = c_active_request c \<and>
        unat (c_cleanup_depth c') \<le> Suc (unat (c_cleanup_depth c)) \<and>
        protocol_step (c_active_request c \<noteq> None) op (protocol_of c) = Some (protocol_of c')"
proof -
  from u have c: "connections w a = Some c" "\<not> c_native_guard c"
    by (simp_all add: unlocked_def)
  have inc: "unat (c_cleanup_depth c + 1) = Suc (unat (c_cleanup_depth c))"
    using bound by (rule unat_inc)
  obtain b where b: "latched (c_active_request c) w = Inr b"
    using u by (cases "c_active_request c") (auto simp: latched_def unlocked_def)
  show ?thesis
  proof (cases op)
    case (Call_begin i)
    then show ?thesis using u b
      by (cases b) (auto simp: guard_eqs [OF c] unlocked_def protocol_of_def unat_eq_0)
  qed (use u inc unat_dec [of "c_cleanup_depth c"] in
       \<open>auto simp: guard_eqs [OF c] unlocked_def protocol_of_def unat_eq_0 unat_gt_0\<close>)
qed


end
