(* ===== verification/Owners.thy ===== *)
theory Owners
  imports Native_Guard
begin

text \<open>
  Database and connection owners (\<open>resource_stubs.c\<close>): creation, opening, connecting,
  release of what an owner holds, reference counting, closing, and the finalizers. Functions
  that the code guards with \<open>if (!owner) return\<close> take an optional pointer.
\<close>

subsection \<open>Databases\<close>

definition database_owner0 :: database_owner where
  "database_owner0 = \<lparr>d_references = 0, d_database = None, d_config = None, d_path = None,
     d_open_error = None, d_status = DUCKDB_ML_STATUS_OK, d_message = []\<rparr>"

text \<open>\<open>static void message(char *out, const char *in)\<close>\<close>

definition message :: "string option \<Rightarrow> string" where
  "message m = diagnostic ''DuckDB operation failed'' m"

definition close_database_handle :: "'e session_api \<Rightarrow> nat \<Rightarrow> 'e world \<Rightarrow> 'e world run" where
  "close_database_handle S d w = bind (deref (databases w) d) (\<lambda>db.
     case d_database db of None \<Rightarrow> Inr w
     | Some h \<Rightarrow> (case engine (duckdb_close S h) w of (h', w) \<Rightarrow>
         bind (on_database d (\<lambda>db. db\<lparr>d_database := h'\<rparr>) w) (\<lambda>w. Inr (released w))))"

definition destroy_config_handle :: "'e session_api \<Rightarrow> nat \<Rightarrow> 'e world \<Rightarrow> 'e world run" where
  "destroy_config_handle S d w = bind (deref (databases w) d) (\<lambda>db.
     case d_config db of None \<Rightarrow> Inr w
     | Some h \<Rightarrow> (case engine (duckdb_destroy_config S h) w of (h', w) \<Rightarrow>
         bind (on_database d (\<lambda>db. db\<lparr>d_config := h'\<rparr>) w) (\<lambda>w. Inr (released w))))"

definition free_path :: "nat \<Rightarrow> 'e world \<Rightarrow> 'e world run" where
  "free_path d w = bind (deref (databases w) d) (\<lambda>db.
     case d_path db of None \<Rightarrow> Inr w
     | Some _ \<Rightarrow> bind (on_database d (\<lambda>db. db\<lparr>d_path := None\<rparr>) w) (\<lambda>w. Inr (released w)))"

definition database_clear :: "'e session_api \<Rightarrow> nat option \<Rightarrow> 'e world \<Rightarrow> 'e world run" where
  "database_clear S owner w = (case owner of None \<Rightarrow> Inr w | Some d \<Rightarrow>
     bind (close_database_handle S d w) (\<lambda>w.
     bind (destroy_config_handle S d w) (\<lambda>w.
     bind (free_path d w) (\<lambda>w.
     on_database d (\<lambda>db. db\<lparr>d_open_error := None\<rparr>) w))))"

definition database_unref :: "'e session_api \<Rightarrow> nat option \<Rightarrow> 'e world \<Rightarrow> 'e world run" where
  "database_unref S owner w = (case owner of None \<Rightarrow> Inr w | Some d \<Rightarrow>
     bind (deref (databases w) d) (\<lambda>db.
     bind (on_database d (\<lambda>db. db\<lparr>d_references := d_references db - 1\<rparr>) w) (\<lambda>w.
     if d_references db = 1
     then bind (database_clear S owner w) (\<lambda>w.
          Inr (released (w\<lparr>databases := (databases w)(d := None)\<rparr>)))
     else Inr w)))"

definition finalize_database :: "'e session_api \<Rightarrow> nat \<Rightarrow> 'e world \<Rightarrow> 'e world run" where
  "finalize_database S v w = (case Database w v of None \<Rightarrow> Inr w | Some d \<Rightarrow>
     bind (database_unref S (Some d) (count_fallback w)) (\<lambda>w.
     Inr (w\<lparr>Database := (Database w)(v := None)\<rparr>)))"

text \<open>\<open>caml_alloc_custom\<close> gives a fresh value; its slot starts NULL.\<close>

definition ml_duckdb_database_owner :: "'e world \<Rightarrow> (nat reply \<times> 'e world) run" where
  "ml_duckdb_database_owner w =
     (case fresh w of (v, w) \<Rightarrow>
      case malloc_fails w of (fails, w) \<Rightarrow>
      if fails then Inr (Out_of_memory, w)
      else case fresh w of (d, w) \<Rightarrow>
        Inr (Returned v, acquired (w\<lparr>databases := (databases w)(d \<mapsto> database_owner0\<lparr>d_references := 1\<rparr>),
                                    Database := (Database w)(v \<mapsto> d)\<rparr>)))"

definition set_config :: "'e session_api \<Rightarrow> nat \<Rightarrow> string \<Rightarrow> string \<Rightarrow> duckdb_state \<Rightarrow> 'e world
    \<Rightarrow> (duckdb_state \<times> 'e world) run" where
  "set_config S d name setting state w =
     (if state = DuckDBSuccess
      then bind (deref (databases w) d) (\<lambda>db.
           Inr (engine (duckdb_set_config S (d_config db) name setting) w))
      else Inr (state, w))"

definition open_engine :: "'e session_api \<Rightarrow> nat \<Rightarrow> duckdb_state \<Rightarrow> 'e world
    \<Rightarrow> (duckdb_state \<times> 'e world) run" where
  "open_engine S d state w =
     (if state = DuckDBSuccess
      then bind (deref (databases w) d) (\<lambda>db.
           case engine (duckdb_open_ext S
                  (case d_path db of Some p \<Rightarrow> if p = [] then None else Some (c_string p) | None \<Rightarrow> None)
                  (d_config db)) w of ((state, h, err), w) \<Rightarrow>
           bind (on_database d (\<lambda>db. db\<lparr>d_database := h, d_open_error := err\<rparr>) w) (\<lambda>w.
           Inr (state, w)))
      else Inr (state, w))"

definition open_body :: "'e session_api \<Rightarrow> nat \<Rightarrow> int \<Rightarrow> int \<Rightarrow> bool \<Rightarrow> 'e world \<Rightarrow> (unit \<times> 'e world) run" where
  "open_body S d threads memory_bytes read_only w =
     bind (on_database d (\<lambda>db. db\<lparr>d_status := DUCKDB_ML_STATUS_ERROR\<rparr>) w) (\<lambda>w.
     case engine (duckdb_create_config S) w of ((state, config), w) \<Rightarrow>
     bind (on_database d (\<lambda>db. db\<lparr>d_config := config\<rparr>) w) (\<lambda>w.
     let w = (if config \<noteq> None then acquired w else w) in
     bind (set_config S d ''threads'' (decimal threads) state w) (\<lambda>(state, w).
     bind (if memory_bytes > 0 then set_config S d ''memory_limit'' (decimal memory_bytes @ ''B'') state w
           else Inr (state, w)) (\<lambda>(state, w).
     bind (set_config S d ''access_mode'' (if read_only then ''READ_ONLY'' else ''READ_WRITE'') state w) (\<lambda>(state, w).
     bind (set_config S d ''disabled_optimizers'' ''compressed_materialization'' state w) (\<lambda>(state, w).
     bind (open_engine S d state w) (\<lambda>(state, w).
     bind (deref (databases w) d) (\<lambda>db.
     let w = (if d_database db \<noteq> None then acquired w else w) in
     bind (on_database d (\<lambda>db. if state = DuckDBSuccess then db\<lparr>d_status := DUCKDB_ML_STATUS_OK\<rparr>
             else db\<lparr>d_message := message (d_open_error db)\<rparr>) w) (\<lambda>w.
     bind (destroy_config_handle S d w) (\<lambda>w.
     bind (on_database d (\<lambda>db. db\<lparr>d_path := None\<rparr>) w) (\<lambda>w.
     let w = released w in
     bind (on_database d (\<lambda>db. db\<lparr>d_open_error := None\<rparr>) w) (\<lambda>w.
     Inr ((), w)))))))))))))"

definition ml_duckdb_open :: "'e session_api \<Rightarrow> nat \<Rightarrow> string \<Rightarrow> int \<Rightarrow> int \<Rightarrow> bool \<Rightarrow> 'e world
    \<Rightarrow> (unit reply \<times> 'e world) run" where
  "ml_duckdb_open S v path threads memory_bytes read_only w =
     bind (deref (Database w) v) (\<lambda>d.
     if duckdb_library_version S \<noteq> ''v1.5.5''
     then bind (on_database d (\<lambda>db. db\<lparr>d_status := DUCKDB_ML_STATUS_ERROR,
                  d_message := message (Some ''duckdb-ffi requires DuckDB v1.5.5'')\<rparr>) w)
               (\<lambda>w. Inr (Returned (), w))
     else case malloc_fails w of (fails, w) \<Rightarrow>
       if fails
       then bind (on_database d (\<lambda>db. db\<lparr>d_path := None\<rparr>) w) (\<lambda>w. Inr (Out_of_memory, w))
       else bind (on_database d (\<lambda>db. db\<lparr>d_path := Some path\<rparr>) w) (\<lambda>w.
            blocking (open_body S d threads memory_bytes read_only) (acquired w)))"

definition ml_duckdb_close_database :: "'e session_api \<Rightarrow> nat \<Rightarrow> 'e world \<Rightarrow> (unit reply \<times> 'e world) run" where
  "ml_duckdb_close_database S v w =
     blocking (\<lambda>w1. bind (database_clear S (Database w v) w1) (\<lambda>w. Inr ((), w))) w"

definition ml_duckdb_finish_database_close :: "'e session_api \<Rightarrow> nat \<Rightarrow> 'e world \<Rightarrow> 'e world run" where
  "ml_duckdb_finish_database_close S v w =
     bind (database_unref S (Database w v) w) (\<lambda>w.
     Inr (w\<lparr>Database := (Database w)(v := None)\<rparr>))"

definition ml_duckdb_database_status :: "nat \<Rightarrow> 'e world \<Rightarrow> int run" where
  "ml_duckdb_database_status v w = bind (deref (Database w) v) (\<lambda>d.
     bind (deref (databases w) d) (\<lambda>db. Inr (status_code (d_status db))))"

definition ml_duckdb_database_message :: "nat \<Rightarrow> 'e world \<Rightarrow> string run" where
  "ml_duckdb_database_message v w = bind (deref (Database w) v) (\<lambda>d.
     bind (deref (databases w) d) (\<lambda>db. Inr (d_message db)))"

subsection \<open>Connections\<close>

definition connection_owner0 :: connection_owner where
  "connection_owner0 = \<lparr>c_references = 0, c_parent = 0, c_connection = None, c_native_guard = False,
     c_active_request = None, c_native_phase = DUCKDB_ML_NATIVE_IDLE, c_native_closing = False,
     c_foreign_active = False, c_schema_dirty = False, c_cleanup_depth = 0, c_sql = None,
     c_extracted = None, c_prepared = None, c_result = 0, c_has_result = False,
     c_status = DUCKDB_ML_STATUS_OK, c_message = []\<rparr>"

definition clear_result_of_work :: "'e statement_api \<Rightarrow> nat \<Rightarrow> 'e world \<Rightarrow> 'e world run" where
  "clear_result_of_work T a w = bind (deref (connections w) a) (\<lambda>c.
     if c_has_result c
     then bind (call a Destroy_result (duckdb_destroy_result T (c_result c)) w) (\<lambda>(r, w).
          bind (on_connection a (\<lambda>c. c\<lparr>c_result := r, c_has_result := False\<rparr>) w) (\<lambda>w.
          Inr (released w)))
     else Inr w)"

definition clear_prepared_of_work :: "'e statement_api \<Rightarrow> nat \<Rightarrow> 'e world \<Rightarrow> 'e world run" where
  "clear_prepared_of_work T a w = bind (deref (connections w) a) (\<lambda>c.
     case c_prepared c of None \<Rightarrow> Inr w
     | Some h \<Rightarrow> bind (call a Destroy_prepare (duckdb_destroy_prepare T h) w) (\<lambda>(h', w).
          bind (on_connection a (\<lambda>c. c\<lparr>c_prepared := h'\<rparr>) w) (\<lambda>w. Inr (released w))))"

definition clear_extracted_of_work :: "'e statement_api \<Rightarrow> nat \<Rightarrow> 'e world \<Rightarrow> 'e world run" where
  "clear_extracted_of_work T a w = bind (deref (connections w) a) (\<lambda>c.
     case c_extracted c of None \<Rightarrow> Inr w
     | Some h \<Rightarrow> bind (call a Destroy_extracted (duckdb_destroy_extracted T h) w) (\<lambda>(h', w).
          bind (on_connection a (\<lambda>c. c\<lparr>c_extracted := h'\<rparr>) w) (\<lambda>w. Inr (released w))))"

definition clear_sql_of_work :: "nat \<Rightarrow> 'e world \<Rightarrow> 'e world run" where
  "clear_sql_of_work a w = bind (deref (connections w) a) (\<lambda>c.
     case c_sql c of None \<Rightarrow> Inr w
     | Some _ \<Rightarrow> bind (on_connection a (\<lambda>c. c\<lparr>c_sql := None\<rparr>) w) (\<lambda>w. Inr (released w)))"

definition clear_work :: "'e statement_api \<Rightarrow> nat option \<Rightarrow> duckdb_ml_runtime \<Rightarrow> 'e world \<Rightarrow> 'e world run" where
  "clear_work T owner runtime w = (case owner of None \<Rightarrow> Inr w | Some a \<Rightarrow>
     bind (duckdb_ml_native_cleanup_begin a runtime w) (\<lambda>w.
     bind (clear_result_of_work T a w) (\<lambda>w.
     bind (clear_prepared_of_work T a w) (\<lambda>w.
     bind (clear_extracted_of_work T a w) (\<lambda>w.
     bind (clear_sql_of_work a w) (\<lambda>w.
     duckdb_ml_native_cleanup_end a runtime w))))))"

definition disconnect_handle :: "'e session_api \<Rightarrow> nat \<Rightarrow> 'e world \<Rightarrow> 'e world run" where
  "disconnect_handle S a w = bind (deref (connections w) a) (\<lambda>c.
     case c_connection c of None \<Rightarrow> Inr w
     | Some h \<Rightarrow> bind (call a Disconnect (duckdb_disconnect S h) w) (\<lambda>(h', w).
          bind (on_connection a (\<lambda>c. c\<lparr>c_connection := h'\<rparr>) w) (\<lambda>w. Inr (released w))))"

definition connection_clear :: "'e session_api \<Rightarrow> 'e statement_api \<Rightarrow> nat option \<Rightarrow> duckdb_ml_runtime
    \<Rightarrow> 'e world \<Rightarrow> 'e world run" where
  "connection_clear S T owner runtime w = (case owner of None \<Rightarrow> Inr w | Some a \<Rightarrow>
     bind (native_close_begin a runtime w) (\<lambda>w.
     bind (duckdb_ml_native_cleanup_begin a runtime w) (\<lambda>w.
     bind (clear_work T owner runtime w) (\<lambda>w.
     bind (disconnect_handle S a w) (\<lambda>w.
     duckdb_ml_native_cleanup_end a runtime w)))))"

definition connection_delete :: "'e session_api \<Rightarrow> 'e statement_api \<Rightarrow> nat option \<Rightarrow> 'e world \<Rightarrow> 'e world run" where
  "connection_delete S T owner w = (case owner of None \<Rightarrow> Inr w | Some a \<Rightarrow>
     bind (deref (connections w) a) (\<lambda>c.
     bind (on_connection a (\<lambda>c. c\<lparr>c_references := c_references c - 1\<rparr>) w) (\<lambda>w.
     if c_references c \<noteq> 1 then Inr w
     else bind (connection_clear S T owner DUCKDB_ML_RUNTIME_HELD w) (\<lambda>w.
          bind (database_unref S (Some (c_parent c)) w) (\<lambda>w.
          Inr (released (w\<lparr>connections := (connections w)(a := None)\<rparr>)))))))"

definition finalize_connection :: "'e session_api \<Rightarrow> 'e statement_api \<Rightarrow> nat \<Rightarrow> 'e world \<Rightarrow> 'e world run" where
  "finalize_connection S T v w = (case Connection w v of None \<Rightarrow> Inr w | Some a \<Rightarrow>
     bind (connection_delete S T (Some a) (count_fallback w)) (\<lambda>w.
     Inr (w\<lparr>Connection := (Connection w)(v := None)\<rparr>)))"

definition ml_duckdb_connection_owner :: "nat \<Rightarrow> 'e world \<Rightarrow> (nat reply \<times> 'e world) run" where
  "ml_duckdb_connection_owner parent w =
     (case fresh w of (v, w) \<Rightarrow>
      case malloc_fails w of (fails, w) \<Rightarrow>
      if fails then Inr (Out_of_memory, w)
      else case fresh w of (a, w) \<Rightarrow>
        bind (deref (Database w) parent) (\<lambda>d.
        bind (on_database d (\<lambda>db. db\<lparr>d_references := d_references db + 1\<rparr>) w) (\<lambda>w.
        Inr (Returned v, acquired (w\<lparr>
          connections := (connections w)(a \<mapsto> connection_owner0\<lparr>c_references := 1, c_parent := d\<rparr>),
          Connection := (Connection w)(v \<mapsto> a)\<rparr>)))))"

definition ml_duckdb_connect :: "'e session_api \<Rightarrow> nat \<Rightarrow> 'e world \<Rightarrow> (unit reply \<times> 'e world) run" where
  "ml_duckdb_connect S v w = bind (deref (Connection w) v) (\<lambda>a. blocking (\<lambda>w.
     bind (duckdb_ml_native_work_begin a w) (\<lambda>w.
     bind (deref (connections w) a) (\<lambda>c.
     bind (deref (databases w) (c_parent c)) (\<lambda>d.
     bind (call a Connect (duckdb_connect S (d_database d)) w) (\<lambda>((state, h), w).
     bind (on_connection a (\<lambda>c. c\<lparr>c_connection := h, c_status :=
            (if state = DuckDBSuccess then DUCKDB_ML_STATUS_OK else DUCKDB_ML_STATUS_ERROR)\<rparr>) w) (\<lambda>w.
     let w = (if h \<noteq> None then acquired w else w) in
     bind (on_connection a (\<lambda>c. if c_status c \<noteq> DUCKDB_ML_STATUS_OK
            then c\<lparr>c_message := message (Some ''DuckDB connection failed'')\<rparr> else c) w) (\<lambda>w.
     bind (duckdb_ml_native_work_end a w) (\<lambda>w.
     Inr ((), w))))))))) w)"

definition ml_duckdb_close_connection :: "'e session_api \<Rightarrow> 'e statement_api \<Rightarrow> nat \<Rightarrow> 'e world
    \<Rightarrow> (unit reply \<times> 'e world) run" where
  "ml_duckdb_close_connection S T v w =
     blocking (\<lambda>w1. bind (connection_clear S T (Connection w v) DUCKDB_ML_RUNTIME_RELEASED w1)
       (\<lambda>w. Inr ((), w))) w"

definition ml_duckdb_finish_connection_close :: "'e session_api \<Rightarrow> 'e statement_api \<Rightarrow> nat \<Rightarrow> 'e world
    \<Rightarrow> 'e world run" where
  "ml_duckdb_finish_connection_close S T v w =
     bind (connection_delete S T (Connection w v) w) (\<lambda>w.
     Inr (w\<lparr>Connection := (Connection w)(v := None)\<rparr>))"

definition ml_duckdb_clear_work :: "'e statement_api \<Rightarrow> nat \<Rightarrow> 'e world \<Rightarrow> 'e world run" where
  "ml_duckdb_clear_work T v w = clear_work T (Connection w v) DUCKDB_ML_RUNTIME_HELD w"

definition ml_duckdb_connection_status :: "nat \<Rightarrow> 'e world \<Rightarrow> int run" where
  "ml_duckdb_connection_status v w = bind (deref (Connection w) v) (\<lambda>a.
     bind (deref (connections w) a) (\<lambda>c. Inr (status_code (c_status c))))"

definition ml_duckdb_connection_message :: "nat \<Rightarrow> 'e world \<Rightarrow> string run" where
  "ml_duckdb_connection_message v w = bind (deref (Connection w) v) (\<lambda>a.
     bind (deref (connections w) a) (\<lambda>c. Inr (c_message c)))"

definition ml_duckdb_interrupt :: "'e session_api \<Rightarrow> nat \<Rightarrow> 'e world \<Rightarrow> 'e world run" where
  "ml_duckdb_interrupt S v w = bind (deref (Connection w) v) (\<lambda>a.
     bind (deref (connections w) a) (\<lambda>c.
     bind (call a Interrupt (\<lambda>e. ((), duckdb_interrupt S (c_connection c) e)) w) (\<lambda>(_, w).
     Inr w)))"

text \<open>The seam other files use.\<close>

definition duckdb_ml_connection_ref :: "nat \<Rightarrow> 'e world \<Rightarrow> (nat \<times> 'e world) run" where
  "duckdb_ml_connection_ref v w = bind (deref (Connection w) v) (\<lambda>a.
     bind (on_connection a (\<lambda>c. c\<lparr>c_references := c_references c + 1\<rparr>) w) (\<lambda>w. Inr (a, w)))"

definition duckdb_ml_connection_unref :: "'e session_api \<Rightarrow> 'e statement_api \<Rightarrow> nat option \<Rightarrow> 'e world \<Rightarrow> 'e world run" where
  "duckdb_ml_connection_unref S T owner w = connection_delete S T owner w"

definition duckdb_ml_connection_handle :: "nat \<Rightarrow> 'e world \<Rightarrow> nat option run" where
  "duckdb_ml_connection_handle a w = bind (deref (connections w) a) (\<lambda>c. Inr (c_connection c))"

definition ml_duckdb_live_resources :: "'e world \<Rightarrow> 32 word" where
  "ml_duckdb_live_resources w = w_live w"

definition ml_duckdb_fallback_reclaims :: "'e world \<Rightarrow> 32 word" where
  "ml_duckdb_fallback_reclaims w = w_fallback w"

end
