(* ===== verification/Native_Requests.thy ===== *)
theory Native_Requests
  imports Owners
begin

text \<open>
  Native requests (\<open>resource_stubs.c\<close>): the cancellation latch a controller thread shares with
  the worker. A request is installed on one connection, which it keeps alive by a reference;
  while it is installed the controller may reserve a delivery, interrupt the engine and
  retire the reservation; uninstalling needs completed work and no reservation.
\<close>

subsection \<open>Results, in the order of the ML constructors\<close>

datatype request_uninstall_result =
    REQUEST_UNINSTALLED | REQUEST_UNINSTALL_CONTENDED | REQUEST_NATIVE_WORK_PENDING
  | REQUEST_DELIVERY_PENDING | REQUEST_NOT_INSTALLED

datatype request_install_result =
    REQUEST_INSTALLED | REQUEST_INSTALL_CONTENDED | REQUEST_CONNECTION_CLOSED
  | REQUEST_CONNECTION_LEASED | REQUEST_USED | REQUEST_CONNECTION_ACTIVE

datatype request_reserve_result = REQUEST_RESERVED | REQUEST_INELIGIBLE | REQUEST_RESERVATION_PENDING

datatype request_interrupt_result = REQUEST_DELIVERED | REQUEST_SKIPPED | REQUEST_NOT_RESERVED

subsection \<open>Creation and the latch\<close>

definition native_request0 :: duckdb_ml_native_request where
  "native_request0 = \<lparr>r_owner = None, r_state = DUCKDB_ML_REQUEST_FRESH, r_reserved = False,
     r_cancelled = False\<rparr>"

definition ml_duckdb_native_request_create :: "'e world \<Rightarrow> (nat reply \<times> 'e world) run" where
  "ml_duckdb_native_request_create w =
     (case fresh w of (v, w) \<Rightarrow>
      case malloc_fails w of (fails, w) \<Rightarrow>
      if fails then Inr (Out_of_memory, w)
      else case fresh w of (r, w) \<Rightarrow>
        Inr (Returned v, acquired (w\<lparr>requests := (requests w)(r \<mapsto> native_request0),
                                    Native_request := (Native_request w)(v \<mapsto> r)\<rparr>)))"

definition ml_duckdb_native_request_cancel :: "nat \<Rightarrow> 'e world \<Rightarrow> 'e world run" where
  "ml_duckdb_native_request_cancel v w = (case Native_request w v of None \<Rightarrow> Inr w
     | Some r \<Rightarrow> on_request r (\<lambda>q. q\<lparr>r_cancelled := True\<rparr>) w)"

subsection \<open>Installing and uninstalling\<close>

definition ml_duckdb_native_request_install :: "nat \<Rightarrow> nat \<Rightarrow> 'e world
    \<Rightarrow> (request_install_result \<times> 'e world) run" where
  "ml_duckdb_native_request_install connection v w =
     (case Native_request w v of None \<Rightarrow> Inr (REQUEST_USED, w) | Some r \<Rightarrow>
      bind (deref (requests w) r) (\<lambda>q.
      if r_state q \<noteq> DUCKDB_ML_REQUEST_FRESH then Inr (REQUEST_USED, w)
      else case Connection w connection of None \<Rightarrow> Inr (REQUEST_CONNECTION_CLOSED, w) | Some a \<Rightarrow>
      bind (duckdb_ml_native_try_lock a w) (\<lambda>(locked, w).
      if \<not> locked then Inr (REQUEST_INSTALL_CONTENDED, w)
      else bind (deref (connections w) a) (\<lambda>c.
      bind (if c_native_closing c then Inr (REQUEST_CONNECTION_CLOSED, w)
            else if c_foreign_active c \<or> c_cleanup_depth c \<noteq> 0 then Inr (REQUEST_CONNECTION_ACTIVE, w)
            else if c_connection c = None then Inr (REQUEST_CONNECTION_CLOSED, w)
            else if c_active_request c \<noteq> None then Inr (REQUEST_CONNECTION_LEASED, w)
            else bind (on_connection a (\<lambda>c. c\<lparr>c_references := c_references c + 1\<rparr>) w) (\<lambda>w.
                 bind (on_request r (\<lambda>q. q\<lparr>r_owner := Some a, r_state := DUCKDB_ML_REQUEST_INSTALLED\<rparr>) w) (\<lambda>w.
                 bind (on_connection a (\<lambda>c. c\<lparr>c_active_request := Some r\<rparr>) w) (\<lambda>w.
                 Inr (REQUEST_INSTALLED, w))))) (\<lambda>(result, w).
      bind (duckdb_ml_native_unlock a w) (\<lambda>w.
      Inr (result, w)))))))"

definition native_request_uninstall :: "'e session_api \<Rightarrow> 'e statement_api \<Rightarrow> nat option \<Rightarrow> 'e world
    \<Rightarrow> (request_uninstall_result \<times> 'e world) run" where
  "native_request_uninstall S T request w =
     (case request of None \<Rightarrow> Inr (REQUEST_NOT_INSTALLED, w) | Some r \<Rightarrow>
      bind (deref (requests w) r) (\<lambda>q.
      if r_state q \<noteq> DUCKDB_ML_REQUEST_INSTALLED then Inr (REQUEST_NOT_INSTALLED, w)
      else bind (not_null (r_owner q)) (\<lambda>a.
      bind (duckdb_ml_native_try_lock a w) (\<lambda>(locked, w).
      if \<not> locked then Inr (REQUEST_UNINSTALL_CONTENDED, w)
      else bind (deref (connections w) a) (\<lambda>c.
      bind (if c_foreign_active c \<or> c_cleanup_depth c \<noteq> 0 then Inr (REQUEST_NATIVE_WORK_PENDING, w)
            else if r_reserved q then Inr (REQUEST_DELIVERY_PENDING, w)
            else if c_active_request c \<noteq> Some r
            then unlock_fatal a ''native request owner identity invariant violated'' w
            else bind (on_connection a (\<lambda>c. c\<lparr>c_active_request := None\<rparr>) w) (\<lambda>w.
                 bind (on_request r (\<lambda>q. q\<lparr>r_owner := None, r_state := DUCKDB_ML_REQUEST_DETACHED\<rparr>) w) (\<lambda>w.
                 Inr (REQUEST_UNINSTALLED, w)))) (\<lambda>(result, w).
      bind (duckdb_ml_native_unlock a w) (\<lambda>w.
      bind (if result = REQUEST_UNINSTALLED then connection_delete S T (Some a) w else Inr w) (\<lambda>w.
      Inr (result, w)))))))))"

definition ml_duckdb_native_request_uninstall :: "'e session_api \<Rightarrow> 'e statement_api \<Rightarrow> nat \<Rightarrow> 'e world
    \<Rightarrow> (request_uninstall_result \<times> 'e world) run" where
  "ml_duckdb_native_request_uninstall S T v w = native_request_uninstall S T (Native_request w v) w"

subsection \<open>Delivery\<close>

definition native_request_eligible :: "nat \<Rightarrow> nat \<Rightarrow> 'e world \<Rightarrow> bool run" where
  "native_request_eligible a r w =
     bind (deref (connections w) a) (\<lambda>c.
     bind (deref (requests w) r) (\<lambda>q.
     Inr (c_active_request c = Some r \<and> r_cancelled q
          \<and> c_native_phase c = DUCKDB_ML_NATIVE_USER
          \<and> \<not> c_native_closing c \<and> c_connection c \<noteq> None)))"

definition ml_duckdb_native_request_reserve_delivery :: "nat \<Rightarrow> 'e world
    \<Rightarrow> (request_reserve_result \<times> 'e world) run" where
  "ml_duckdb_native_request_reserve_delivery v w =
     (case Native_request w v of None \<Rightarrow> Inr (REQUEST_INELIGIBLE, w) | Some r \<Rightarrow>
      bind (deref (requests w) r) (\<lambda>q.
      case r_owner q of None \<Rightarrow> Inr (REQUEST_INELIGIBLE, w) | Some a \<Rightarrow>
      bind (duckdb_ml_native_try_lock a w) (\<lambda>(locked, w).
      if \<not> locked then Inr (REQUEST_INELIGIBLE, w)
      else bind (if r_reserved q then Inr (REQUEST_RESERVATION_PENDING, w)
                 else bind (native_request_eligible a r w) (\<lambda>eligible.
                   if eligible
                   then bind (on_request r (\<lambda>q. q\<lparr>r_reserved := True\<rparr>) w) (\<lambda>w. Inr (REQUEST_RESERVED, w))
                   else Inr (REQUEST_INELIGIBLE, w))) (\<lambda>(result, w).
      bind (duckdb_ml_native_unlock a w) (\<lambda>w.
      Inr (result, w))))))"

definition ml_duckdb_native_request_try_interrupt :: "'e session_api \<Rightarrow> nat \<Rightarrow> 'e world
    \<Rightarrow> (request_interrupt_result \<times> 'e world) run" where
  "ml_duckdb_native_request_try_interrupt S v w =
     (case Native_request w v of None \<Rightarrow> Inr (REQUEST_NOT_RESERVED, w) | Some r \<Rightarrow>
      bind (deref (requests w) r) (\<lambda>q.
      if \<not> r_reserved q then Inr (REQUEST_NOT_RESERVED, w)
      else case r_owner q of None \<Rightarrow> Inr (REQUEST_SKIPPED, w) | Some a \<Rightarrow>
      bind (duckdb_ml_native_try_lock a w) (\<lambda>(locked, w).
      if \<not> locked then Inr (REQUEST_SKIPPED, w)
      else bind (native_request_eligible a r w) (\<lambda>eligible.
      bind (if eligible
            then bind (deref (connections w) a) (\<lambda>c.
                 bind (call a Interrupt (\<lambda>e. ((), duckdb_interrupt S (c_connection c) e)) w) (\<lambda>(_, w).
                 Inr (REQUEST_DELIVERED, w)))
            else Inr (REQUEST_SKIPPED, w)) (\<lambda>(result, w).
      bind (duckdb_ml_native_unlock a w) (\<lambda>w.
      Inr (result, w)))))))"

definition ml_duckdb_native_request_deliver :: "'e session_api \<Rightarrow> nat \<Rightarrow> 'e world
    \<Rightarrow> (request_interrupt_result \<times> 'e world) run" where
  "ml_duckdb_native_request_deliver S v w = ml_duckdb_native_request_try_interrupt S v w"

definition ml_duckdb_native_request_retire_delivery :: "nat \<Rightarrow> 'e world \<Rightarrow> 'e world run" where
  "ml_duckdb_native_request_retire_delivery v w = (case Native_request w v of None \<Rightarrow> Inr w
     | Some r \<Rightarrow> on_request r (\<lambda>q. q\<lparr>r_reserved := False\<rparr>) w)"

subsection \<open>Disposal and finalization\<close>

definition free_request :: "nat \<Rightarrow> nat \<Rightarrow> 'e world \<Rightarrow> 'e world" where
  "free_request v r w = released (w\<lparr>requests := (requests w)(r := None),
     Native_request := (Native_request w)(v := None)\<rparr>)"

definition ml_duckdb_native_request_dispose :: "nat \<Rightarrow> 'e world \<Rightarrow> (bool \<times> 'e world) run" where
  "ml_duckdb_native_request_dispose v w = (case Native_request w v of None \<Rightarrow> Inr (True, w) | Some r \<Rightarrow>
     bind (deref (requests w) r) (\<lambda>q.
     if r_state q = DUCKDB_ML_REQUEST_INSTALLED then Inr (False, w)
     else Inr (True, free_request v r w)))"

definition finalize_native_request :: "'e session_api \<Rightarrow> 'e statement_api \<Rightarrow> nat \<Rightarrow> 'e world \<Rightarrow> 'e world run" where
  "finalize_native_request S T v w = (case Native_request w v of None \<Rightarrow> Inr w | Some r \<Rightarrow>
     bind (deref (requests w) r) (\<lambda>q.
     bind (if r_state q = DUCKDB_ML_REQUEST_INSTALLED
           then bind (native_request_uninstall S T (Some r) w) (\<lambda>(result, w).
             if result \<noteq> REQUEST_UNINSTALLED
             then Inl (Fatal ''native request finalization requires quiescent exclusive ownership'')
             else Inr w)
           else Inr w) (\<lambda>w.
     Inr (free_request v r (count_fallback w)))))"

end
