(* ===== verification/Statements.thy ===== *)
theory Statements
  imports Native_Requests
begin

text \<open>
  Raw execution on a connection and the schema epoch (\<open>resource_stubs.c\<close>): the statement
  allow-list, \<open>ml_duckdb_execute\<close>, the transaction control entry \<open>ml_duckdb_execute_control\<close>,
  the admission of a local file and the process-wide epoch that advances around schema
  changes.
\<close>

subsection \<open>The schema epoch\<close>

definition advance_epoch :: "'e world \<Rightarrow> 'e world" where
  "advance_epoch w = w\<lparr>w_schema_epoch := w_schema_epoch w + 1, w_log := Epoch_advanced # w_log w\<rparr>"

fun statement_changes_schema :: "duckdb_statement_type \<Rightarrow> bool" where
  "statement_changes_schema DUCKDB_STATEMENT_TYPE_CREATE = True"
| "statement_changes_schema DUCKDB_STATEMENT_TYPE_ALTER = True"
| "statement_changes_schema DUCKDB_STATEMENT_TYPE_DROP = True"
| "statement_changes_schema _ = False"

definition duckdb_ml_changes_schema :: "'e statement_api \<Rightarrow> nat option \<Rightarrow> 'e world \<Rightarrow> bool" where
  "duckdb_ml_changes_schema T prepared w =
     statement_changes_schema (duckdb_prepared_statement_type T prepared (w_engine w))"

definition duckdb_ml_schema_enter :: "'e statement_api \<Rightarrow> nat \<Rightarrow> nat option \<Rightarrow> 'e world \<Rightarrow> (bool \<times> 'e world) run" where
  "duckdb_ml_schema_enter T a prepared w =
     (if \<not> duckdb_ml_changes_schema T prepared w then Inr (False, w)
      else bind (on_connection a (\<lambda>c. c\<lparr>c_schema_dirty := True\<rparr>) w) (\<lambda>w.
           Inr (True, advance_epoch w)))"

definition duckdb_ml_schema_leave :: "bool \<Rightarrow> 'e world \<Rightarrow> 'e world" where
  "duckdb_ml_schema_leave changing w = (if changing then advance_epoch w else w)"

text \<open>\<open>Val_long\<close> keeps the low 63 bits of the counter, as a signed OCaml integer.\<close>

definition ml_duckdb_schema_epoch :: "'e world \<Rightarrow> int" where
  "ml_duckdb_schema_epoch w = signed_take_bit 62 (sint (w_schema_epoch w))"

subsection \<open>The allow-list\<close>

fun duckdb_ml_allowed_statement :: "duckdb_statement_type \<Rightarrow> bool" where
  "duckdb_ml_allowed_statement DUCKDB_STATEMENT_TYPE_SELECT = True"
| "duckdb_ml_allowed_statement DUCKDB_STATEMENT_TYPE_INSERT = True"
| "duckdb_ml_allowed_statement DUCKDB_STATEMENT_TYPE_UPDATE = True"
| "duckdb_ml_allowed_statement DUCKDB_STATEMENT_TYPE_DELETE = True"
| "duckdb_ml_allowed_statement DUCKDB_STATEMENT_TYPE_CREATE = True"
| "duckdb_ml_allowed_statement DUCKDB_STATEMENT_TYPE_ALTER = True"
| "duckdb_ml_allowed_statement DUCKDB_STATEMENT_TYPE_DROP = True"
| "duckdb_ml_allowed_statement DUCKDB_STATEMENT_TYPE_COPY = True"
| "duckdb_ml_allowed_statement DUCKDB_STATEMENT_TYPE_ANALYZE = True"
| "duckdb_ml_allowed_statement DUCKDB_STATEMENT_TYPE_MERGE_INTO = True"
| "duckdb_ml_allowed_statement _ = False"

subsection \<open>Raw execution\<close>

definition set_status :: "nat \<Rightarrow> duckdb_ml_status \<Rightarrow> 'e world \<Rightarrow> 'e world run" where
  "set_status a s = on_connection a (\<lambda>c. c\<lparr>c_status := s\<rparr>)"

text \<open>\<open>owner->status = DUCKDB_ML_STATUS_ERROR; message(owner->message, m);\<close>\<close>

definition fail_with :: "nat \<Rightarrow> string option \<Rightarrow> 'e world \<Rightarrow> 'e world run" where
  "fail_with a m = on_connection a (\<lambda>c. c\<lparr>c_status := DUCKDB_ML_STATUS_ERROR, c_message := message m\<rparr>)"

text \<open>\<open>duckdb_query\<close> into the owner's result.\<close>

definition query_into :: "'e statement_api \<Rightarrow> nat \<Rightarrow> string \<Rightarrow> 'e world \<Rightarrow> (duckdb_state \<times> 'e world) run" where
  "query_into T a sql w =
     bind (on_connection a (\<lambda>c. c\<lparr>c_has_result := True\<rparr>) w) (\<lambda>w.
     bind (deref (connections w) a) (\<lambda>c.
     bind (call a (Query sql) (duckdb_query T (c_connection c) sql) (acquired w)) (\<lambda>((state, r), w).
     bind (on_connection a (\<lambda>c. c\<lparr>c_result := r\<rparr>) w) (\<lambda>w.
     Inr (state, w)))))"

definition result_failed :: "'e statement_api \<Rightarrow> nat \<Rightarrow> duckdb_state \<Rightarrow> 'e world \<Rightarrow> 'e world run" where
  "result_failed T a state w =
     (if state = DuckDBSuccess then Inr w
      else bind (deref (connections w) a) (\<lambda>c. fail_with a (duckdb_result_error T (c_result c) (w_engine w)) w))"

text \<open>
  The prepared statement is executed: the epoch advances around a schema change, cleanup
  starts right after the engine call. The result tells that cleanup has been entered.
\<close>

definition execute_admitted :: "'e statement_api \<Rightarrow> nat \<Rightarrow> 'e world \<Rightarrow> (bool \<times> 'e world) run" where
  "execute_admitted T a w =
     bind (on_connection a (\<lambda>c. c\<lparr>c_has_result := True\<rparr>) w) (\<lambda>w.
     bind (deref (connections w) a) (\<lambda>c.
     bind (duckdb_ml_schema_enter T a (c_prepared c) (acquired w)) (\<lambda>(changing, w).
     bind (call a (Execute (duckdb_prepared_statement_type T (c_prepared c) (w_engine w)))
             (duckdb_execute_prepared T (c_prepared c)) w) (\<lambda>((executed, r), w).
     bind (on_connection a (\<lambda>c. c\<lparr>c_result := r\<rparr>) w) (\<lambda>w.
     bind (duckdb_ml_native_cleanup_begin a DUCKDB_ML_RUNTIME_RELEASED (duckdb_ml_schema_leave changing w)) (\<lambda>w.
     bind (result_failed T a executed w) (\<lambda>w.
     Inr (True, w))))))))"

definition prepare_and_execute :: "'e statement_api \<Rightarrow> nat \<Rightarrow> 'e world \<Rightarrow> (bool \<times> 'e world) run" where
  "prepare_and_execute T a w =
     bind (deref (connections w) a) (\<lambda>c.
     bind (call a Prepare (duckdb_prepare_extracted_statement T (c_connection c) (c_extracted c) 0) w) (\<lambda>((state, h), w).
     bind (on_connection a (\<lambda>c. c\<lparr>c_prepared := h\<rparr>) w) (\<lambda>w.
     bind (duckdb_ml_native_user_call_end a w) (\<lambda>w.
     let w = (if h \<noteq> None then acquired w else w) in
     if state \<noteq> DuckDBSuccess
     then bind (fail_with a (if h \<noteq> None then duckdb_prepare_error T h (w_engine w)
                             else Some ''DuckDB could not allocate prepared statement'') w)
               (\<lambda>w. Inr (False, w))
     else if \<not> duckdb_ml_allowed_statement (duckdb_prepared_statement_type T h (w_engine w))
     then bind (set_status a DUCKDB_ML_STATUS_UNSUPPORTED w) (\<lambda>w. Inr (False, w))
     else bind (duckdb_ml_native_user_call_begin a w) (\<lambda>(admission, w).
       if admission = DUCKDB_ML_CALL_CANCELLED
       then bind (set_status a DUCKDB_ML_STATUS_CANCELLED w) (\<lambda>w. Inr (False, w))
       else execute_admitted T a w)))))"

definition extract_and_execute :: "'e statement_api \<Rightarrow> nat \<Rightarrow> 'e world \<Rightarrow> (bool \<times> 'e world) run" where
  "extract_and_execute T a w =
     bind (deref (connections w) a) (\<lambda>c.
     bind (not_null (c_sql c)) (\<lambda>sql.
     bind (call a (Extract (c_string sql)) (duckdb_extract_statements T (c_connection c) (c_string sql)) w)
       (\<lambda>((count, h), w).
     bind (on_connection a (\<lambda>c. c\<lparr>c_extracted := h\<rparr>) w) (\<lambda>w.
     bind (duckdb_ml_native_user_call_end a w) (\<lambda>w.
     let w = (if h \<noteq> None then acquired w else w);
         error = (case h of Some x \<Rightarrow> duckdb_extract_statements_error T x (w_engine w)
                  | None \<Rightarrow> Some ''DuckDB could not allocate extracted statements'') in
     if nonempty error
     then bind (fail_with a error w) (\<lambda>w. Inr (False, w))
     else if count \<noteq> 1
     then bind (set_status a DUCKDB_ML_STATUS_UNSUPPORTED w) (\<lambda>w. Inr (False, w))
     else bind (duckdb_ml_native_user_call_begin a w) (\<lambda>(admission, w).
       if admission = DUCKDB_ML_CALL_CANCELLED
       then bind (set_status a DUCKDB_ML_STATUS_CANCELLED w) (\<lambda>w. Inr (False, w))
       else prepare_and_execute T a w))))))"

definition execute_body :: "'e statement_api \<Rightarrow> nat \<Rightarrow> bool \<Rightarrow> 'e world \<Rightarrow> (unit \<times> 'e world) run" where
  "execute_body T a is_control w =
     bind (duckdb_ml_native_work_begin a w) (\<lambda>w.
     bind (set_status a DUCKDB_ML_STATUS_OK w) (\<lambda>w.
     bind (if is_control
           then bind (deref (connections w) a) (\<lambda>c.
                bind (not_null (c_sql c)) (\<lambda>sql.
                bind (query_into T a (c_string sql) w) (\<lambda>(state, w).
                bind (result_failed T a state w) (\<lambda>w. Inr (False, w)))))
           else bind (duckdb_ml_native_user_call_begin a w) (\<lambda>(admission, w).
                if admission = DUCKDB_ML_CALL_CANCELLED
                then bind (set_status a DUCKDB_ML_STATUS_CANCELLED w) (\<lambda>w. Inr (False, w))
                else extract_and_execute T a w)) (\<lambda>(cleanup_started, w).
     bind (if cleanup_started then Inr w
           else duckdb_ml_native_cleanup_begin a DUCKDB_ML_RUNTIME_RELEASED w) (\<lambda>w.
     bind (clear_work T (Some a) DUCKDB_ML_RUNTIME_RELEASED w) (\<lambda>w.
     bind (duckdb_ml_native_cleanup_end a DUCKDB_ML_RUNTIME_RELEASED w) (\<lambda>w.
     bind (duckdb_ml_native_work_end a w) (\<lambda>w.
     Inr ((), w))))))))"

definition ml_duckdb_execute :: "'e statement_api \<Rightarrow> nat \<Rightarrow> string \<Rightarrow> bool \<Rightarrow> 'e world
    \<Rightarrow> (unit reply \<times> 'e world) run" where
  "ml_duckdb_execute T v sql is_control w =
     bind (deref (Connection w) v) (\<lambda>a.
     case malloc_fails w of (fails, w) \<Rightarrow>
     if fails then bind (on_connection a (\<lambda>c. c\<lparr>c_sql := None\<rparr>) w) (\<lambda>w. Inr (Out_of_memory, w))
     else bind (on_connection a (\<lambda>c. c\<lparr>c_sql := Some sql\<rparr>) w) (\<lambda>w.
          blocking (execute_body T a is_control) (acquired w)))"

subsection \<open>Transaction control\<close>

datatype control_statement = Begin | Commit | Rollback

definition control_sql :: "control_statement \<Rightarrow> string" where
  "control_sql s = (case s of Begin \<Rightarrow> ''BEGIN TRANSACTION'' | Commit \<Rightarrow> ''COMMIT'' | Rollback \<Rightarrow> ''ROLLBACK'')"

text \<open>Settling a transaction that ran DDL advances the epoch; BEGIN starts afresh.\<close>

definition settle_schema :: "nat \<Rightarrow> control_statement \<Rightarrow> 'e world \<Rightarrow> 'e world run" where
  "settle_schema a s w =
     (if s = Begin then on_connection a (\<lambda>c. c\<lparr>c_schema_dirty := False\<rparr>) w
      else bind (deref (connections w) a) (\<lambda>c.
        if c_schema_dirty c
        then bind (on_connection a (\<lambda>c. c\<lparr>c_schema_dirty := False\<rparr>) w) (\<lambda>w.
             Inr (duckdb_ml_schema_leave True w))
        else Inr w))"

definition execute_control_body :: "'e statement_api \<Rightarrow> nat \<Rightarrow> control_statement \<Rightarrow> 'e world \<Rightarrow> (unit \<times> 'e world) run" where
  "execute_control_body T a s w =
     bind (duckdb_ml_native_work_begin a w) (\<lambda>w.
     bind (set_status a DUCKDB_ML_STATUS_OK w) (\<lambda>w.
     bind (if s \<noteq> Rollback then duckdb_ml_native_user_call_begin a w
           else Inr (DUCKDB_ML_CALL_ADMITTED, w)) (\<lambda>(admission, w).
     bind (if admission = DUCKDB_ML_CALL_CANCELLED
           then bind (set_status a DUCKDB_ML_STATUS_CANCELLED w) (\<lambda>w.
                duckdb_ml_native_cleanup_begin a DUCKDB_ML_RUNTIME_RELEASED w)
           else bind (query_into T a (control_sql s) w) (\<lambda>(state, w).
                bind (settle_schema a s w) (\<lambda>w.
                bind (duckdb_ml_native_cleanup_begin a DUCKDB_ML_RUNTIME_RELEASED w) (\<lambda>w.
                result_failed T a state w)))) (\<lambda>w.
     bind (clear_work T (Some a) DUCKDB_ML_RUNTIME_RELEASED w) (\<lambda>w.
     bind (duckdb_ml_native_cleanup_end a DUCKDB_ML_RUNTIME_RELEASED w) (\<lambda>w.
     bind (duckdb_ml_native_work_end a w) (\<lambda>w.
     Inr ((), w))))))))"

definition ml_duckdb_execute_control :: "'e statement_api \<Rightarrow> nat \<Rightarrow> control_statement \<Rightarrow> 'e world
    \<Rightarrow> (unit reply \<times> 'e world) run" where
  "ml_duckdb_execute_control T v s w =
     bind (deref (Connection w) v) (\<lambda>a. blocking (execute_control_body T a s) w)"

subsection \<open>Admission of a local file\<close>

definition ml_duckdb_admit_local_file :: "nat \<Rightarrow> 'e world \<Rightarrow> (int reply \<times> 'e world) run" where
  "ml_duckdb_admit_local_file v w =
     bind (deref (Connection w) v) (\<lambda>a. blocking (\<lambda>w.
       bind (duckdb_ml_native_work_begin a w) (\<lambda>w.
       bind (duckdb_ml_native_noninterruptible_call_begin a w) (\<lambda>(result, w).
       bind (duckdb_ml_native_work_end a w) (\<lambda>w.
       Inr (if result = DUCKDB_ML_CALL_ADMITTED then 0 else 1, w))))) w)"

end
