(* ===== verification/Chunks.thy ===== *)
theory Chunks
  imports World
begin

unbundle bit_operations_syntax

text \<open>
  The engine's chunk and vector API (a parameter, as in \<open>World\<close>) and the memory it maps: a
  vector's elements and validity masks are read through raw addresses, so the engine also
  gives the bytes that are mapped at this moment. Reading an unmapped byte is \<open>Bad_memory\<close>.
  Words are assembled from bytes in the target's little-endian order.
\<close>

record 'e chunk_api =
  duckdb_fetch_chunk :: "nat \<Rightarrow> 'e \<Rightarrow> nat option \<times> 'e"
  duckdb_destroy_data_chunk :: "nat \<Rightarrow> 'e \<Rightarrow> nat option \<times> 'e"
  duckdb_data_chunk_get_column_count :: "nat option \<Rightarrow> 'e \<Rightarrow> nat"
  duckdb_data_chunk_get_size :: "nat option \<Rightarrow> 'e \<Rightarrow> nat"
  duckdb_data_chunk_get_vector :: "nat option \<Rightarrow> nat \<Rightarrow> 'e \<Rightarrow> nat"
  duckdb_vector_get_data :: "nat \<Rightarrow> 'e \<Rightarrow> nat"
  duckdb_vector_get_validity :: "nat \<Rightarrow> 'e \<Rightarrow> nat option"
  duckdb_column_count :: "nat \<Rightarrow> 'e \<Rightarrow> nat"
  duckdb_column_type :: "nat \<Rightarrow> nat \<Rightarrow> 'e \<Rightarrow> duckdb_type"
  duckdb_nparams :: "nat option \<Rightarrow> 'e \<Rightarrow> nat"
  duckdb_param_type :: "nat option \<Rightarrow> int \<Rightarrow> 'e \<Rightarrow> duckdb_type"
  duckdb_prepared_statement_column_count :: "nat option \<Rightarrow> 'e \<Rightarrow> nat"
  duckdb_prepared_statement_column_type :: "nat option \<Rightarrow> nat \<Rightarrow> 'e \<Rightarrow> duckdb_type"
  sizeof_duckdb_string_t :: nat
  duckdb_string_t_length :: "nat \<Rightarrow> 'e \<Rightarrow> nat"
  duckdb_string_t_data :: "nat \<Rightarrow> 'e \<Rightarrow> nat"
  mapped :: "'e \<Rightarrow> nat \<Rightarrow> 8 word option"

primrec load :: "(nat \<Rightarrow> 8 word option) \<Rightarrow> nat \<Rightarrow> nat \<Rightarrow> 8 word list run" where
  "load m addr 0 = Inr []"
| "load m addr (Suc n) = bind (deref m addr) (\<lambda>b. bind (load m (Suc addr) n) (\<lambda>bs. Inr (b # bs)))"

definition readable_range :: "(nat \<Rightarrow> 8 word option) \<Rightarrow> nat \<Rightarrow> nat \<Rightarrow> bool" where
  "readable_range m addr n \<longleftrightarrow> (\<forall>k<n. m (addr + k) \<noteq> None)"

primrec le_word :: "8 word list \<Rightarrow> 'a::len word" where
  "le_word [] = 0"
| "le_word (b # bs) = ucast b OR push_bit 8 (le_word bs)"

subsection \<open>Loads\<close>

lemma load_Inr_iff:
  "load m addr n = Inr bs \<longleftrightarrow> length bs = n \<and> (\<forall>k<n. m (addr + k) = Some (bs ! k))"
proof (induction n arbitrary: addr bs)
  case 0
  then show ?case by auto
next
  case (Suc n)
  have "load m addr (Suc n) = Inr bs \<longleftrightarrow>
      (\<exists>b bs'. m addr = Some b \<and> load m (Suc addr) n = Inr bs' \<and> bs = b # bs')"
    by (auto simp: bind_Inr_iff deref_Inr_iff)
  also have "\<dots> \<longleftrightarrow> length bs = Suc n \<and> (\<forall>k<Suc n. m (addr + k) = Some (bs ! k))"
    by (cases bs) (auto simp: Suc.IH less_Suc_eq_0_disj)
  finally show ?case .
qed

lemma load_returns: "readable_range m addr n \<Longrightarrow> \<exists>bs. load m addr n = Inr bs"
proof (rule exI [of _ "map (\<lambda>k. the (m (addr + k))) [0..<n]"])
  assume "readable_range m addr n"
  then show "load m addr n = Inr (map (\<lambda>k. the (m (addr + k))) [0..<n])"
    by (auto simp: load_Inr_iff readable_range_def)
qed

lemma load_faults_iff: "(\<exists>bs. load m addr n = Inr bs) \<longleftrightarrow> readable_range m addr n"
  using load_returns [of m addr n] by (auto simp: load_Inr_iff readable_range_def)

lemma load_length: "load m addr n = Inr bs \<Longrightarrow> length bs = n"
  by (simp add: load_Inr_iff)

lemma load_slice:
  assumes "load m addr n = Inr bs" and "k + j \<le> n"
  shows "load m (addr + k) j = Inr (take j (drop k bs))"
proof -
  from assms(1) have "length bs = n" and "\<And>i. i < n \<Longrightarrow> m (addr + i) = Some (bs ! i)"
    by (auto simp: load_Inr_iff)
  with assms(2) show ?thesis
    by (auto simp: load_Inr_iff add.assoc)
qed

lemma readable_range_mono:
  "readable_range m addr n \<Longrightarrow> k + j \<le> n \<Longrightarrow> readable_range m (addr + k) j"
  by (auto simp: readable_range_def add.assoc)

lemma bit_le_word:
  "bit (le_word bs :: 'a::len word) n \<longleftrightarrow> n < LENGTH('a) \<and> n div 8 < length bs \<and> bit (bs ! (n div 8)) (n mod 8)"
proof (induction bs arbitrary: n)
  case Nil
  then show ?case by simp
next
  case (Cons b bs)
  have low: "\<not> bit b n" if "8 \<le> n" for n
    using that bit_imp_le_length [of b n] by auto
  show ?case
  proof (cases "n < 8")
    case True
    then show ?thesis by (auto simp: bit_or_iff bit_ucast_iff bit_push_bit_iff)
  next
    case False
    then have "n div 8 = Suc ((n - 8) div 8)" and "n mod 8 = (n - 8) mod 8"
      by (simp_all add: le_div_geq le_mod_geq)
    with False show ?thesis
      by (auto simp: bit_or_iff bit_ucast_iff bit_push_bit_iff Cons.IH low)
  qed
qed

end
