(* ===== verification/Prepared_Statements.thy ===== *)
theory Prepared_Statements
  imports Statements Chunks
begin

text \<open>
  Prepared statements and their results (\<open>prepared_stubs.c\<close>): preparation, execution,
  fetching, the per-chunk vector cache, and release. A prepared owner keeps its connection
  alive by a reference.
\<close>

subsection \<open>Diagnostics and release\<close>

definition set_error :: "nat \<Rightarrow> string option \<Rightarrow> 'e world \<Rightarrow> 'e world run" where
  "set_error p text = on_prepared p (\<lambda>pr. pr\<lparr>p_status := DUCKDB_ML_STATUS_ERROR,
     p_message := diagnostic ''DuckDB operation failed'' text\<rparr>)"

definition set_prepared_status :: "nat \<Rightarrow> duckdb_ml_status \<Rightarrow> 'e world \<Rightarrow> 'e world run" where
  "set_prepared_status p s = on_prepared p (\<lambda>pr. pr\<lparr>p_status := s\<rparr>)"

definition clear_prepared_input :: "nat option \<Rightarrow> 'e world \<Rightarrow> 'e world run" where
  "clear_prepared_input owner w = (case owner of None \<Rightarrow> Inr w | Some p \<Rightarrow>
     bind (deref (prepareds w) p) (\<lambda>pr.
     if p_input pr \<noteq> None
     then bind (on_prepared p (\<lambda>pr. pr\<lparr>p_input := None\<rparr>) w) (\<lambda>w. Inr (released w))
     else Inr w))"

definition destroy_chunk :: "'e chunk_api \<Rightarrow> nat \<Rightarrow> 'e world \<Rightarrow> 'e world run" where
  "destroy_chunk C p w = bind (deref (prepareds w) p) (\<lambda>pr.
     case p_chunk pr of None \<Rightarrow> Inr w
     | Some h \<Rightarrow> bind (call (p_parent pr) Destroy_chunk (duckdb_destroy_data_chunk C h) w) (\<lambda>(h', w).
          bind (on_prepared p (\<lambda>pr. pr\<lparr>p_chunk := h'\<rparr>) w) (\<lambda>w. Inr (released w))))"

definition free_vectors :: "nat \<Rightarrow> 'e world \<Rightarrow> 'e world run" where
  "free_vectors p w = bind (deref (prepareds w) p) (\<lambda>pr.
     if p_vectors pr \<noteq> None
     then bind (on_prepared p (\<lambda>pr. pr\<lparr>p_vectors := None, p_vector_count := 0\<rparr>) w) (\<lambda>w. Inr (released w))
     else Inr w)"

definition destroy_result :: "'e statement_api \<Rightarrow> nat \<Rightarrow> 'e world \<Rightarrow> 'e world run" where
  "destroy_result T p w = bind (deref (prepareds w) p) (\<lambda>pr.
     if p_has_result pr
     then bind (call (p_parent pr) Destroy_result (duckdb_destroy_result T (p_result pr)) w) (\<lambda>(r, w).
          bind (on_prepared p (\<lambda>pr. pr\<lparr>p_result := r, p_has_result := False\<rparr>) w) (\<lambda>w. Inr (released w)))
     else Inr w)"

definition clear_result :: "'e statement_api \<Rightarrow> 'e chunk_api \<Rightarrow> nat option \<Rightarrow> duckdb_ml_runtime \<Rightarrow> 'e world \<Rightarrow> 'e world run" where
  "clear_result T C owner runtime w = (case owner of None \<Rightarrow> Inr w | Some p \<Rightarrow>
     bind (deref (prepareds w) p) (\<lambda>pr.
     bind (duckdb_ml_native_cleanup_begin (p_parent pr) runtime w) (\<lambda>w.
     bind (on_prepared p (\<lambda>pr. pr\<lparr>p_chunk_rows := 0\<rparr>) w) (\<lambda>w.
     bind (destroy_chunk C p w) (\<lambda>w.
     bind (free_vectors p w) (\<lambda>w.
     bind (destroy_result T p w) (\<lambda>w.
     duckdb_ml_native_cleanup_end (p_parent pr) runtime w)))))))"

definition destroy_prepared_handle :: "'e statement_api \<Rightarrow> nat \<Rightarrow> 'e world \<Rightarrow> 'e world run" where
  "destroy_prepared_handle T p w = bind (deref (prepareds w) p) (\<lambda>pr.
     case p_prepared pr of None \<Rightarrow> Inr w
     | Some h \<Rightarrow> bind (call (p_parent pr) Destroy_prepare (duckdb_destroy_prepare T h) w) (\<lambda>(h', w).
          bind (on_prepared p (\<lambda>pr. pr\<lparr>p_prepared := h'\<rparr>) w) (\<lambda>w. Inr (released w))))"

definition destroy_extracted_handle :: "'e statement_api \<Rightarrow> nat \<Rightarrow> 'e world \<Rightarrow> 'e world run" where
  "destroy_extracted_handle T p w = bind (deref (prepareds w) p) (\<lambda>pr.
     case p_extracted pr of None \<Rightarrow> Inr w
     | Some h \<Rightarrow> bind (call (p_parent pr) Destroy_extracted (duckdb_destroy_extracted T h) w) (\<lambda>(h', w).
          bind (on_prepared p (\<lambda>pr. pr\<lparr>p_extracted := h'\<rparr>) w) (\<lambda>w. Inr (released w))))"

definition clear_prepared :: "'e statement_api \<Rightarrow> 'e chunk_api \<Rightarrow> nat option \<Rightarrow> duckdb_ml_runtime \<Rightarrow> 'e world \<Rightarrow> 'e world run" where
  "clear_prepared T C owner runtime w = (case owner of None \<Rightarrow> Inr w | Some p \<Rightarrow>
     bind (deref (prepareds w) p) (\<lambda>pr.
     bind (duckdb_ml_native_cleanup_begin (p_parent pr) runtime w) (\<lambda>w.
     bind (clear_result T C owner runtime w) (\<lambda>w.
     bind (destroy_prepared_handle T p w) (\<lambda>w.
     bind (destroy_extracted_handle T p w) (\<lambda>w.
     bind (clear_prepared_input owner w) (\<lambda>w.
     duckdb_ml_native_cleanup_end (p_parent pr) runtime w)))))))"

definition delete_prepared :: "'e session_api \<Rightarrow> 'e statement_api \<Rightarrow> 'e chunk_api \<Rightarrow> nat option \<Rightarrow> 'e world \<Rightarrow> 'e world run" where
  "delete_prepared S T C owner w = (case owner of None \<Rightarrow> Inr w | Some p \<Rightarrow>
     bind (clear_prepared T C owner DUCKDB_ML_RUNTIME_HELD w) (\<lambda>w.
     bind (deref (prepareds w) p) (\<lambda>pr.
     bind (duckdb_ml_connection_unref S T (Some (p_parent pr)) w) (\<lambda>w.
     Inr (released (w\<lparr>prepareds := (prepareds w)(p := None)\<rparr>))))))"

definition finalize_prepared :: "'e session_api \<Rightarrow> 'e statement_api \<Rightarrow> 'e chunk_api \<Rightarrow> nat \<Rightarrow> 'e world \<Rightarrow> 'e world run" where
  "finalize_prepared S T C v w = (case Prepared w v of None \<Rightarrow> Inr w | Some p \<Rightarrow>
     bind (delete_prepared S T C (Some p) (count_fallback w)) (\<lambda>w.
     Inr (w\<lparr>Prepared := (Prepared w)(v := None)\<rparr>)))"

subsection \<open>Creation and preparation\<close>

definition prepared_owner0 :: prepared_owner where
  "prepared_owner0 = \<lparr>p_parent = 0, p_prepared = None, p_extracted = None, p_result = 0,
     p_chunk = None, p_input = None, p_has_result = False, p_status = DUCKDB_ML_STATUS_OK,
     p_message = [], p_vectors = None, p_vector_count = 0, p_chunk_rows = 0\<rparr>"

definition ml_duckdb_prepared_owner :: "nat \<Rightarrow> 'e world \<Rightarrow> (nat reply \<times> 'e world) run" where
  "ml_duckdb_prepared_owner connection w =
     (case fresh w of (v, w) \<Rightarrow>
      case malloc_fails w of (fails, w) \<Rightarrow>
      if fails then Inr (Out_of_memory, w)
      else case fresh w of (p, w) \<Rightarrow>
        bind (duckdb_ml_connection_ref connection w) (\<lambda>(a, w).
        Inr (Returned v, acquired (w\<lparr>
          prepareds := (prepareds w)(p \<mapsto> prepared_owner0\<lparr>p_parent := a\<rparr>),
          Prepared := (Prepared w)(v \<mapsto> p)\<rparr>))))"

text \<open>The statement is prepared from the single extracted one; its type must be allowed.\<close>

definition prepare_extracted :: "'e statement_api \<Rightarrow> nat \<Rightarrow> nat \<Rightarrow> nat option \<Rightarrow> 'e world \<Rightarrow> 'e world run" where
  "prepare_extracted T a p connection w =
     bind (deref (prepareds w) p) (\<lambda>pr.
     bind (call a Prepare (duckdb_prepare_extracted_statement T connection (p_extracted pr) 0) w) (\<lambda>((state, h), w).
     bind (on_prepared p (\<lambda>pr. pr\<lparr>p_prepared := h\<rparr>) w) (\<lambda>w.
     bind (duckdb_ml_native_user_call_end a w) (\<lambda>w.
     let w = (if h \<noteq> None then acquired w else w) in
     if state \<noteq> DuckDBSuccess
     then set_error p (if h \<noteq> None then duckdb_prepare_error T h (w_engine w) else None) w
     else if \<not> duckdb_ml_allowed_statement (duckdb_prepared_statement_type T h (w_engine w))
     then set_prepared_status p DUCKDB_ML_STATUS_UNSUPPORTED w
     else Inr w))))"

definition extract_and_prepare :: "'e statement_api \<Rightarrow> nat \<Rightarrow> nat \<Rightarrow> nat option \<Rightarrow> 'e world \<Rightarrow> 'e world run" where
  "extract_and_prepare T a p connection w =
     bind (deref (prepareds w) p) (\<lambda>pr.
     bind (not_null (p_input pr)) (\<lambda>input.
     bind (call a (Extract (c_string input)) (duckdb_extract_statements T connection (c_string input)) w)
       (\<lambda>((count, h), w).
     bind (on_prepared p (\<lambda>pr. pr\<lparr>p_extracted := h\<rparr>) w) (\<lambda>w.
     bind (duckdb_ml_native_user_call_end a w) (\<lambda>w.
     let w = (if h \<noteq> None then acquired w else w);
         error = (case h of Some x \<Rightarrow> duckdb_extract_statements_error T x (w_engine w)
                  | None \<Rightarrow> Some ''No extracted statements'') in
     if nonempty error then set_error p error w
     else if count \<noteq> 1 then set_prepared_status p DUCKDB_ML_STATUS_UNSUPPORTED w
     else bind (duckdb_ml_native_user_call_begin a w) (\<lambda>(admission, w).
       if admission = DUCKDB_ML_CALL_CANCELLED
       then set_prepared_status p DUCKDB_ML_STATUS_CANCELLED w
       else prepare_extracted T a p connection w))))))"

definition prepare_body :: "'e statement_api \<Rightarrow> nat \<Rightarrow> nat \<Rightarrow> nat option \<Rightarrow> 'e world \<Rightarrow> (unit \<times> 'e world) run" where
  "prepare_body T a p connection w =
     bind (duckdb_ml_native_work_begin a w) (\<lambda>w.
     bind (set_prepared_status p DUCKDB_ML_STATUS_OK w) (\<lambda>w.
     bind (duckdb_ml_native_user_call_begin a w) (\<lambda>(admission, w).
     bind (if admission = DUCKDB_ML_CALL_CANCELLED
           then set_prepared_status p DUCKDB_ML_STATUS_CANCELLED w
           else extract_and_prepare T a p connection w) (\<lambda>w.
     bind (duckdb_ml_native_cleanup_begin a DUCKDB_ML_RUNTIME_RELEASED w) (\<lambda>w.
     bind (destroy_extracted_handle T p w) (\<lambda>w.
     bind (clear_prepared_input (Some p) w) (\<lambda>w.
     bind (duckdb_ml_native_cleanup_end a DUCKDB_ML_RUNTIME_RELEASED w) (\<lambda>w.
     bind (duckdb_ml_native_work_end a w) (\<lambda>w.
     Inr ((), w))))))))))"

definition ml_duckdb_prepare :: "'e statement_api \<Rightarrow> nat \<Rightarrow> string \<Rightarrow> 'e world \<Rightarrow> (unit reply \<times> 'e world) run" where
  "ml_duckdb_prepare T v sql w =
     bind (deref (Prepared w) v) (\<lambda>p.
     case malloc_fails w of (fails, w) \<Rightarrow>
     if fails then bind (on_prepared p (\<lambda>pr. pr\<lparr>p_input := None\<rparr>) w) (\<lambda>w. Inr (Out_of_memory, w))
     else bind (on_prepared p (\<lambda>pr. pr\<lparr>p_input := Some sql\<rparr>) w) (\<lambda>w.
          bind (deref (prepareds w) p) (\<lambda>pr.
          bind (duckdb_ml_connection_handle (p_parent pr) w) (\<lambda>connection.
          blocking (prepare_body T (p_parent pr) p connection) (acquired w)))))"

subsection \<open>Execution\<close>

definition run_prepared :: "'e statement_api \<Rightarrow> nat \<Rightarrow> nat \<Rightarrow> 'e world \<Rightarrow> 'e world run" where
  "run_prepared T a p w =
     bind (on_prepared p (\<lambda>pr. pr\<lparr>p_has_result := True\<rparr>) w) (\<lambda>w.
     bind (deref (prepareds w) p) (\<lambda>pr.
     bind (duckdb_ml_schema_enter T a (p_prepared pr) (acquired w)) (\<lambda>(changing, w).
     bind (call a (Execute (duckdb_prepared_statement_type T (p_prepared pr) (w_engine w)))
             (duckdb_execute_prepared T (p_prepared pr)) w) (\<lambda>((state, r), w).
     bind (on_prepared p (\<lambda>pr. pr\<lparr>p_result := r\<rparr>) w) (\<lambda>w.
     bind (duckdb_ml_native_user_call_end a (duckdb_ml_schema_leave changing w)) (\<lambda>w.
     if state \<noteq> DuckDBSuccess then set_error p (duckdb_result_error T r (w_engine w)) w
     else Inr w))))))"

definition ml_duckdb_execute_prepared :: "'e statement_api \<Rightarrow> nat \<Rightarrow> 'e world \<Rightarrow> (unit reply \<times> 'e world) run" where
  "ml_duckdb_execute_prepared T v w =
     bind (deref (Prepared w) v) (\<lambda>p.
     bind (deref (prepareds w) p) (\<lambda>pr. let a = p_parent pr in
     blocking (\<lambda>w.
       bind (duckdb_ml_native_work_begin a w) (\<lambda>w.
       bind (set_prepared_status p DUCKDB_ML_STATUS_OK w) (\<lambda>w.
       bind (duckdb_ml_native_user_call_begin a w) (\<lambda>(admission, w).
       bind (if admission = DUCKDB_ML_CALL_CANCELLED
             then set_prepared_status p DUCKDB_ML_STATUS_CANCELLED w
             else run_prepared T a p w) (\<lambda>w.
       bind (duckdb_ml_native_work_end a w) (\<lambda>w.
       Inr ((), w))))))) w))"

subsection \<open>Fetching and the vector cache\<close>

definition fresh_vectors :: "'e chunk_api \<Rightarrow> nat \<Rightarrow> nat \<Rightarrow> 'e \<Rightarrow> duckdb_ml_vector list" where
  "fresh_vectors C n r e = map (\<lambda>c. let t = duckdb_column_type C r c e in
     \<lparr>v_data = 0, v_validity = None, v_type = t, v_width = duckdb_ml_type_width t\<rparr>) [0..<n]"

definition refresh_vector :: "'e chunk_api \<Rightarrow> nat option \<Rightarrow> 'e \<Rightarrow> nat \<Rightarrow> duckdb_ml_vector \<Rightarrow> duckdb_ml_vector" where
  "refresh_vector C chunk e c x = (let vector = duckdb_data_chunk_get_vector C chunk c e in
     x\<lparr>v_data := duckdb_vector_get_data C vector e, v_validity := duckdb_vector_get_validity C vector e\<rparr>)"

definition refresh_vectors :: "'e chunk_api \<Rightarrow> nat option \<Rightarrow> 'e \<Rightarrow> nat \<Rightarrow> duckdb_ml_vector list \<Rightarrow> duckdb_ml_vector list" where
  "refresh_vectors C chunk e n vs =
     map (\<lambda>(c, x). if c < n then refresh_vector C chunk e c x else x) (enumerate 0 vs)"

definition cache_vectors :: "'e chunk_api \<Rightarrow> nat \<Rightarrow> 'e world \<Rightarrow> 'e world run" where
  "cache_vectors C p w = bind (deref (prepareds w) p) (\<lambda>pr.
     let n = duckdb_data_chunk_get_column_count C (p_chunk pr) (w_engine w) in
     bind (if p_vectors pr = None \<and> n \<noteq> 0
           then (case malloc_fails w of (fails, w) \<Rightarrow>
             if fails then bind (set_error p (Some ''Cannot allocate the vector cache'') w) (\<lambda>w. Inr (False, w))
             else bind (on_prepared p (\<lambda>pr. pr\<lparr>p_vectors := Some (fresh_vectors C n (p_result pr) (w_engine w)),
                                             p_vector_count := n\<rparr>) (acquired w)) (\<lambda>w. Inr (True, w)))
           else Inr (True, w)) (\<lambda>(go_on, w).
     if \<not> go_on then Inr w
     else on_prepared p (\<lambda>pr. case p_vectors pr of
            None \<Rightarrow> pr
          | Some vs \<Rightarrow> pr\<lparr>p_vectors := Some (refresh_vectors C (p_chunk pr) (w_engine w) n vs),
              p_chunk_rows := duckdb_data_chunk_get_size C (p_chunk pr) (w_engine w)\<rparr>) w))"

definition fetch_next :: "'e statement_api \<Rightarrow> 'e chunk_api \<Rightarrow> nat \<Rightarrow> nat \<Rightarrow> 'e world \<Rightarrow> 'e world run" where
  "fetch_next T C a p w =
     bind (deref (prepareds w) p) (\<lambda>pr.
     bind (call a Fetch (duckdb_fetch_chunk C (p_result pr)) w) (\<lambda>(chunk, w).
     bind (on_prepared p (\<lambda>pr. pr\<lparr>p_chunk := chunk\<rparr>) w) (\<lambda>w.
     bind (duckdb_ml_native_user_call_end a w) (\<lambda>w.
     if chunk \<noteq> None then cache_vectors C p (acquired w)
     else let error = duckdb_result_error T (p_result pr) (w_engine w) in
          if nonempty error then set_error p error w else Inr w))))"

definition fetch_body :: "'e statement_api \<Rightarrow> 'e chunk_api \<Rightarrow> nat \<Rightarrow> nat \<Rightarrow> 'e world \<Rightarrow> (int \<times> 'e world) run" where
  "fetch_body T C a p w =
     bind (duckdb_ml_native_work_begin a w) (\<lambda>w.
     bind (duckdb_ml_native_cleanup_begin a DUCKDB_ML_RUNTIME_RELEASED w) (\<lambda>w.
     bind (on_prepared p (\<lambda>pr. pr\<lparr>p_chunk_rows := 0\<rparr>) w) (\<lambda>w.
     bind (destroy_chunk C p w) (\<lambda>w.
     bind (duckdb_ml_native_cleanup_end a DUCKDB_ML_RUNTIME_RELEASED w) (\<lambda>w.
     bind (set_prepared_status p DUCKDB_ML_STATUS_OK w) (\<lambda>w.
     bind (duckdb_ml_native_user_call_begin a w) (\<lambda>(admission, w).
     bind (if admission = DUCKDB_ML_CALL_CANCELLED
           then set_prepared_status p DUCKDB_ML_STATUS_CANCELLED w
           else fetch_next T C a p w) (\<lambda>w.
     bind (duckdb_ml_native_work_end a w) (\<lambda>w.
     bind (deref (prepareds w) p) (\<lambda>pr.
     Inr (if p_status pr \<noteq> DUCKDB_ML_STATUS_OK then -1 else if p_chunk pr \<noteq> None then 1 else 0, w)))))))))))"

definition ml_duckdb_fetch :: "'e statement_api \<Rightarrow> 'e chunk_api \<Rightarrow> nat \<Rightarrow> 'e world \<Rightarrow> (int reply \<times> 'e world) run" where
  "ml_duckdb_fetch T C v w =
     bind (deref (Prepared w) v) (\<lambda>p.
     bind (deref (prepareds w) p) (\<lambda>pr.
     blocking (fetch_body T C (p_parent pr) p) w))"

subsection \<open>Closing\<close>

definition ml_duckdb_close_result :: "'e statement_api \<Rightarrow> 'e chunk_api \<Rightarrow> nat \<Rightarrow> 'e world \<Rightarrow> (unit reply \<times> 'e world) run" where
  "ml_duckdb_close_result T C v w =
     blocking (\<lambda>w1. bind (clear_result T C (Prepared w v) DUCKDB_ML_RUNTIME_RELEASED w1) (\<lambda>w. Inr ((), w))) w"

definition ml_duckdb_finish_result_close :: "'e statement_api \<Rightarrow> 'e chunk_api \<Rightarrow> nat \<Rightarrow> 'e world \<Rightarrow> 'e world run" where
  "ml_duckdb_finish_result_close T C v w = clear_result T C (Prepared w v) DUCKDB_ML_RUNTIME_HELD w"

definition ml_duckdb_close_prepared :: "'e statement_api \<Rightarrow> 'e chunk_api \<Rightarrow> nat \<Rightarrow> 'e world \<Rightarrow> (unit reply \<times> 'e world) run" where
  "ml_duckdb_close_prepared T C v w =
     blocking (\<lambda>w1. bind (clear_prepared T C (Prepared w v) DUCKDB_ML_RUNTIME_RELEASED w1) (\<lambda>w. Inr ((), w))) w"

definition ml_duckdb_finish_prepared_close :: "'e session_api \<Rightarrow> 'e statement_api \<Rightarrow> 'e chunk_api \<Rightarrow> nat \<Rightarrow> 'e world \<Rightarrow> 'e world run" where
  "ml_duckdb_finish_prepared_close S T C v w =
     bind (delete_prepared S T C (Prepared w v) w) (\<lambda>w.
     Inr (w\<lparr>Prepared := (Prepared w)(v := None)\<rparr>))"

definition ml_duckdb_clear_prepared_input :: "nat \<Rightarrow> 'e world \<Rightarrow> 'e world run" where
  "ml_duckdb_clear_prepared_input v w = clear_prepared_input (Prepared w v) w"

subsection \<open>Metadata\<close>

definition prepared_at :: "nat \<Rightarrow> 'e world \<Rightarrow> prepared_owner run" where
  "prepared_at v w = bind (deref (Prepared w) v) (\<lambda>p. deref (prepareds w) p)"

definition ml_duckdb_prepared_status :: "nat \<Rightarrow> 'e world \<Rightarrow> int run" where
  "ml_duckdb_prepared_status v w = bind (prepared_at v w) (\<lambda>pr. Inr (status_code (p_status pr)))"

definition ml_duckdb_prepared_message :: "nat \<Rightarrow> 'e world \<Rightarrow> string run" where
  "ml_duckdb_prepared_message v w = bind (prepared_at v w) (\<lambda>pr. Inr (p_message pr))"

definition ml_duckdb_parameter_count :: "'e chunk_api \<Rightarrow> nat \<Rightarrow> 'e world \<Rightarrow> nat run" where
  "ml_duckdb_parameter_count C v w = bind (prepared_at v w) (\<lambda>pr.
     Inr (duckdb_nparams C (p_prepared pr) (w_engine w)))"

definition ml_duckdb_parameter_type :: "'e chunk_api \<Rightarrow> nat \<Rightarrow> int \<Rightarrow> 'e world \<Rightarrow> duckdb_type run" where
  "ml_duckdb_parameter_type C v index w = bind (prepared_at v w) (\<lambda>pr.
     Inr (duckdb_param_type C (p_prepared pr) index (w_engine w)))"

definition ml_duckdb_column_count :: "'e chunk_api \<Rightarrow> nat \<Rightarrow> 'e world \<Rightarrow> nat run" where
  "ml_duckdb_column_count C v w = bind (prepared_at v w) (\<lambda>pr.
     Inr (duckdb_column_count C (p_result pr) (w_engine w)))"

definition ml_duckdb_column_type :: "'e chunk_api \<Rightarrow> nat \<Rightarrow> nat \<Rightarrow> 'e world \<Rightarrow> duckdb_type run" where
  "ml_duckdb_column_type C v index w = bind (prepared_at v w) (\<lambda>pr.
     Inr (duckdb_column_type C (p_result pr) index (w_engine w)))"

definition ml_duckdb_chunk_length :: "'e chunk_api \<Rightarrow> nat \<Rightarrow> 'e world \<Rightarrow> nat run" where
  "ml_duckdb_chunk_length C v w = bind (prepared_at v w) (\<lambda>pr.
     Inr (duckdb_data_chunk_get_size C (p_chunk pr) (w_engine w)))"

definition ml_duckdb_prepared_changes_schema :: "'e statement_api \<Rightarrow> nat \<Rightarrow> 'e world \<Rightarrow> bool run" where
  "ml_duckdb_prepared_changes_schema T v w = bind (prepared_at v w) (\<lambda>pr.
     Inr (duckdb_ml_changes_schema T (p_prepared pr) w))"

definition ml_duckdb_prepared_kind :: "'e statement_api \<Rightarrow> nat \<Rightarrow> 'e world \<Rightarrow> duckdb_statement_type run" where
  "ml_duckdb_prepared_kind T v w = bind (prepared_at v w) (\<lambda>pr.
     Inr (duckdb_prepared_statement_type T (p_prepared pr) (w_engine w)))"

definition ml_duckdb_prepared_column_types :: "'e chunk_api \<Rightarrow> nat \<Rightarrow> 'e world \<Rightarrow> duckdb_type list run" where
  "ml_duckdb_prepared_column_types C v w = bind (prepared_at v w) (\<lambda>pr.
     Inr (map (\<lambda>i. duckdb_prepared_statement_column_type C (p_prepared pr) i (w_engine w))
           [0..<duckdb_prepared_statement_column_count C (p_prepared pr) (w_engine w)]))"

end
