(* ===== verification/Views.thy ===== *)
theory Views
  imports Prepared_Statements
begin

text \<open>
  Reads through the per-chunk vector cache (\<open>view_stubs.c\<close>). The stubs are memory-safe even
  when called with a wrong column, row or width: they refuse. \<open>read_T\<close> and \<open>read_T_or\<close> are
  the \<open>READS\<close> macro, at the word type of the C element type; floating-point elements are
  their bit patterns.
\<close>

subsection \<open>Access to the cache\<close>

definition view_owner :: "nat \<Rightarrow> 'e world \<Rightarrow> prepared_owner option run" where
  "view_owner v w = (case Prepared w v of None \<Rightarrow> Inr None
     | Some p \<Rightarrow> bind (deref (prepareds w) p) (\<lambda>pr. Inr (Some pr)))"

definition cached :: "nat \<Rightarrow> int \<Rightarrow> 'e world \<Rightarrow> (duckdb_ml_vector \<times> nat) option run" where
  "cached v c w = bind (view_owner v w) (\<lambda>owner. case owner of
       Some pr \<Rightarrow> if p_chunk pr \<noteq> None \<and> 0 \<le> c \<and> nat c < p_vector_count pr
         then bind (not_null (p_vectors pr)) (\<lambda>vs. bind (at_index vs (nat c)) (\<lambda>x.
              Inr (Some (x, p_chunk_rows pr))))
         else Inr None
     | None \<Rightarrow> Inr None)"

text \<open>The \<open>k\<close>-th 64-bit word of a validity mask.\<close>

definition mask_word :: "'e chunk_api \<Rightarrow> nat \<Rightarrow> 'e world \<Rightarrow> nat \<Rightarrow> 64 word run" where
  "mask_word C base w k = bind (load (mapped C (w_engine w)) (base + 8 * k) 8) (\<lambda>bs. Inr (le_word bs))"

definition valid_row :: "'e chunk_api \<Rightarrow> duckdb_ml_vector \<Rightarrow> nat \<Rightarrow> 'e world \<Rightarrow> bool run" where
  "valid_row C x i w = (case v_validity x of None \<Rightarrow> Inr True
     | Some base \<Rightarrow> bind (mask_word C base w (i div 64)) (\<lambda>bits.
         Inr (drop_bit (i mod 64) bits AND 1 \<noteq> 0)))"

definition readable :: "nat \<Rightarrow> int \<Rightarrow> int \<Rightarrow> nat \<Rightarrow> 'e world \<Rightarrow> duckdb_ml_vector option run" where
  "readable v c i width w = bind (cached v c w) (\<lambda>hit. case hit of
       Some (x, rows) \<Rightarrow> Inr (if 0 \<le> i \<and> nat i < rows \<and> v_width x = width then Some x else None)
     | None \<Rightarrow> Inr None)"

definition element :: "'e chunk_api \<Rightarrow> duckdb_ml_vector \<Rightarrow> nat \<Rightarrow> 'e world \<Rightarrow> 'a::len word run" where
  "element C x i w = bind (load (mapped C (w_engine w)) (v_data x + i * (LENGTH('a) div 8)) (LENGTH('a) div 8))
     (\<lambda>bs. Inr (le_word bs))"

definition read_T :: "'e chunk_api \<Rightarrow> nat \<Rightarrow> int \<Rightarrow> int \<Rightarrow> 'e world \<Rightarrow> 'a::len word run" where
  "read_T C v c i w = bind (readable v c i (LENGTH('a) div 8) w) (\<lambda>r. case r of
       Some x \<Rightarrow> element C x (nat i) w | None \<Rightarrow> Inr 0)"

definition read_T_or :: "'e chunk_api \<Rightarrow> nat \<Rightarrow> int \<Rightarrow> int \<Rightarrow> 'a word \<Rightarrow> 'e world \<Rightarrow> 'a::len word run" where
  "read_T_or C v c i d w = bind (readable v c i (LENGTH('a) div 8) w) (\<lambda>r. case r of
       Some x \<Rightarrow> bind (valid_row C x (nat i) w) (\<lambda>ok. if ok then element C x (nat i) w else Inr d)
     | None \<Rightarrow> Inr d)"

subsection \<open>Scalar reads\<close>

definition ml_duckdb_view_int64 :: "'e chunk_api \<Rightarrow> nat \<Rightarrow> int \<Rightarrow> int \<Rightarrow> 'e world \<Rightarrow> 64 word run" where
  "ml_duckdb_view_int64 C v c i w = read_T C v c i w"

definition ml_duckdb_view_int32 :: "'e chunk_api \<Rightarrow> nat \<Rightarrow> int \<Rightarrow> int \<Rightarrow> 'e world \<Rightarrow> 32 word run" where
  "ml_duckdb_view_int32 C v c i w = read_T C v c i w"

definition ml_duckdb_view_double :: "'e chunk_api \<Rightarrow> nat \<Rightarrow> int \<Rightarrow> int \<Rightarrow> 'e world \<Rightarrow> 64 word run" where
  "ml_duckdb_view_double C v c i w = read_T C v c i w"

definition ml_duckdb_view_float :: "'e chunk_api \<Rightarrow> nat \<Rightarrow> int \<Rightarrow> int \<Rightarrow> 'e world \<Rightarrow> 32 word run" where
  "ml_duckdb_view_float C v c i w = read_T C v c i w"

definition ml_duckdb_view_int16 :: "'e chunk_api \<Rightarrow> nat \<Rightarrow> int \<Rightarrow> int \<Rightarrow> 'e world \<Rightarrow> int run" where
  "ml_duckdb_view_int16 C v c i w = bind (read_T C v c i w) (\<lambda>x :: 16 word. Inr (sint x))"

definition ml_duckdb_view_int8 :: "'e chunk_api \<Rightarrow> nat \<Rightarrow> int \<Rightarrow> int \<Rightarrow> 'e world \<Rightarrow> int run" where
  "ml_duckdb_view_int8 C v c i w = bind (read_T C v c i w) (\<lambda>x :: 8 word. Inr (sint x))"

definition ml_duckdb_view_bool :: "'e chunk_api \<Rightarrow> nat \<Rightarrow> int \<Rightarrow> int \<Rightarrow> 'e world \<Rightarrow> bool run" where
  "ml_duckdb_view_bool C v c i w = bind (read_T C v c i w) (\<lambda>x :: 8 word. Inr (x \<noteq> 0))"

definition ml_duckdb_view_valid :: "'e chunk_api \<Rightarrow> nat \<Rightarrow> int \<Rightarrow> int \<Rightarrow> 'e world \<Rightarrow> bool run" where
  "ml_duckdb_view_valid C v c i w = bind (cached v c w) (\<lambda>hit. case hit of
       Some (x, rows) \<Rightarrow> if 0 \<le> i \<and> nat i < rows then valid_row C x (nat i) w else Inr False
     | None \<Rightarrow> Inr False)"

definition ml_duckdb_view_int64_or :: "'e chunk_api \<Rightarrow> nat \<Rightarrow> int \<Rightarrow> int \<Rightarrow> 64 word \<Rightarrow> 'e world \<Rightarrow> 64 word run" where
  "ml_duckdb_view_int64_or C v c i d w = read_T_or C v c i d w"

definition ml_duckdb_view_int32_or :: "'e chunk_api \<Rightarrow> nat \<Rightarrow> int \<Rightarrow> int \<Rightarrow> 32 word \<Rightarrow> 'e world \<Rightarrow> 32 word run" where
  "ml_duckdb_view_int32_or C v c i d w = read_T_or C v c i d w"

definition ml_duckdb_view_double_or :: "'e chunk_api \<Rightarrow> nat \<Rightarrow> int \<Rightarrow> int \<Rightarrow> 64 word \<Rightarrow> 'e world \<Rightarrow> 64 word run" where
  "ml_duckdb_view_double_or C v c i d w = read_T_or C v c i d w"

definition ml_duckdb_view_float_or :: "'e chunk_api \<Rightarrow> nat \<Rightarrow> int \<Rightarrow> int \<Rightarrow> 32 word \<Rightarrow> 'e world \<Rightarrow> 32 word run" where
  "ml_duckdb_view_float_or C v c i d w = read_T_or C v c i d w"

definition ml_duckdb_view_int16_or :: "'e chunk_api \<Rightarrow> nat \<Rightarrow> int \<Rightarrow> int \<Rightarrow> int \<Rightarrow> 'e world \<Rightarrow> int run" where
  "ml_duckdb_view_int16_or C v c i d w =
     bind (read_T_or C v c i (word_of_int d) w) (\<lambda>x :: 16 word. Inr (sint x))"

definition ml_duckdb_view_int8_or :: "'e chunk_api \<Rightarrow> nat \<Rightarrow> int \<Rightarrow> int \<Rightarrow> int \<Rightarrow> 'e world \<Rightarrow> int run" where
  "ml_duckdb_view_int8_or C v c i d w =
     bind (read_T_or C v c i (word_of_int d) w) (\<lambda>x :: 8 word. Inr (sint x))"

definition ml_duckdb_view_bool_or :: "'e chunk_api \<Rightarrow> nat \<Rightarrow> int \<Rightarrow> int \<Rightarrow> bool \<Rightarrow> 'e world \<Rightarrow> bool run" where
  "ml_duckdb_view_bool_or C v c i d w =
     bind (read_T_or C v c i (if d then 1 else 0) w) (\<lambda>x :: 8 word. Inr (x \<noteq> 0))"

subsection \<open>Scans of the mask\<close>

text \<open>\<open>__builtin_popcountll\<close> and \<open>__builtin_ctzll\<close> (the latter on a non-zero word).\<close>

definition popcountll :: "64 word \<Rightarrow> nat" where
  "popcountll x = length (filter (bit x) [0..<64])"

definition ctzll :: "64 word \<Rightarrow> nat" where
  "ctzll x = hd (filter (bit x) [0..<64])"

definition wanted_bits :: "nat \<Rightarrow> 64 word" where
  "wanted_bits rest = (let in_word = (if rest < 64 then rest else 64) in
     if in_word = 64 then - 1 else push_bit in_word 1 - 1)"

definition clamp_rows :: "int \<Rightarrow> nat \<Rightarrow> nat" where
  "clamp_rows n rows = nat (if n > int rows then int rows else n)"

function null_count_loop :: "(nat \<Rightarrow> 64 word run) \<Rightarrow> nat \<Rightarrow> nat \<Rightarrow> nat \<Rightarrow> nat run" where
  "null_count_loop validity n k count =
     (if k * 64 < n
      then bind (validity k) (\<lambda>bits. null_count_loop validity n (Suc k)
             (count + popcountll (NOT bits AND wanted_bits (n - k * 64))))
      else Inr count)"
  by pat_completeness auto
termination
  by (relation "measure (\<lambda>(validity, n, k, count). n - k)") auto

declare null_count_loop.simps [simp del]

function first_null_loop :: "(nat \<Rightarrow> 64 word run) \<Rightarrow> nat \<Rightarrow> nat \<Rightarrow> int run" where
  "first_null_loop validity n k =
     (if k * 64 < n
      then bind (validity k) (\<lambda>bits.
             let missing = NOT bits AND wanted_bits (n - k * 64) in
             if missing \<noteq> 0 then Inr (int (k * 64 + ctzll missing))
             else first_null_loop validity n (Suc k))
      else Inr (- 1))"
  by pat_completeness auto
termination
  by (relation "measure (\<lambda>(validity, n, k). n - k)") auto

declare first_null_loop.simps [simp del]

definition ml_duckdb_view_null_count :: "'e chunk_api \<Rightarrow> nat \<Rightarrow> int \<Rightarrow> int \<Rightarrow> 'e world \<Rightarrow> nat run" where
  "ml_duckdb_view_null_count C v c n w = bind (cached v c w) (\<lambda>hit. case hit of
       None \<Rightarrow> Inr 0
     | Some (x, rows) \<Rightarrow> (case v_validity x of None \<Rightarrow> Inr 0
         | Some base \<Rightarrow> null_count_loop (mask_word C base w) (clamp_rows n rows) 0 0))"

definition ml_duckdb_view_first_null :: "'e chunk_api \<Rightarrow> nat \<Rightarrow> int \<Rightarrow> int \<Rightarrow> 'e world \<Rightarrow> int run" where
  "ml_duckdb_view_first_null C v c n w = bind (cached v c w) (\<lambda>hit. case hit of
       None \<Rightarrow> Inr (- 1)
     | Some (x, rows) \<Rightarrow> (case v_validity x of None \<Rightarrow> Inr (- 1)
         | Some base \<Rightarrow> first_null_loop (mask_word C base w) (clamp_rows n rows) 0))"

subsection \<open>Blits\<close>

datatype caml_ba_kind =
    CAML_BA_FLOAT32 | CAML_BA_FLOAT64 | CAML_BA_SINT8 | CAML_BA_UINT8 | CAML_BA_SINT16
  | CAML_BA_INT32 | CAML_BA_INT64 | CAML_BA_OTHER nat  \<comment> \<open>with its element size\<close>

fun caml_ba_element_size :: "caml_ba_kind \<Rightarrow> nat" where
  "caml_ba_element_size CAML_BA_FLOAT32 = 4"
| "caml_ba_element_size CAML_BA_FLOAT64 = 8"
| "caml_ba_element_size CAML_BA_SINT8 = 1"
| "caml_ba_element_size CAML_BA_UINT8 = 1"
| "caml_ba_element_size CAML_BA_SINT16 = 2"
| "caml_ba_element_size CAML_BA_INT32 = 4"
| "caml_ba_element_size CAML_BA_INT64 = 8"
| "caml_ba_element_size (CAML_BA_OTHER n) = n"

record caml_ba_array =
  ba_bytes :: "8 word list"
  ba_dim :: "nat list"
  ba_kind :: caml_ba_kind

definition caml_ba_num_elts :: "caml_ba_array \<Rightarrow> nat" where
  "caml_ba_num_elts b = prod_list (ba_dim b)"

definition caml_ba_byte_size :: "caml_ba_array \<Rightarrow> nat" where
  "caml_ba_byte_size b = caml_ba_num_elts b * caml_ba_element_size (ba_kind b)"

definition element_size :: "caml_ba_array \<Rightarrow> nat" where
  "element_size b = (let n = caml_ba_num_elts b in if n \<noteq> 0 then caml_ba_byte_size b div n else 0)"

primrec zero_invalid :: "(nat \<Rightarrow> bool run) \<Rightarrow> nat \<Rightarrow> nat \<Rightarrow> nat list \<Rightarrow> 8 word list \<Rightarrow> 8 word list run" where
  "zero_invalid valid out width [] bytes = Inr bytes"
| "zero_invalid valid out width (i # is) bytes =
     bind (valid i) (\<lambda>ok.
     bind (if ok then Inr bytes else overwrite (out + i * width) (replicate width 0) bytes) (\<lambda>bytes.
     zero_invalid valid out width is bytes))"

definition ml_duckdb_view_blit :: "'e chunk_api \<Rightarrow> nat \<Rightarrow> int \<Rightarrow> int \<Rightarrow> caml_ba_array \<Rightarrow> int \<Rightarrow> 'e world
    \<Rightarrow> caml_ba_array run" where
  "ml_duckdb_view_blit C v c n b at' w = bind (cached v c w) (\<lambda>hit.
     let rows = (case hit of None \<Rightarrow> 0 | Some (x, rows) \<Rightarrow> rows) in
     if n > int rows then Inr b
     else case hit of None \<Rightarrow> Inr b
     | Some (x, rows) \<Rightarrow>
       if v_width x = 0 \<or> v_width x \<noteq> element_size b then Inr b
       else bind (at_index (ba_dim b) 0) (\<lambda>dim0.
       if n < 0 \<or> at' < 0 \<or> at' > int dim0 - n then Inr b
       else bind (load (mapped C (w_engine w)) (v_data x) (nat n * v_width x)) (\<lambda>src.
       bind (overwrite (nat at' * v_width x) src (ba_bytes b)) (\<lambda>bytes.
       bind (if v_validity x \<noteq> None
             then zero_invalid (\<lambda>i. valid_row C x i w) (nat at' * v_width x) (v_width x) [0..<nat n] bytes
             else Inr bytes) (\<lambda>bytes.
       Inr (b\<lparr>ba_bytes := bytes\<rparr>))))))"

primrec valid_bytes :: "(nat \<Rightarrow> bool run) \<Rightarrow> nat list \<Rightarrow> 8 word list run" where
  "valid_bytes valid [] = Inr []"
| "valid_bytes valid (i # is) =
     bind (valid i) (\<lambda>ok. bind (valid_bytes valid is) (\<lambda>bs. Inr ((if ok then 1 else 0) # bs)))"

definition ml_duckdb_view_blit_validity :: "'e chunk_api \<Rightarrow> nat \<Rightarrow> int \<Rightarrow> int \<Rightarrow> caml_ba_array \<Rightarrow> int \<Rightarrow> 'e world
    \<Rightarrow> caml_ba_array run" where
  "ml_duckdb_view_blit_validity C v c n b at' w = bind (cached v c w) (\<lambda>hit. case hit of
       None \<Rightarrow> Inr b
     | Some (x, rows) \<Rightarrow>
       if n > int rows \<or> ba_kind b \<noteq> CAML_BA_UINT8 then Inr b
       else bind (at_index (ba_dim b) 0) (\<lambda>dim0.
       if n < 0 \<or> at' < 0 \<or> at' > int dim0 - n then Inr b
       else bind (valid_bytes (\<lambda>i. valid_row C x i w) [0..<nat n]) (\<lambda>bs.
       bind (overwrite (nat at') bs (ba_bytes b)) (\<lambda>bytes.
       Inr (b\<lparr>ba_bytes := bytes\<rparr>)))))"

end
