(* ===== verification/Appenders.thy ===== *)
theory Appenders
  imports Views
begin

text \<open>
  Bulk appenders (\<open>appender_stubs.c\<close>): creation against the catalog's metadata, staging of
  rows into reusable data chunks, appending the staged chunks, flushing, closing, and the
  restriction to some columns. Staging writes the engine's vectors through raw addresses:
  \<open>poke\<close> writes mapped bytes only. Doubles and floats are their bit patterns; their
  narrowing is the processor's, a parameter.
\<close>

record 'e appender_api =
  duckdb_appender_create_ext ::
    "nat option \<Rightarrow> string \<Rightarrow> string \<Rightarrow> string \<Rightarrow> 'e \<Rightarrow> (duckdb_state \<times> nat option) \<times> 'e"
  duckdb_appender_error_data :: "nat option \<Rightarrow> 'e \<Rightarrow> nat option \<times> 'e"
  duckdb_error_data_message :: "nat \<Rightarrow> 'e \<Rightarrow> string option"
  duckdb_destroy_error_data :: "nat \<Rightarrow> 'e \<Rightarrow> unit \<times> 'e"
  duckdb_appender_close :: "nat option \<Rightarrow> 'e \<Rightarrow> duckdb_state \<times> 'e"
  duckdb_appender_flush :: "nat option \<Rightarrow> 'e \<Rightarrow> duckdb_state \<times> 'e"
  duckdb_appender_clear :: "nat option \<Rightarrow> 'e \<Rightarrow> duckdb_state \<times> 'e"
  duckdb_appender_destroy :: "nat option \<Rightarrow> 'e \<Rightarrow> nat option \<times> 'e"
  duckdb_appender_column_count :: "nat option \<Rightarrow> 'e \<Rightarrow> nat"
  duckdb_appender_column_type :: "nat option \<Rightarrow> nat \<Rightarrow> 'e \<Rightarrow> nat \<times> 'e"
  duckdb_get_type_id :: "nat \<Rightarrow> 'e \<Rightarrow> duckdb_type"
  duckdb_destroy_logical_type :: "nat \<Rightarrow> 'e \<Rightarrow> unit \<times> 'e"
  duckdb_appender_add_column :: "nat option \<Rightarrow> string \<Rightarrow> 'e \<Rightarrow> duckdb_state \<times> 'e"
  duckdb_append_data_chunk :: "nat option \<Rightarrow> nat \<Rightarrow> 'e \<Rightarrow> duckdb_state \<times> 'e"
  duckdb_create_data_chunk :: "nat list option \<Rightarrow> nat \<Rightarrow> 'e \<Rightarrow> nat option \<times> 'e"
  duckdb_data_chunk_reset :: "nat \<Rightarrow> 'e \<Rightarrow> unit \<times> 'e"
  duckdb_data_chunk_set_size :: "nat \<Rightarrow> nat \<Rightarrow> 'e \<Rightarrow> unit \<times> 'e"
  duckdb_bind_varchar :: "nat option \<Rightarrow> nat \<Rightarrow> string \<Rightarrow> 'e \<Rightarrow> duckdb_state \<times> 'e"
  duckdb_vector_size :: nat
  duckdb_valid_utf8_check :: "string \<Rightarrow> 'e \<Rightarrow> nat option \<times> 'e"
  duckdb_unsafe_vector_assign_string_element_len :: "nat \<Rightarrow> nat \<Rightarrow> string \<Rightarrow> 'e \<Rightarrow> unit \<times> 'e"
  duckdb_vector_assign_string_element_len :: "nat \<Rightarrow> nat \<Rightarrow> string \<Rightarrow> 'e \<Rightarrow> unit \<times> 'e"
  duckdb_vector_ensure_validity_writable :: "nat \<Rightarrow> 'e \<Rightarrow> unit \<times> 'e"
  duckdb_validity_set_row_invalid :: "nat option \<Rightarrow> nat \<Rightarrow> 'e \<Rightarrow> unit \<times> 'e"
  store :: "nat \<Rightarrow> 8 word \<Rightarrow> 'e \<Rightarrow> 'e"  \<comment> \<open>one byte of the engine's memory\<close>

definition STAGED_RETAINED :: nat where
  "STAGED_RETAINED = 16"

text \<open>Writing engine memory, and the bytes of a word in the target's order.\<close>

primrec poke :: "'e chunk_api \<Rightarrow> 'e appender_api \<Rightarrow> nat \<Rightarrow> 8 word list \<Rightarrow> 'e world \<Rightarrow> 'e world run" where
  "poke C A addr [] w = Inr w"
| "poke C A addr (b # bs) w = (case mapped C (w_engine w) addr of
       None \<Rightarrow> Inl Bad_memory
     | Some _ \<Rightarrow> poke C A (Suc addr) bs (w\<lparr>w_engine := store A addr b (w_engine w)\<rparr>))"

definition le_bytes :: "'a::len word \<Rightarrow> 8 word list" where
  "le_bytes x = map (\<lambda>k. ucast (drop_bit (8 * k) x)) [0..<LENGTH('a) div 8]"

subsection \<open>Status, admission, diagnostics\<close>

text \<open>The first failure is kept: \<open>error\<close> changes nothing once the status is set.\<close>

definition appender_error :: "nat \<Rightarrow> string option \<Rightarrow> 'e world \<Rightarrow> 'e world run" where
  "appender_error p m = on_appender p (\<lambda>x. if a_status x \<noteq> DUCKDB_ML_STATUS_OK then x
     else x\<lparr>a_status := DUCKDB_ML_STATUS_ERROR, a_message := diagnostic ''DuckDB appender failed'' m\<rparr>)"

definition admit_user :: "nat \<Rightarrow> 'e world \<Rightarrow> (bool \<times> 'e world) run" where
  "admit_user p w = bind (deref (appenders w) p) (\<lambda>x.
     if a_status x \<noteq> DUCKDB_ML_STATUS_OK then Inr (False, w)
     else bind (duckdb_ml_native_user_call_begin (a_parent x) w) (\<lambda>(admission, w).
       if admission = DUCKDB_ML_CALL_CANCELLED
       then bind (on_appender p (\<lambda>x. x\<lparr>a_status := DUCKDB_ML_STATUS_CANCELLED\<rparr>) w) (\<lambda>w. Inr (False, w))
       else Inr (True, w)))"

definition admit_scalar :: "nat \<Rightarrow> 'e world \<Rightarrow> (bool \<times> 'e world) run" where
  "admit_scalar p w = bind (deref (appenders w) p) (\<lambda>x.
     if a_status x \<noteq> DUCKDB_ML_STATUS_OK then Inr (False, w)
     else bind (duckdb_ml_native_noninterruptible_call_begin (a_parent x) w) (\<lambda>(admission, w).
       if admission = DUCKDB_ML_CALL_CANCELLED
       then bind (on_appender p (\<lambda>x. x\<lparr>a_status := DUCKDB_ML_STATUS_CANCELLED\<rparr>) w) (\<lambda>w. Inr (False, w))
       else Inr (True, w)))"

definition check :: "'e appender_api \<Rightarrow> nat \<Rightarrow> duckdb_state \<Rightarrow> duckdb_ml_runtime \<Rightarrow> 'e world \<Rightarrow> 'e world run" where
  "check A p state runtime w =
     (if state = DuckDBSuccess then Inr w
      else bind (deref (appenders w) p) (\<lambda>x.
        case engine (duckdb_appender_error_data A (a_appender x)) w of (data, w) \<Rightarrow>
        bind (appender_error p (case data of None \<Rightarrow> None
               | Some d \<Rightarrow> duckdb_error_data_message A d (w_engine w)) w) (\<lambda>w.
        case data of None \<Rightarrow> Inr w
        | Some d \<Rightarrow>
          bind (duckdb_ml_native_cleanup_begin (a_parent x) runtime w) (\<lambda>w.
          bind (call (a_parent x) Destroy_error_data (duckdb_destroy_error_data A d) w) (\<lambda>(_, w).
          duckdb_ml_native_cleanup_end (a_parent x) runtime w)))))"

subsection \<open>Release\<close>

definition clear_input :: "nat option \<Rightarrow> 'e world \<Rightarrow> 'e world run" where
  "clear_input owner w = (case owner of None \<Rightarrow> Inr w
     | Some p \<Rightarrow> on_appender p (\<lambda>x. x\<lparr>a_staged_rows := 0, a_stage_failed := False\<rparr>) w)"

text \<open>\<open>duckdb_destroy_data_chunk(&p->staged[k]); duckdb_ml_released();\<close>\<close>

definition destroy_staged :: "'e chunk_api \<Rightarrow> nat \<Rightarrow> nat \<Rightarrow> 'e world \<Rightarrow> 'e world run" where
  "destroy_staged C p k w =
     bind (deref (appenders w) p) (\<lambda>x.
     bind (not_null (a_staged x)) (\<lambda>slots.
     bind (at_index slots k) (\<lambda>slot.
     bind (not_null slot) (\<lambda>h.
     bind (call (a_parent x) Destroy_chunk (duckdb_destroy_data_chunk C h) w) (\<lambda>(h', w).
     bind (on_appender p (\<lambda>x. x\<lparr>a_staged := Some (slots[k := h'])\<rparr>) w) (\<lambda>w.
     Inr (released w)))))))"

definition destroy_logical :: "'e appender_api \<Rightarrow> nat \<Rightarrow> nat list \<Rightarrow> nat \<Rightarrow> 'e world \<Rightarrow> 'e world run" where
  "destroy_logical A a types i w =
     bind (at_index types i) (\<lambda>t.
     bind (call a Destroy_logical_type (duckdb_destroy_logical_type A t) w) (\<lambda>(_, w). Inr w))"

definition release_staging :: "'e chunk_api \<Rightarrow> 'e appender_api \<Rightarrow> nat \<Rightarrow> 'e world \<Rightarrow> 'e world run" where
  "release_staging C A p w =
     bind (deref (appenders w) p) (\<lambda>x.
     bind (for_each (destroy_staged C p) [0..<a_staged_capacity x] w) (\<lambda>w.
     bind (if a_staged x \<noteq> None
           then bind (on_appender p (\<lambda>x. x\<lparr>a_staged := None\<rparr>) w) (\<lambda>w. Inr (released w))
           else Inr w) (\<lambda>w.
     bind (on_appender p (\<lambda>x. x\<lparr>a_staged_capacity := 0, a_staged_rows := 0\<rparr>) w) (\<lambda>w.
     case a_logical x of None \<Rightarrow> Inr w
     | Some types \<Rightarrow>
       bind (for_each (destroy_logical A (a_parent x) types) [0..<a_columns x] w) (\<lambda>w.
       bind (on_appender p (\<lambda>x. x\<lparr>a_logical := None\<rparr>) w) (\<lambda>w.
       Inr (released w)))))))"

text \<open>The flush an ordinary close asks for.\<close>

definition close_flushing :: "'e appender_api \<Rightarrow> nat \<Rightarrow> duckdb_ml_runtime \<Rightarrow> 'e world \<Rightarrow> 'e world run" where
  "close_flushing A p runtime w =
     bind (deref (appenders w) p) (\<lambda>x.
     bind (duckdb_ml_native_work_begin (a_parent x) w) (\<lambda>w.
     bind (admit_user p w) (\<lambda>(admitted, w).
     bind (if admitted
           then bind (call (a_parent x) Appender_close (duckdb_appender_close A (a_appender x)) w) (\<lambda>(state, w).
                bind (duckdb_ml_native_user_call_end (a_parent x) w) (\<lambda>w.
                check A p state runtime w))
           else Inr w) (\<lambda>w.
     duckdb_ml_native_work_end (a_parent x) w))))"

definition close_native :: "'e chunk_api \<Rightarrow> 'e appender_api \<Rightarrow> nat option \<Rightarrow> bool \<Rightarrow> duckdb_ml_runtime
    \<Rightarrow> 'e world \<Rightarrow> 'e world run" where
  "close_native C A owner flush runtime w = (case owner of None \<Rightarrow> Inr w | Some p \<Rightarrow>
     bind (deref (appenders w) p) (\<lambda>x.
     bind (if a_appender x \<noteq> None
           then bind (if flush \<and> a_status x = DUCKDB_ML_STATUS_OK then close_flushing A p runtime w else Inr w) (\<lambda>w.
                bind (duckdb_ml_native_cleanup_begin (a_parent x) runtime w) (\<lambda>w.
                bind (call (a_parent x) Appender_clear (duckdb_appender_clear A (a_appender x)) w) (\<lambda>(state, w).
                bind (check A p state runtime w) (\<lambda>w.
                bind (call (a_parent x) Appender_destroy (duckdb_appender_destroy A (a_appender x)) w) (\<lambda>(h, w).
                bind (on_appender p (\<lambda>x. x\<lparr>a_appender := h\<rparr>) w) (\<lambda>w.
                bind (release_staging C A p (released w)) (\<lambda>w.
                duckdb_ml_native_cleanup_end (a_parent x) runtime w)))))))
           else Inr w) (\<lambda>w.
     clear_input owner w)))"

definition free_schema :: "nat \<Rightarrow> 'e world \<Rightarrow> 'e world run" where
  "free_schema p w = bind (deref (appenders w) p) (\<lambda>x.
     let w = (if a_schema x \<noteq> None then released w else w);
         w = (if a_table x \<noteq> None then released w else w);
         w = (if a_types x \<noteq> None then released w else w);
         w = (if a_nullable x \<noteq> None then released w else w)
     in on_appender p (\<lambda>x. x\<lparr>a_schema := None, a_table := None, a_types := None, a_nullable := None\<rparr>) w)"

definition delete_owner :: "'e session_api \<Rightarrow> 'e statement_api \<Rightarrow> 'e chunk_api \<Rightarrow> 'e appender_api \<Rightarrow> nat option
    \<Rightarrow> 'e world \<Rightarrow> 'e world run" where
  "delete_owner S T C A owner w = (case owner of None \<Rightarrow> Inr w | Some p \<Rightarrow>
     bind (close_native C A owner False DUCKDB_ML_RUNTIME_HELD w) (\<lambda>w.
     bind (release_staging C A p w) (\<lambda>w.
     bind (free_schema p w) (\<lambda>w.
     bind (deref (appenders w) p) (\<lambda>x.
     bind (duckdb_ml_connection_unref S T (Some (a_parent x)) w) (\<lambda>w.
     Inr (released (w\<lparr>appenders := (appenders w)(p := None)\<rparr>))))))))"

definition finalize_appender :: "'e session_api \<Rightarrow> 'e statement_api \<Rightarrow> 'e chunk_api \<Rightarrow> 'e appender_api \<Rightarrow> nat
    \<Rightarrow> 'e world \<Rightarrow> 'e world run" where
  "finalize_appender S T C A v w = (case Appender w v of None \<Rightarrow> Inr w | Some p \<Rightarrow>
     bind (delete_owner S T C A (Some p) (count_fallback w)) (\<lambda>w.
     Inr (w\<lparr>Appender := (Appender w)(v := None)\<rparr>)))"

subsection \<open>Creation\<close>

definition appender_owner0 :: appender_owner where
  "appender_owner0 = \<lparr>a_parent = 0, a_appender = None, a_status = DUCKDB_ML_STATUS_OK, a_message = [],
     a_schema = None, a_table = None, a_types = None, a_nullable = None, a_columns = 0,
     a_logical = None, a_staged = None, a_staged_capacity = 0, a_staged_rows = 0,
     a_stage_failed = False, a_stage_message = []\<rparr>"

definition ml_duckdb_appender_owner :: "nat \<Rightarrow> 'e world \<Rightarrow> (nat reply \<times> 'e world) run" where
  "ml_duckdb_appender_owner connection w =
     (case fresh w of (v, w) \<Rightarrow>
      case malloc_fails w of (fails, w) \<Rightarrow>
      if fails then Inr (Out_of_memory, w)
      else case fresh w of (p, w) \<Rightarrow>
        bind (duckdb_ml_connection_ref connection w) (\<lambda>(a, w).
        Inr (Returned v, acquired (w\<lparr>
          appenders := (appenders w)(p \<mapsto> appender_owner0\<lparr>a_parent := a\<rparr>),
          Appender := (Appender w)(v \<mapsto> p)\<rparr>))))"

text \<open>The metadata query and what the stub holds on its stack while it runs.\<close>

definition metadata_sql :: string where
  "metadata_sql = ''SELECT database_name,is_nullable FROM duckdb_columns() WHERE database_name=current_database() AND schema_name=? AND table_name=? ORDER BY column_index''"

record metadata =
  m_statement :: "nat option"
  m_extracted :: "nat option"
  m_result :: nat
  m_chunk :: "nat option"

definition metadata_extract :: "'e statement_api \<Rightarrow> nat \<Rightarrow> nat \<Rightarrow> nat option \<Rightarrow> metadata \<times> 'e world
    \<Rightarrow> (metadata \<times> 'e world) run" where
  "metadata_extract T a p c = (\<lambda>(m, w). bind (admit_user p w) (\<lambda>(admitted, w).
     if \<not> admitted then Inr (m, w)
     else bind (call a (Extract metadata_sql) (duckdb_extract_statements T c metadata_sql) w) (\<lambda>((count, h), w).
          bind (duckdb_ml_native_user_call_end a w) (\<lambda>w.
          bind (if count \<noteq> 1
                then appender_error p (case h of None \<Rightarrow> None
                       | Some x \<Rightarrow> duckdb_extract_statements_error T x (w_engine w)) w
                else Inr w) (\<lambda>w.
          Inr (m\<lparr>m_extracted := h\<rparr>, w))))))"

definition metadata_prepare :: "'e statement_api \<Rightarrow> nat \<Rightarrow> nat \<Rightarrow> nat option \<Rightarrow> metadata \<times> 'e world
    \<Rightarrow> (metadata \<times> 'e world) run" where
  "metadata_prepare T a p c = (\<lambda>(m, w). bind (admit_user p w) (\<lambda>(admitted, w).
     if \<not> admitted then Inr (m, w)
     else bind (call a Prepare (duckdb_prepare_extracted_statement T c (m_extracted m) 0) w) (\<lambda>((state, h), w).
          bind (duckdb_ml_native_user_call_end a w) (\<lambda>w.
          bind (if state \<noteq> DuckDBSuccess
                then appender_error p (if h \<noteq> None then duckdb_prepare_error T h (w_engine w) else None) w
                else Inr w) (\<lambda>w.
          Inr (m\<lparr>m_statement := h\<rparr>, w))))))"

definition metadata_bind :: "'e appender_api \<Rightarrow> nat \<Rightarrow> nat \<Rightarrow> (appender_owner \<Rightarrow> string option) \<Rightarrow> nat
    \<Rightarrow> metadata \<times> 'e world \<Rightarrow> (metadata \<times> 'e world) run" where
  "metadata_bind A a p field index = (\<lambda>(m, w). bind (admit_scalar p w) (\<lambda>(admitted, w).
     if \<not> admitted then Inr (m, w)
     else bind (deref (appenders w) p) (\<lambda>x.
          bind (not_null (field x)) (\<lambda>text.
          bind (call a Bind (duckdb_bind_varchar A (m_statement m) index (c_string text)) w) (\<lambda>(state, w).
          bind (if state \<noteq> DuckDBSuccess then appender_error p (Some ''Cannot bind appender metadata'') w
                else Inr w) (\<lambda>w.
          Inr (m, w)))))))"

definition metadata_execute :: "'e statement_api \<Rightarrow> nat \<Rightarrow> nat \<Rightarrow> metadata \<times> 'e world
    \<Rightarrow> (metadata \<times> 'e world) run" where
  "metadata_execute T a p = (\<lambda>(m, w). bind (admit_user p w) (\<lambda>(admitted, w).
     if \<not> admitted then Inr (m, w)
     else bind (call a (Execute (duckdb_prepared_statement_type T (m_statement m) (w_engine w)))
                  (duckdb_execute_prepared T (m_statement m)) w) (\<lambda>((state, r), w).
          bind (duckdb_ml_native_user_call_end a w) (\<lambda>w.
          bind (if state \<noteq> DuckDBSuccess
                then appender_error p (duckdb_result_error T r (w_engine w)) w else Inr w) (\<lambda>w.
          Inr (m\<lparr>m_result := r\<rparr>, w))))))"

definition metadata_fetch :: "'e statement_api \<Rightarrow> 'e chunk_api \<Rightarrow> nat \<Rightarrow> nat \<Rightarrow> metadata \<times> 'e world
    \<Rightarrow> (metadata \<times> 'e world) run" where
  "metadata_fetch T C a p = (\<lambda>(m, w). bind (admit_user p w) (\<lambda>(admitted, w).
     if \<not> admitted then Inr (m, w)
     else bind (call a Fetch (duckdb_fetch_chunk C (m_result m)) w) (\<lambda>(chunk, w).
          bind (duckdb_ml_native_user_call_end a w) (\<lambda>w.
          bind (if duckdb_result_error T (m_result m) (w_engine w) \<noteq> None
                then appender_error p (duckdb_result_error T (m_result m) (w_engine w)) w
                else if chunk = None \<or> duckdb_data_chunk_get_size C chunk (w_engine w) = 0
                then appender_error p (Some ''Table not found in current database'') w
                else Inr w) (\<lambda>w.
          Inr (m\<lparr>m_chunk := chunk\<rparr>, w))))))"

text \<open>A second chunk of metadata means a table the positional schema cannot describe.\<close>

definition generated_columns :: string where
  "generated_columns = ''Generated-column or very wide tables are not supported by appender''"

definition metadata_exhausted :: "'e statement_api \<Rightarrow> 'e chunk_api \<Rightarrow> nat \<Rightarrow> nat \<Rightarrow> metadata \<times> 'e world
    \<Rightarrow> (metadata \<times> 'e world) run" where
  "metadata_exhausted T C a p = (\<lambda>(m, w). bind (admit_user p w) (\<lambda>(admitted, w).
     if \<not> admitted then Inr (m, w)
     else bind (call a Fetch (duckdb_fetch_chunk C (m_result m)) w) (\<lambda>(extra, w).
          bind (duckdb_ml_native_user_call_end a w) (\<lambda>w.
          bind (case extra of
              Some h \<Rightarrow>
                bind (appender_error p (Some generated_columns) w) (\<lambda>w.
                bind (duckdb_ml_native_cleanup_begin a DUCKDB_ML_RUNTIME_RELEASED w) (\<lambda>w.
                bind (call a Destroy_chunk (duckdb_destroy_data_chunk C h) w) (\<lambda>(_, w).
                duckdb_ml_native_cleanup_end a DUCKDB_ML_RUNTIME_RELEASED w)))
            | None \<Rightarrow>
                if duckdb_result_error T (m_result m) (w_engine w) \<noteq> None
                then appender_error p (duckdb_result_error T (m_result m) (w_engine w)) w
                else Inr w) (\<lambda>w.
          Inr (m, w))))))"

text \<open>The catalog's name is the first row of the metadata's first column.\<close>

definition catalog_name :: "'e chunk_api \<Rightarrow> nat option \<Rightarrow> 'e world \<Rightarrow> string run" where
  "catalog_name C chunk w =
     (let names = duckdb_vector_get_data C (duckdb_data_chunk_get_vector C chunk 0 (w_engine w)) (w_engine w)
      in bind (load (mapped C (w_engine w)) (duckdb_string_t_data C names (w_engine w))
           (duckdb_string_t_length C names (w_engine w)))
         (\<lambda>bs. Inr (c_string (map (\<lambda>b. char_of (unat b)) bs))))"

definition create_native :: "'e chunk_api \<Rightarrow> 'e appender_api \<Rightarrow> nat \<Rightarrow> nat \<Rightarrow> nat option \<Rightarrow> metadata
    \<Rightarrow> 'e world \<Rightarrow> 'e world run" where
  "create_native C A a p c m w =
     (case malloc_fails w of (fails, w) \<Rightarrow>
      if fails then appender_error p (Some ''Cannot allocate catalog name'') w
      else bind (catalog_name C (m_chunk m) w) (\<lambda>catalog.
        bind (admit_scalar p w) (\<lambda>(admitted, w).
        if \<not> admitted then Inr w
        else bind (deref (appenders w) p) (\<lambda>x.
          bind (not_null (a_schema x)) (\<lambda>schema.
          bind (not_null (a_table x)) (\<lambda>table.
          bind (call a Appender_create
                 (duckdb_appender_create_ext A c catalog (c_string schema) (c_string table)) w) (\<lambda>((state, h), w).
          bind (on_appender p (\<lambda>x. x\<lparr>a_appender := h\<rparr>) w) (\<lambda>w.
          check A p state DUCKDB_ML_RUNTIME_RELEASED (if h \<noteq> None then acquired w else w)))))))))"

definition read_column :: "'e chunk_api \<Rightarrow> 'e appender_api \<Rightarrow> nat \<Rightarrow> nat \<Rightarrow> metadata \<Rightarrow> nat \<Rightarrow> 'e world
    \<Rightarrow> 'e world run" where
  "read_column C A a p m i w =
     bind (deref (appenders w) p) (\<lambda>x.
     bind (not_null (a_types x)) (\<lambda>types.
     case engine (duckdb_appender_column_type A (a_appender x) i) w of (t, w) \<Rightarrow>
     bind (at_index types i) (\<lambda>_.
     bind (on_appender p (\<lambda>x. x\<lparr>a_types := Some (types[i := duckdb_get_type_id A t (w_engine w)])\<rparr>) w) (\<lambda>w.
     bind (duckdb_ml_native_cleanup_begin a DUCKDB_ML_RUNTIME_RELEASED w) (\<lambda>w.
     bind (call a Destroy_logical_type (duckdb_destroy_logical_type A t) w) (\<lambda>(_, w).
     bind (duckdb_ml_native_cleanup_end a DUCKDB_ML_RUNTIME_RELEASED w) (\<lambda>w.
     bind (load (mapped C (w_engine w))
            (duckdb_vector_get_data C (duckdb_data_chunk_get_vector C (m_chunk m) 1 (w_engine w)) (w_engine w) + i) 1) (\<lambda>bs.
     bind (not_null (a_nullable x)) (\<lambda>nullable.
     bind (at_index nullable i) (\<lambda>_.
     on_appender p (\<lambda>x. x\<lparr>a_nullable := Some (nullable[i := (bs \<noteq> [0])])\<rparr>) w))))))))))"

definition read_schema :: "'e chunk_api \<Rightarrow> 'e appender_api \<Rightarrow> nat \<Rightarrow> nat \<Rightarrow> metadata \<Rightarrow> nat \<Rightarrow> 'e world
    \<Rightarrow> 'e world run" where
  "read_schema C A a p m n w =
     bind (deref (appenders w) p) (\<lambda>x.
     let columns = duckdb_appender_column_count A (a_appender x) (w_engine w) in
     bind (on_appender p (\<lambda>x. x\<lparr>a_columns := columns\<rparr>) w) (\<lambda>w.
     if n \<noteq> columns then appender_error p (Some generated_columns) w
     else case malloc_fails w of (no_types, w) \<Rightarrow>
       bind (on_appender p (\<lambda>x. x\<lparr>a_types :=
              (if no_types then None else Some (replicate n (DUCKDB_TYPE_OTHER 0)))\<rparr>) w) (\<lambda>w.
       let w = (if no_types then w else acquired w) in
       case malloc_fails w of (no_nullable, w) \<Rightarrow>
       bind (on_appender p (\<lambda>x. x\<lparr>a_nullable :=
              (if no_nullable then None else Some (replicate n False))\<rparr>) w) (\<lambda>w.
       let w = (if no_nullable then w else acquired w) in
       if no_types \<or> no_nullable
       then appender_error p (Some ''Cannot allocate appender schema'') w
       else for_while (admit_scalar p) (read_column C A a p m) [0..<n] w))))"

definition metadata_create :: "'e chunk_api \<Rightarrow> 'e appender_api \<Rightarrow> nat \<Rightarrow> nat \<Rightarrow> nat option \<Rightarrow> metadata \<times> 'e world
    \<Rightarrow> (metadata \<times> 'e world) run" where
  "metadata_create C A a p c = (\<lambda>(m, w). bind (admit_scalar p w) (\<lambda>(admitted, w).
     if \<not> admitted then Inr (m, w)
     else let n = duckdb_data_chunk_get_size C (m_chunk m) (w_engine w) in
          bind (create_native C A a p c m w) (\<lambda>w.
          bind (admit_scalar p w) (\<lambda>(admitted, w).
          bind (if admitted then read_schema C A a p m n w else Inr w) (\<lambda>w.
          Inr (m, w))))))"

definition metadata_release :: "'e statement_api \<Rightarrow> 'e chunk_api \<Rightarrow> nat \<Rightarrow> metadata \<Rightarrow> 'e world \<Rightarrow> 'e world run" where
  "metadata_release T C a m w =
     bind (duckdb_ml_native_cleanup_begin a DUCKDB_ML_RUNTIME_RELEASED w) (\<lambda>w.
     bind (case m_chunk m of None \<Rightarrow> Inr w
           | Some h \<Rightarrow> bind (call a Destroy_chunk (duckdb_destroy_data_chunk C h) w) (\<lambda>(_, w). Inr w)) (\<lambda>w.
     bind (call a Destroy_result (duckdb_destroy_result T (m_result m)) w) (\<lambda>(_, w).
     bind (case m_statement m of None \<Rightarrow> Inr w
           | Some h \<Rightarrow> bind (call a Destroy_prepare (duckdb_destroy_prepare T h) w) (\<lambda>(_, w). Inr w)) (\<lambda>w.
     bind (case m_extracted m of None \<Rightarrow> Inr w
           | Some h \<Rightarrow> bind (call a Destroy_extracted (duckdb_destroy_extracted T h) w) (\<lambda>(_, w). Inr w)) (\<lambda>w.
     duckdb_ml_native_cleanup_end a DUCKDB_ML_RUNTIME_RELEASED w)))))"

definition create_body :: "'e statement_api \<Rightarrow> 'e chunk_api \<Rightarrow> 'e appender_api \<Rightarrow> nat \<Rightarrow> nat \<Rightarrow> nat option
    \<Rightarrow> 'e world \<Rightarrow> (unit \<times> 'e world) run" where
  "create_body T C A a p c w =
     bind (duckdb_ml_native_work_begin a w) (\<lambda>w.
     bind (metadata_extract T a p c (\<lparr>m_statement = None, m_extracted = None, m_result = 0, m_chunk = None\<rparr>, w)) (\<lambda>s.
     bind (metadata_prepare T a p c s) (\<lambda>s.
     bind (metadata_bind A a p a_schema 1 s) (\<lambda>s.
     bind (metadata_bind A a p a_table 2 s) (\<lambda>s.
     bind (metadata_execute T a p s) (\<lambda>s.
     bind (metadata_fetch T C a p s) (\<lambda>s.
     bind (metadata_exhausted T C a p s) (\<lambda>s.
     bind (metadata_create C A a p c s) (\<lambda>(m, w).
     bind (metadata_release T C a m w) (\<lambda>w.
     bind (duckdb_ml_native_work_end a w) (\<lambda>w.
     Inr ((), w))))))))))))"

definition ml_duckdb_create_appender :: "'e statement_api \<Rightarrow> 'e chunk_api \<Rightarrow> 'e appender_api \<Rightarrow> nat \<Rightarrow> string
    \<Rightarrow> string \<Rightarrow> 'e world \<Rightarrow> (unit reply \<times> 'e world) run" where
  "ml_duckdb_create_appender T C A v schema table w =
     bind (deref (Appender w) v) (\<lambda>p.
     case malloc_fails w of (fails, w) \<Rightarrow>
     if fails then Inr (Out_of_memory, w)
     else bind (on_appender p (\<lambda>x. x\<lparr>a_schema := Some schema\<rparr>) w) (\<lambda>w.
     case malloc_fails (acquired w) of (fails, w) \<Rightarrow>
     if fails then Inr (Out_of_memory, w)
     else bind (on_appender p (\<lambda>x. x\<lparr>a_table := Some table\<rparr>) w) (\<lambda>w.
     bind (deref (appenders w) p) (\<lambda>x.
     bind (duckdb_ml_connection_handle (a_parent x) w) (\<lambda>c.
     blocking (create_body T C A (a_parent x) p c) (acquired w))))))"

end
