(* ===== verification/Staging.thy ===== *)
theory Staging
  imports Appenders
begin

text \<open>
  The operations on an open appender (\<open>appender_stubs.c\<close>, second half): staging of values,
  NULLs, Bigarray columns and masks, appending the staged chunks, flushing, closing, and the
  restriction to some columns.
\<close>

subsection \<open>Beginning a batch\<close>

text \<open>\<open>(rows + size - 1) / size\<close>\<close>

definition staged_chunks :: "nat \<Rightarrow> nat \<Rightarrow> nat" where
  "staged_chunks per rows = (rows + per - 1) div per"

definition stage_logical :: "'e appender_api \<Rightarrow> nat \<Rightarrow> 'e world \<Rightarrow> (bool \<times> 'e world) run" where
  "stage_logical A p w =
     bind (deref (appenders w) p) (\<lambda>x.
     if a_logical x = None \<and> a_columns x \<noteq> 0
     then case malloc_fails w of (fails, w) \<Rightarrow>
       if fails then bind (appender_error p (Some ''Cannot allocate staging types'') w) (\<lambda>w. Inr (False, w))
       else bind (on_appender p (\<lambda>x. x\<lparr>a_logical := Some (replicate (a_columns x) 0)\<rparr>) w) (\<lambda>w.
            bind (for_each (\<lambda>i w. case engine (duckdb_appender_column_type A (a_appender x) i) w of (t, w) \<Rightarrow>
                    on_appender p (\<lambda>x. x\<lparr>a_logical := map_option (\<lambda>types. types[i := t]) (a_logical x)\<rparr>) w)
                   [0..<a_columns x] (acquired w)) (\<lambda>w.
            Inr (True, w)))
     else Inr (True, w))"

text \<open>\<open>while (p->staged_capacity < chunks)\<close> one more chunk, at slot \<open>k\<close>.\<close>

primrec stage_fill :: "'e appender_api \<Rightarrow> nat \<Rightarrow> nat list \<Rightarrow> 'e world \<Rightarrow> (bool \<times> 'e world) run" where
  "stage_fill A p [] w = Inr (True, w)"
| "stage_fill A p (k # ks) w =
     bind (deref (appenders w) p) (\<lambda>x.
     case engine (duckdb_create_data_chunk A (a_logical x) (a_columns x)) w of (chunk, w) \<Rightarrow>
     if chunk = None
     then bind (appender_error p (Some ''Cannot allocate staging chunks'') w) (\<lambda>w. Inr (False, w))
     else bind (not_null (a_staged x)) (\<lambda>slots.
          bind (at_index slots k) (\<lambda>_.
          bind (on_appender p (\<lambda>x. x\<lparr>a_staged := Some (slots[k := chunk]), a_staged_capacity := Suc k\<rparr>)
                 (acquired w)) (\<lambda>w.
          stage_fill A p ks w))))"

definition stage_grow :: "'e appender_api \<Rightarrow> nat \<Rightarrow> nat \<Rightarrow> 'e world \<Rightarrow> (bool \<times> 'e world) run" where
  "stage_grow A p chunks w =
     bind (deref (appenders w) p) (\<lambda>x.
     if a_staged_capacity x < chunks
     then case malloc_fails w of (fails, w) \<Rightarrow>
       if fails then bind (appender_error p (Some ''Cannot allocate staging chunks'') w) (\<lambda>w. Inr (False, w))
       else let w = (if a_staged x = None then acquired w else w);
                slots = (case a_staged x of None \<Rightarrow> [] | Some slots \<Rightarrow> take chunks slots)
            in bind (on_appender p (\<lambda>x. x\<lparr>a_staged := Some (slots @ replicate (chunks - length slots) None)\<rparr>) w) (\<lambda>w.
               stage_fill A p [a_staged_capacity x..<chunks] w)
     else Inr (True, w))"

text \<open>A chunk is reset; its string slots that will be appended are zeroed (empty strings).\<close>

definition staged_chunk :: "appender_owner \<Rightarrow> nat \<Rightarrow> nat run" where
  "staged_chunk x k = bind (not_null (a_staged x)) (\<lambda>slots. bind (at_index slots k) not_null)"

definition stage_clear_strings :: "'e chunk_api \<Rightarrow> 'e appender_api \<Rightarrow> nat \<Rightarrow> nat \<Rightarrow> nat \<Rightarrow> nat \<Rightarrow> 'e world
    \<Rightarrow> 'e world run" where
  "stage_clear_strings C A p k held i w =
     bind (deref (appenders w) p) (\<lambda>x.
     bind (not_null (a_types x)) (\<lambda>types.
     bind (at_index types i) (\<lambda>t.
     if t = DUCKDB_TYPE_VARCHAR \<or> t = DUCKDB_TYPE_BLOB
     then bind (staged_chunk x k) (\<lambda>h.
          poke C A (duckdb_vector_get_data C (duckdb_data_chunk_get_vector C (Some h) i (w_engine w)) (w_engine w))
            (replicate (held * sizeof_duckdb_string_t C) 0) w)
     else Inr w)))"

definition stage_reset :: "'e chunk_api \<Rightarrow> 'e appender_api \<Rightarrow> nat \<Rightarrow> nat \<Rightarrow> nat \<Rightarrow> 'e world \<Rightarrow> 'e world run" where
  "stage_reset C A p n k w =
     (let per = duckdb_vector_size A; held = (if n - k * per < per then n - k * per else per) in
      bind (deref (appenders w) p) (\<lambda>x.
      bind (staged_chunk x k) (\<lambda>h.
      case engine (duckdb_data_chunk_reset A h) w of (_, w) \<Rightarrow>
      for_each (stage_clear_strings C A p k held) [0..<a_columns x] w)))"

definition ml_duckdb_stage_begin :: "'e chunk_api \<Rightarrow> 'e appender_api \<Rightarrow> nat \<Rightarrow> int \<Rightarrow> 'e world \<Rightarrow> 'e world run" where
  "ml_duckdb_stage_begin C A v rows w =
     bind (clear_input (Appender w v) w) (\<lambda>w.
     case Appender w v of None \<Rightarrow> Inr w
     | Some p \<Rightarrow>
       bind (deref (appenders w) p) (\<lambda>x.
       if a_appender x = None \<or> a_status x \<noteq> DUCKDB_ML_STATUS_OK \<or> rows < 0 then Inr w
       else let n = nat rows; chunks = staged_chunks (duckdb_vector_size A) n in
       bind (stage_logical A p w) (\<lambda>(go_on, w).
       if \<not> go_on then Inr w
       else bind (stage_grow A p chunks w) (\<lambda>(go_on, w).
       if \<not> go_on then Inr w
       else bind (for_each (stage_reset C A p n) [0..<chunks] w) (\<lambda>w.
            on_appender p (\<lambda>x. x\<lparr>a_staged_rows := n\<rparr>) w)))))"

subsection \<open>Staging one value\<close>

text \<open>The vector, the row inside it and its data, or nothing when out of range or closed.\<close>

definition slot :: "'e chunk_api \<Rightarrow> 'e appender_api \<Rightarrow> appender_owner option \<Rightarrow> int \<Rightarrow> int \<Rightarrow> 'e world
    \<Rightarrow> (nat \<times> nat \<times> nat) option run" where
  "slot C A owner c r w = (case owner of None \<Rightarrow> Inr None
     | Some x \<Rightarrow>
       if c < 0 \<or> nat c \<ge> a_columns x \<or> r < 0 \<or> nat r \<ge> a_staged_rows x then Inr None
       else bind (staged_chunk x (nat r div duckdb_vector_size A)) (\<lambda>h.
         let vec = duckdb_data_chunk_get_vector C (Some h) (nat c) (w_engine w);
             d = duckdb_vector_get_data C vec (w_engine w)
         in Inr (if d = 0 then None else Some (vec, nat r mod duckdb_vector_size A, d))))"

definition appender_at :: "nat \<Rightarrow> 'e world \<Rightarrow> appender_owner option run" where
  "appender_at v w = (case Appender w v of None \<Rightarrow> Inr None
     | Some p \<Rightarrow> bind (deref (appenders w) p) (\<lambda>x. Inr (Some x)))"

text \<open>Runs \<open>f\<close> on the staged slot and the column's type, or does nothing.\<close>

definition with_slot :: "'e chunk_api \<Rightarrow> 'e appender_api \<Rightarrow> nat \<Rightarrow> int \<Rightarrow> int
    \<Rightarrow> (nat \<Rightarrow> nat \<Rightarrow> nat \<Rightarrow> duckdb_type \<Rightarrow> 'e world \<Rightarrow> 'e world run) \<Rightarrow> 'e world \<Rightarrow> 'e world run" where
  "with_slot C A v c r f w =
     bind (appender_at v w) (\<lambda>owner.
     bind (slot C A owner c r w) (\<lambda>found. case found of None \<Rightarrow> Inr w
     | Some (vec, i, d) \<Rightarrow>
       bind (not_null owner) (\<lambda>x.
       bind (not_null (a_types x)) (\<lambda>types.
       bind (at_index types (nat c)) (\<lambda>t. f vec i d t w)))))"

definition int64_bytes :: "duckdb_type \<Rightarrow> 64 word \<Rightarrow> 8 word list" where
  "int64_bytes t x = (case t of
      DUCKDB_TYPE_BOOLEAN \<Rightarrow> [if x \<noteq> 0 then 1 else 0]
    | DUCKDB_TYPE_TINYINT \<Rightarrow> le_bytes (ucast x :: 8 word)
    | DUCKDB_TYPE_SMALLINT \<Rightarrow> le_bytes (ucast x :: 16 word)
    | DUCKDB_TYPE_INTEGER \<Rightarrow> le_bytes (ucast x :: 32 word)
    | DUCKDB_TYPE_DATE \<Rightarrow> le_bytes (ucast x :: 32 word)
    | DUCKDB_TYPE_BIGINT \<Rightarrow> le_bytes x
    | DUCKDB_TYPE_TIMESTAMP \<Rightarrow> le_bytes x
    | DUCKDB_TYPE_TIMESTAMP_S \<Rightarrow> le_bytes x
    | DUCKDB_TYPE_TIMESTAMP_MS \<Rightarrow> le_bytes x
    | DUCKDB_TYPE_TIMESTAMP_NS \<Rightarrow> le_bytes x
    | DUCKDB_TYPE_TIMESTAMP_TZ \<Rightarrow> le_bytes x
    | _ \<Rightarrow> [])"

definition ml_duckdb_stage_int64 :: "'e chunk_api \<Rightarrow> 'e appender_api \<Rightarrow> nat \<Rightarrow> int \<Rightarrow> int \<Rightarrow> 64 word
    \<Rightarrow> 'e world \<Rightarrow> 'e world run" where
  "ml_duckdb_stage_int64 C A v c r x = with_slot C A v c r (\<lambda>vec i d t.
     poke C A (d + i * length (int64_bytes t x)) (int64_bytes t x))"

definition float_bytes :: "(64 word \<Rightarrow> 32 word) \<Rightarrow> duckdb_type \<Rightarrow> 64 word \<Rightarrow> 8 word list" where
  "float_bytes narrow t x = (case t of
      DUCKDB_TYPE_FLOAT \<Rightarrow> le_bytes (narrow x)
    | DUCKDB_TYPE_DOUBLE \<Rightarrow> le_bytes x
    | _ \<Rightarrow> [])"

definition ml_duckdb_stage_float :: "'e chunk_api \<Rightarrow> 'e appender_api \<Rightarrow> (64 word \<Rightarrow> 32 word) \<Rightarrow> nat \<Rightarrow> int
    \<Rightarrow> int \<Rightarrow> 64 word \<Rightarrow> 'e world \<Rightarrow> 'e world run" where
  "ml_duckdb_stage_float C A narrow v c r x = with_slot C A v c r (\<lambda>vec i d t.
     poke C A (d + i * length (float_bytes narrow t x)) (float_bytes narrow t x))"

text \<open>Invalid UTF-8 in a VARCHAR column fails the whole batch.\<close>

definition stage_varchar :: "'e appender_api \<Rightarrow> nat \<Rightarrow> nat \<Rightarrow> nat \<Rightarrow> string \<Rightarrow> 'e world \<Rightarrow> 'e world run" where
  "stage_varchar A p vec i s w =
     (case engine (duckdb_valid_utf8_check A s) w of (invalid, w) \<Rightarrow>
      case invalid of
        Some d \<Rightarrow>
          let m = duckdb_error_data_message A d (w_engine w) in
          (case engine (duckdb_destroy_error_data A d) w of (_, w) \<Rightarrow>
           on_appender p (\<lambda>x. x\<lparr>a_stage_message := diagnostic ''Invalid UTF-8 in VARCHAR value'' m,
             a_staged_rows := 0, a_stage_failed := True\<rparr>) w)
      | None \<Rightarrow>
          (case engine (duckdb_unsafe_vector_assign_string_element_len A vec i s) w of (_, w) \<Rightarrow> Inr w))"

definition ml_duckdb_stage_string :: "'e chunk_api \<Rightarrow> 'e appender_api \<Rightarrow> nat \<Rightarrow> int \<Rightarrow> int \<Rightarrow> string
    \<Rightarrow> 'e world \<Rightarrow> 'e world run" where
  "ml_duckdb_stage_string C A v c r s = with_slot C A v c r (\<lambda>vec i d t w.
     if t = DUCKDB_TYPE_VARCHAR
     then bind (deref (Appender w) v) (\<lambda>p. stage_varchar A p vec i s w)
     else if t = DUCKDB_TYPE_BLOB
     then (case engine (duckdb_vector_assign_string_element_len A vec i s) w of (_, w) \<Rightarrow> Inr w)
     else Inr w)"

definition set_row_invalid :: "'e chunk_api \<Rightarrow> 'e appender_api \<Rightarrow> nat \<Rightarrow> nat \<Rightarrow> 'e world \<Rightarrow> 'e world" where
  "set_row_invalid C A vec i w =
     snd (engine (duckdb_validity_set_row_invalid A (duckdb_vector_get_validity C vec (w_engine w)) i) w)"

definition ensure_validity_writable :: "'e appender_api \<Rightarrow> nat \<Rightarrow> 'e world \<Rightarrow> 'e world" where
  "ensure_validity_writable A vec w = snd (engine (duckdb_vector_ensure_validity_writable A vec) w)"

definition ml_duckdb_stage_null :: "'e chunk_api \<Rightarrow> 'e appender_api \<Rightarrow> nat \<Rightarrow> int \<Rightarrow> int \<Rightarrow> 'e world \<Rightarrow> 'e world run" where
  "ml_duckdb_stage_null C A v c r w =
     bind (appender_at v w) (\<lambda>owner.
     bind (slot C A owner c r w) (\<lambda>found. case found of None \<Rightarrow> Inr w
     | Some (vec, i, d) \<Rightarrow> Inr (set_row_invalid C A vec i (ensure_validity_writable A vec w))))"

subsection \<open>Staging a Bigarray\<close>

fun stage_kind :: "duckdb_type \<Rightarrow> caml_ba_kind option" where
  "stage_kind DUCKDB_TYPE_BOOLEAN = Some CAML_BA_UINT8"
| "stage_kind DUCKDB_TYPE_TINYINT = Some CAML_BA_SINT8"
| "stage_kind DUCKDB_TYPE_SMALLINT = Some CAML_BA_SINT16"
| "stage_kind DUCKDB_TYPE_INTEGER = Some CAML_BA_INT32"
| "stage_kind DUCKDB_TYPE_DATE = Some CAML_BA_INT32"
| "stage_kind DUCKDB_TYPE_FLOAT = Some CAML_BA_FLOAT32"
| "stage_kind DUCKDB_TYPE_DOUBLE = Some CAML_BA_FLOAT64"
| "stage_kind DUCKDB_TYPE_BIGINT = Some CAML_BA_INT64"
| "stage_kind DUCKDB_TYPE_TIMESTAMP = Some CAML_BA_INT64"
| "stage_kind DUCKDB_TYPE_TIMESTAMP_S = Some CAML_BA_INT64"
| "stage_kind DUCKDB_TYPE_TIMESTAMP_MS = Some CAML_BA_INT64"
| "stage_kind DUCKDB_TYPE_TIMESTAMP_NS = Some CAML_BA_INT64"
| "stage_kind DUCKDB_TYPE_TIMESTAMP_TZ = Some CAML_BA_INT64"
| "stage_kind _ = None"

definition stage_range :: "'e appender_api \<Rightarrow> appender_owner option \<Rightarrow> int \<Rightarrow> caml_ba_array \<Rightarrow> int \<Rightarrow> int \<Rightarrow> bool" where
  "stage_range A owner c b at' n = (case owner of None \<Rightarrow> False
     | Some x \<Rightarrow> a_staged x \<noteq> None \<and> a_staged_capacity x > 0 \<and> c \<ge> 0 \<and> nat c < a_columns x \<and> n > 0
         \<and> nat n \<le> a_staged_rows x \<and> nat n \<le> duckdb_vector_size A
         \<and> length (ba_dim b) = 1 \<and> at' \<ge> 0 \<and> at' \<le> int (hd (ba_dim b)) - n)"

definition stage_fail :: "nat \<Rightarrow> string \<Rightarrow> 'e world \<Rightarrow> 'e world run" where
  "stage_fail v m w = (case Appender w v of None \<Rightarrow> Inr w
     | Some p \<Rightarrow> on_appender p (\<lambda>x. if a_stage_failed x then x
         else x\<lparr>a_stage_message := snprintf_s DUCKDB_ML_MESSAGE_SIZE m, a_staged_rows := 0,
                a_stage_failed := True\<rparr>) w)"

text \<open>\<open>len\<close> bytes of the array from \<open>off\<close>; \<open>slice_bytes\<close> faults outside it.\<close>

definition slice_bytes :: "8 word list \<Rightarrow> nat \<Rightarrow> nat \<Rightarrow> 8 word list run" where
  "slice_bytes bs off len =
     (if off + len \<le> length bs then Inr (take len (drop off bs)) else Inl Bad_memory)"

definition ml_duckdb_stage_blit :: "'e chunk_api \<Rightarrow> 'e appender_api \<Rightarrow> nat \<Rightarrow> int \<Rightarrow> caml_ba_array \<Rightarrow> int \<Rightarrow> int
    \<Rightarrow> 'e world \<Rightarrow> 'e world run" where
  "ml_duckdb_stage_blit C A v c b at' n w =
     bind (appender_at v w) (\<lambda>owner.
     if \<not> stage_range A owner c b at' n then stage_fail v ''Bulk column range mismatch'' w
     else bind (not_null owner) (\<lambda>x.
       bind (not_null (a_types x)) (\<lambda>types.
       bind (at_index types (nat c)) (\<lambda>t.
       let width = duckdb_ml_type_width t in
       if width = 0 \<or> stage_kind t \<noteq> Some (ba_kind b) then stage_fail v ''Bulk column kind mismatch'' w
       else bind (staged_chunk x 0) (\<lambda>h.
         let d = duckdb_vector_get_data C (duckdb_data_chunk_get_vector C (Some h) (nat c) (w_engine w)) (w_engine w) in
         bind (slice_bytes (ba_bytes b) (nat at' * width) (nat n * width)) (\<lambda>s.
         poke C A d (if t = DUCKDB_TYPE_BOOLEAN then map (\<lambda>x. if x \<noteq> 0 then 1 else 0) s else s) w))))))"

text \<open>The mask is made writable at the first NULL.\<close>

primrec mask_rows :: "'e chunk_api \<Rightarrow> 'e appender_api \<Rightarrow> nat \<Rightarrow> nat option \<Rightarrow> (nat \<times> 8 word) list
    \<Rightarrow> 'e world \<Rightarrow> 'e world" where
  "mask_rows C A vec validity [] w = w"
| "mask_rows C A vec validity (ib # rest) w =
     (if snd ib \<noteq> 0 then mask_rows C A vec validity rest w
      else let w = (if validity = None then ensure_validity_writable A vec w else w);
               m = (if validity = None then duckdb_vector_get_validity C vec (w_engine w) else validity)
           in mask_rows C A vec m rest (snd (engine (duckdb_validity_set_row_invalid A m (fst ib)) w)))"

definition ml_duckdb_stage_mask :: "'e chunk_api \<Rightarrow> 'e appender_api \<Rightarrow> nat \<Rightarrow> int \<Rightarrow> caml_ba_array \<Rightarrow> int \<Rightarrow> int
    \<Rightarrow> 'e world \<Rightarrow> 'e world run" where
  "ml_duckdb_stage_mask C A v c b at' n w =
     bind (appender_at v w) (\<lambda>owner.
     if \<not> stage_range A owner c b at' n \<or> ba_kind b \<noteq> CAML_BA_UINT8
     then stage_fail v ''Bulk mask kind or range mismatch'' w
     else bind (not_null owner) (\<lambda>x.
       bind (staged_chunk x 0) (\<lambda>h.
       bind (slice_bytes (ba_bytes b) (nat at') (nat n)) (\<lambda>m.
       Inr (mask_rows C A (duckdb_data_chunk_get_vector C (Some h) (nat c) (w_engine w)) None
             (enumerate 0 m) w)))))"

definition ml_duckdb_vector_size :: "'e appender_api \<Rightarrow> nat" where
  "ml_duckdb_vector_size A = duckdb_vector_size A"

definition ml_duckdb_clear_stage :: "nat \<Rightarrow> 'e world \<Rightarrow> 'e world run" where
  "ml_duckdb_clear_stage v w = clear_input (Appender w v) w"

subsection \<open>Appending, flushing, closing\<close>

definition staged_size :: "nat \<Rightarrow> nat \<Rightarrow> nat \<Rightarrow> nat" where
  "staged_size per rows k = (if k + 1 < staged_chunks per rows then per else rows - k * per)"

definition append_chunk :: "'e appender_api \<Rightarrow> nat \<Rightarrow> nat \<Rightarrow> nat \<Rightarrow> 'e world \<Rightarrow> 'e world run" where
  "append_chunk A a p k w =
     bind (deref (appenders w) p) (\<lambda>x.
     bind (staged_chunk x k) (\<lambda>h.
     bind (call a Appender_append (duckdb_append_data_chunk A (a_appender x) h) w) (\<lambda>(state, w).
     bind (duckdb_ml_native_user_call_end a w) (\<lambda>w.
     check A p state DUCKDB_ML_RUNTIME_RELEASED w))))"

definition shrink_staged :: "'e chunk_api \<Rightarrow> nat \<Rightarrow> nat \<Rightarrow> 'e world \<Rightarrow> 'e world run" where
  "shrink_staged C a p w =
     bind (deref (appenders w) p) (\<lambda>x.
     if a_staged_capacity x > STAGED_RETAINED
     then bind (duckdb_ml_native_cleanup_begin a DUCKDB_ML_RUNTIME_RELEASED w) (\<lambda>w.
          bind (for_each (destroy_staged C p) [STAGED_RETAINED..<a_staged_capacity x] w) (\<lambda>w.
          bind (on_appender p (\<lambda>x. x\<lparr>a_staged_capacity := STAGED_RETAINED\<rparr>) w) (\<lambda>w.
          duckdb_ml_native_cleanup_end a DUCKDB_ML_RUNTIME_RELEASED w)))
     else Inr w)"

definition append_body :: "'e chunk_api \<Rightarrow> 'e appender_api \<Rightarrow> nat \<Rightarrow> nat \<Rightarrow> nat \<Rightarrow> 'e world \<Rightarrow> (unit \<times> 'e world) run" where
  "append_body C A a p chunks w =
     bind (duckdb_ml_native_work_begin a w) (\<lambda>w.
     bind (for_while (admit_user p) (append_chunk A a p) [0..<chunks] w) (\<lambda>w.
     bind (clear_input (Some p) w) (\<lambda>w.
     bind (shrink_staged C a p w) (\<lambda>w.
     bind (duckdb_ml_native_work_end a w) (\<lambda>w.
     Inr ((), w))))))"

definition ml_duckdb_append_staged :: "'e chunk_api \<Rightarrow> 'e appender_api \<Rightarrow> nat \<Rightarrow> 'e world
    \<Rightarrow> (unit reply \<times> 'e world) run" where
  "ml_duckdb_append_staged C A v w = (case Appender w v of None \<Rightarrow> Inr (Returned (), w)
     | Some p \<Rightarrow>
       bind (deref (appenders w) p) (\<lambda>x.
       if a_appender x = None
       then bind (appender_error p (Some ''Appender is closed'') w) (\<lambda>w.
            bind (clear_input (Some p) w) (\<lambda>w. Inr (Returned (), w)))
       else if a_stage_failed x
       then bind (appender_error p (Some (a_stage_message x)) w) (\<lambda>w.
            bind (clear_input (Some p) w) (\<lambda>w. Inr (Returned (), w)))
       else let per = duckdb_vector_size A; rows = a_staged_rows x; chunks = staged_chunks per rows in
         bind (for_each (\<lambda>k w. bind (staged_chunk x k) (\<lambda>h.
                 Inr (snd (engine (duckdb_data_chunk_set_size A h (staged_size per rows k)) w))))
               [0..<chunks] w) (\<lambda>w.
         blocking (append_body C A (a_parent x) p chunks) w)))"

definition ml_duckdb_flush_appender :: "'e appender_api \<Rightarrow> nat \<Rightarrow> 'e world \<Rightarrow> (unit reply \<times> 'e world) run" where
  "ml_duckdb_flush_appender A v w =
     bind (deref (Appender w) v) (\<lambda>p.
     bind (deref (appenders w) p) (\<lambda>x. let a = a_parent x in
     blocking (\<lambda>w.
       bind (duckdb_ml_native_work_begin a w) (\<lambda>w.
       bind (admit_user p w) (\<lambda>(admitted, w).
       bind (if admitted
             then bind (call a Appender_flush (duckdb_appender_flush A (a_appender x)) w) (\<lambda>(state, w).
                  bind (duckdb_ml_native_user_call_end a w) (\<lambda>w.
                  check A p state DUCKDB_ML_RUNTIME_RELEASED w))
             else Inr w) (\<lambda>w.
       bind (duckdb_ml_native_work_end a w) (\<lambda>w.
       Inr ((), w)))))) w))"

definition ml_duckdb_close_appender :: "'e chunk_api \<Rightarrow> 'e appender_api \<Rightarrow> nat \<Rightarrow> bool \<Rightarrow> 'e world
    \<Rightarrow> (unit reply \<times> 'e world) run" where
  "ml_duckdb_close_appender C A v flush w =
     blocking (\<lambda>w1. bind (close_native C A (Appender w v) flush DUCKDB_ML_RUNTIME_RELEASED w1) (\<lambda>w. Inr ((), w))) w"

subsection \<open>Restricting the columns\<close>

text \<open>The columns selected so far: copied names, types, NULL-ability.\<close>

type_synonym selection = "string list \<times> duckdb_type list \<times> bool list"

text \<open>
  The loop ends early at an index outside the catalog. \<open>None\<close> is the exception of a failed
  copy, which leaves what has been copied so far allocated.
\<close>

primrec select_loop :: "nat \<Rightarrow> int list \<Rightarrow> (nat \<times> string) list \<Rightarrow> selection \<Rightarrow> 'e world
    \<Rightarrow> (selection option \<times> 'e world) run" where
  "select_loop p indices [] s w = Inr (Some s, w)"
| "select_loop p indices (iname # rest) s w =
     bind (at_index indices (fst iname)) (\<lambda>index.
     bind (deref (appenders w) p) (\<lambda>x.
     if index < 0 \<or> nat index \<ge> a_columns x
     then bind (appender_error p (Some ''Declared column index outside the catalog'') w) (\<lambda>w. Inr (Some s, w))
     else bind (not_null (a_types x)) (\<lambda>types.
          bind (at_index types (nat index)) (\<lambda>t.
          bind (not_null (a_nullable x)) (\<lambda>nullable.
          bind (at_index nullable (nat index)) (\<lambda>b.
          case malloc_fails w of (fails, w) \<Rightarrow>
          if fails then Inr (None, w)
          else case s of (copies, ts, bs) \<Rightarrow>
            select_loop p indices rest (copies @ [snd iname], ts @ [t], bs @ [b]) (acquired w)))))))"

definition add_column :: "'e appender_api \<Rightarrow> nat \<Rightarrow> nat \<Rightarrow> string list \<Rightarrow> nat \<Rightarrow> 'e world \<Rightarrow> 'e world run" where
  "add_column A a p copies i w =
     bind (deref (appenders w) p) (\<lambda>x.
     bind (at_index copies i) (\<lambda>name.
     bind (call a Appender_add_column (duckdb_appender_add_column A (a_appender x) (c_string name)) w) (\<lambda>(state, w).
     check A p state DUCKDB_ML_RUNTIME_RELEASED w)))"

text \<open>\<open>free(copies[i])\<close> for every copy, then the array of copies.\<close>

definition free_copies :: "string list \<Rightarrow> 'e world \<Rightarrow> 'e world" where
  "free_copies copies w = (released ^^ Suc (length copies)) w"

definition select_body :: "'e chunk_api \<Rightarrow> 'e appender_api \<Rightarrow> nat \<Rightarrow> nat \<Rightarrow> nat \<Rightarrow> selection \<Rightarrow> 'e world
    \<Rightarrow> (unit \<times> 'e world) run" where
  "select_body C A a p n s w = (case s of (copies, types, nullable) \<Rightarrow>
     bind (deref (appenders w) p) (\<lambda>x.
     bind (if a_logical x \<noteq> None \<or> a_staged x \<noteq> None
           then bind (duckdb_ml_native_cleanup_begin a DUCKDB_ML_RUNTIME_RELEASED w) (\<lambda>w.
                bind (release_staging C A p w) (\<lambda>w.
                duckdb_ml_native_cleanup_end a DUCKDB_ML_RUNTIME_RELEASED w))
           else Inr w) (\<lambda>w.
     bind (duckdb_ml_native_work_begin a w) (\<lambda>w.
     bind (for_while (admit_scalar p) (add_column A a p copies) [0..<n] w) (\<lambda>w.
     bind (duckdb_ml_native_work_end a w) (\<lambda>w.
     bind (on_appender p (\<lambda>x. if a_status x \<noteq> DUCKDB_ML_STATUS_OK then x
            else x\<lparr>a_types := Some types, a_nullable := Some nullable, a_columns := n\<rparr>)
          (free_copies copies w)) (\<lambda>w.
     Inr ((), released (released w)))))))))"

definition ml_duckdb_appender_select_columns :: "'e chunk_api \<Rightarrow> 'e appender_api \<Rightarrow> nat \<Rightarrow> string list \<Rightarrow> int list
    \<Rightarrow> 'e world \<Rightarrow> (unit reply \<times> 'e world) run" where
  "ml_duckdb_appender_select_columns C A v names indices w =
     bind (deref (Appender w) v) (\<lambda>p.
     case malloc_fails w of (fails1, w) \<Rightarrow>
     case malloc_fails w of (fails2, w) \<Rightarrow>
     case malloc_fails w of (fails3, w) \<Rightarrow>
     if fails1 \<or> fails2 \<or> fails3 then Inr (Out_of_memory, w)
     else bind (select_loop p indices (enumerate 0 names) ([], [], []) (acquired (acquired (acquired w)))) (\<lambda>(s, w).
       case s of None \<Rightarrow> Inr (Out_of_memory, w)
       | Some s \<Rightarrow> bind (deref (appenders w) p) (\<lambda>x.
           blocking (select_body C A (a_parent x) p (length names) s) w)))"

definition ml_duckdb_finish_appender_close :: "'e session_api \<Rightarrow> 'e statement_api \<Rightarrow> 'e chunk_api
    \<Rightarrow> 'e appender_api \<Rightarrow> nat \<Rightarrow> 'e world \<Rightarrow> 'e world run" where
  "ml_duckdb_finish_appender_close S T C A v w =
     bind (delete_owner S T C A (Appender w v) w) (\<lambda>w.
     Inr (w\<lparr>Appender := (Appender w)(v := None)\<rparr>))"

subsection \<open>Observers\<close>

definition ml_duckdb_appender_is_closed :: "nat \<Rightarrow> 'e world \<Rightarrow> bool" where
  "ml_duckdb_appender_is_closed v w = (Appender w v = None)"

definition open_appender :: "nat \<Rightarrow> 'e world \<Rightarrow> appender_owner run" where
  "open_appender v w = bind (deref (Appender w) v) (\<lambda>p. deref (appenders w) p)"

definition ml_duckdb_appender_status :: "nat \<Rightarrow> 'e world \<Rightarrow> int run" where
  "ml_duckdb_appender_status v w = bind (open_appender v w) (\<lambda>x. Inr (status_code (a_status x)))"

definition ml_duckdb_appender_message :: "nat \<Rightarrow> 'e world \<Rightarrow> string run" where
  "ml_duckdb_appender_message v w = bind (open_appender v w) (\<lambda>x. Inr (a_message x))"

text \<open>The first \<open>n\<close> elements of an array, read one by one.\<close>

definition read_array :: "'a list option \<Rightarrow> nat \<Rightarrow> 'a list run" where
  "read_array xs n = (if n = 0 then Inr []
     else bind (not_null xs) (\<lambda>xs. if n \<le> length xs then Inr (take n xs) else Inl Bad_memory))"

definition ml_duckdb_appender_types :: "nat \<Rightarrow> 'e world \<Rightarrow> duckdb_type list run" where
  "ml_duckdb_appender_types v w = bind (open_appender v w) (\<lambda>x. read_array (a_types x) (a_columns x))"

definition ml_duckdb_appender_nullable :: "nat \<Rightarrow> 'e world \<Rightarrow> bool list run" where
  "ml_duckdb_appender_nullable v w = bind (open_appender v w) (\<lambda>x. read_array (a_nullable x) (a_columns x))"

end
