(* ===== verification/Local_Files.thy ===== *)
theory Local_Files
  imports Statements
begin

text \<open>
  Publication and removal of a local file (\<open>local_file_stubs.c\<close>). The file system calls are
  the operating system's, a parameter: \<open>link\<close> and \<open>unlink\<close> give 0 or the \<open>errno\<close>. The work
  record owns copies of the paths and, when the publication is admitted on a connection, a
  reference to it.
\<close>

record 'e file_api =
  link :: "string \<Rightarrow> string \<Rightarrow> 'e \<Rightarrow> int \<times> 'e"
  unlink :: "string \<Rightarrow> 'e \<Rightarrow> int \<times> 'e"
  strerror :: "int \<Rightarrow> string"
  ENOENT :: int
  EEXIST :: int

definition file_work0 :: file_work where
  "file_work0 = \<lparr>f_source = None, f_destination = None, f_parent = None\<rparr>"

definition free_source :: "nat \<Rightarrow> 'e world \<Rightarrow> 'e world run" where
  "free_source k w = bind (deref (works w) k) (\<lambda>x.
     if f_source x \<noteq> None
     then bind (on_work k (\<lambda>x. x\<lparr>f_source := None\<rparr>) w) (\<lambda>w. Inr (released w)) else Inr w)"

definition free_destination :: "nat \<Rightarrow> 'e world \<Rightarrow> 'e world run" where
  "free_destination k w = bind (deref (works w) k) (\<lambda>x.
     if f_destination x \<noteq> None
     then bind (on_work k (\<lambda>x. x\<lparr>f_destination := None\<rparr>) w) (\<lambda>w. Inr (released w)) else Inr w)"

definition finish :: "'e session_api \<Rightarrow> 'e statement_api \<Rightarrow> nat \<Rightarrow> 'e world \<Rightarrow> 'e world run" where
  "finish S T v w = (case Work w v of None \<Rightarrow> Inr w | Some k \<Rightarrow>
     bind (free_source k w) (\<lambda>w.
     bind (free_destination k w) (\<lambda>w.
     bind (deref (works w) k) (\<lambda>x.
     bind (case f_parent x of None \<Rightarrow> Inr w
           | Some a \<Rightarrow> duckdb_ml_connection_unref S T (Some a) w) (\<lambda>w.
     Inr (released (w\<lparr>works := (works w)(k := None), Work := (Work w)(v := None)\<rparr>)))))))"

definition finalize_work :: "'e session_api \<Rightarrow> 'e statement_api \<Rightarrow> nat \<Rightarrow> 'e world \<Rightarrow> 'e world run" where
  "finalize_work S T v w = (if Work w v \<noteq> None then finish S T v (count_fallback w) else Inr w)"

definition ml_duckdb_local_file_work :: "'e world \<Rightarrow> (nat reply \<times> 'e world) run" where
  "ml_duckdb_local_file_work w =
     (case fresh w of (v, w) \<Rightarrow>
      case malloc_fails w of (fails, w) \<Rightarrow>
      if fails then Inr (Out_of_memory, w)
      else case fresh w of (k, w) \<Rightarrow>
        Inr (Returned v, acquired (w\<lparr>works := (works w)(k \<mapsto> file_work0), Work := (Work w)(v \<mapsto> k)\<rparr>)))"

text \<open>\<open>link(w->source, w->destination) == 0 ? 0 : errno\<close>\<close>

definition link_paths :: "'e file_api \<Rightarrow> nat \<Rightarrow> 'e world \<Rightarrow> (int \<times> 'e world) run" where
  "link_paths F k w =
     bind (deref (works w) k) (\<lambda>x.
     bind (not_null (f_source x)) (\<lambda>source.
     bind (not_null (f_destination x)) (\<lambda>destination.
     Inr (engine (link F (c_string source) (c_string destination)) w))))"

text \<open>Both paths are copied into the work record; a failed copy raises.\<close>

definition with_paths :: "nat \<Rightarrow> string \<Rightarrow> string \<Rightarrow> (nat \<Rightarrow> 'e world \<Rightarrow> ('a reply \<times> 'e world) run) \<Rightarrow> 'e world
    \<Rightarrow> ('a reply \<times> 'e world) run" where
  "with_paths v source destination body w =
     bind (deref (Work w) v) (\<lambda>k.
     case malloc_fails w of (fails, w) \<Rightarrow>
     if fails then Inr (Out_of_memory, w)
     else bind (on_work k (\<lambda>x. x\<lparr>f_source := Some source\<rparr>) w) (\<lambda>w.
     case malloc_fails (acquired w) of (fails, w) \<Rightarrow>
     if fails then Inr (Out_of_memory, w)
     else bind (on_work k (\<lambda>x. x\<lparr>f_destination := Some destination\<rparr>) w) (\<lambda>w.
     body k (acquired w))))"

definition ml_duckdb_publish_local_file :: "'e file_api \<Rightarrow> nat \<Rightarrow> string \<Rightarrow> string \<Rightarrow> 'e world
    \<Rightarrow> (int reply \<times> 'e world) run" where
  "ml_duckdb_publish_local_file F v source destination =
     with_paths v source destination (\<lambda>k. blocking (link_paths F k))"

definition ml_duckdb_publish_local_file_admitted :: "'e file_api \<Rightarrow> nat \<Rightarrow> nat \<Rightarrow> string \<Rightarrow> string \<Rightarrow> 'e world
    \<Rightarrow> (int reply \<times> 'e world) run" where
  "ml_duckdb_publish_local_file_admitted F connection v source destination =
     with_paths v source destination (\<lambda>k w.
       bind (duckdb_ml_connection_ref connection w) (\<lambda>(a, w).
       bind (on_work k (\<lambda>x. x\<lparr>f_parent := Some a\<rparr>) w) (\<lambda>w.
       blocking (\<lambda>w.
         bind (duckdb_ml_native_work_begin a w) (\<lambda>w.
         bind (duckdb_ml_native_noninterruptible_call_begin a w) (\<lambda>(admission, w).
         bind (if admission = DUCKDB_ML_CALL_CANCELLED then Inr (- 1, w) else link_paths F k w) (\<lambda>(result, w).
         bind (duckdb_ml_native_work_end a w) (\<lambda>w.
         Inr (result, w)))))) w)))"

definition ml_duckdb_remove_local_file :: "'e file_api \<Rightarrow> nat \<Rightarrow> string \<Rightarrow> 'e world \<Rightarrow> (int reply \<times> 'e world) run" where
  "ml_duckdb_remove_local_file F v source w =
     bind (deref (Work w) v) (\<lambda>k.
     case malloc_fails w of (fails, w) \<Rightarrow>
     if fails then Inr (Out_of_memory, w)
     else bind (on_work k (\<lambda>x. x\<lparr>f_source := Some source\<rparr>) w) (\<lambda>w.
     blocking (\<lambda>w.
       bind (deref (works w) k) (\<lambda>x.
       bind (not_null (f_source x)) (\<lambda>source.
       case engine (unlink F (c_string source)) w of (result, w) \<Rightarrow>
       Inr (if result = ENOENT F then 0 else result, w)))) (acquired w)))"

definition ml_duckdb_finish_local_file_work :: "'e session_api \<Rightarrow> 'e statement_api \<Rightarrow> nat \<Rightarrow> 'e world \<Rightarrow> 'e world run" where
  "ml_duckdb_finish_local_file_work = finish"

definition ml_duckdb_file_error_message :: "'e file_api \<Rightarrow> int \<Rightarrow> string" where
  "ml_duckdb_file_error_message F e = strerror F e"

definition ml_duckdb_file_exists_error :: "'e file_api \<Rightarrow> int \<Rightarrow> bool" where
  "ml_duckdb_file_exists_error F e = (e = EEXIST F)"

end
