(* ===== verification/Samples.thy ===== *)
theory Samples
  imports Staging Local_Files
begin

text \<open>
  A small engine and a small world in which the properties' hypotheses hold: the API
  parameters as concrete functions, and a database with one connection, an installed
  request and a prepared statement that holds a chunk. The engine's state is the number of
  handles it has given out.
\<close>

subsection \<open>An engine\<close>

definition sample_session :: "nat session_api" where
  "sample_session = \<lparr>duckdb_library_version = ''v1.5.5'',
     duckdb_create_config = \<lambda>e. ((DuckDBSuccess, Some e), Suc e),
     duckdb_set_config = \<lambda>h name setting e. (DuckDBSuccess, e),
     duckdb_destroy_config = \<lambda>h e. (None, e),
     duckdb_open_ext = \<lambda>path config e. ((DuckDBSuccess, Some e, None), Suc e),
     duckdb_close = \<lambda>h e. (None, e),
     duckdb_connect = \<lambda>h e. ((DuckDBSuccess, Some e), Suc e),
     duckdb_disconnect = \<lambda>h e. (None, e),
     duckdb_interrupt = \<lambda>h e. e\<rparr>"

definition sample_statements :: "nat statement_api" where
  "sample_statements = \<lparr>duckdb_query = \<lambda>h sql e. ((DuckDBSuccess, e), Suc e),
     duckdb_result_error = \<lambda>r e. None,
     duckdb_destroy_result = \<lambda>r e. (0, e),
     duckdb_extract_statements = \<lambda>h sql e. ((1, Some e), Suc e),
     duckdb_extract_statements_error = \<lambda>h e. None,
     duckdb_destroy_extracted = \<lambda>h e. (None, e),
     duckdb_prepare_extracted_statement = \<lambda>h x i e. ((DuckDBSuccess, Some e), Suc e),
     duckdb_prepare_error = \<lambda>h e. None,
     duckdb_prepared_statement_type = \<lambda>h e. DUCKDB_STATEMENT_TYPE_CREATE,
     duckdb_execute_prepared = \<lambda>h e. ((DuckDBSuccess, e), Suc e),
     duckdb_destroy_prepare = \<lambda>h e. (None, e)\<rparr>"

text \<open>
  Its memory: 64-bit elements at 64, a mask at 128 in which row 1 is NULL. Each chunk has one
  column and three rows.
\<close>

definition sample_memory :: "nat \<Rightarrow> 8 word option" where
  "sample_memory k = (if k < 64 then None else if k < 128 then Some (word_of_nat k)
     else if k = 128 then Some 5 else if k < 256 then Some 0 else None)"

definition sample_chunks :: "nat chunk_api" where
  "sample_chunks = \<lparr>duckdb_fetch_chunk = \<lambda>r e. (Some e, Suc e),
     duckdb_destroy_data_chunk = \<lambda>h e. (None, e),
     duckdb_data_chunk_get_column_count = \<lambda>h e. 1,
     duckdb_data_chunk_get_size = \<lambda>h e. 3,
     duckdb_data_chunk_get_vector = \<lambda>h c e. c,
     duckdb_vector_get_data = \<lambda>x e. 64,
     duckdb_vector_get_validity = \<lambda>x e. Some 128,
     duckdb_column_count = \<lambda>r e. 1,
     duckdb_column_type = \<lambda>r c e. DUCKDB_TYPE_BIGINT,
     duckdb_nparams = \<lambda>h e. 0,
     duckdb_param_type = \<lambda>h i e. DUCKDB_TYPE_BIGINT,
     duckdb_prepared_statement_column_count = \<lambda>h e. 1,
     duckdb_prepared_statement_column_type = \<lambda>h c e. DUCKDB_TYPE_BIGINT,
     sizeof_duckdb_string_t = 16,
     duckdb_string_t_length = \<lambda>x e. 0,
     duckdb_string_t_data = \<lambda>x e. 0,
     mapped = \<lambda>e. sample_memory\<rparr>"

lemmas sample_engine = sample_session_def sample_statements_def sample_chunks_def

subsection \<open>Worlds\<close>

definition empty_world :: "'e \<Rightarrow> 'e world" where
  "empty_world e = \<lparr>w_next = 0, w_oom = [], w_pending = [], w_live = 0, w_fallback = 0,
     w_schema_epoch = 0, w_engine = e, w_log = [],
     databases = Map.empty, connections = Map.empty, requests = Map.empty,
     prepareds = Map.empty, appenders = Map.empty, works = Map.empty,
     Database = Map.empty, Connection = Map.empty, Native_request = Map.empty,
     Prepared = Map.empty, Appender = Map.empty, Work = Map.empty\<rparr>"

lemma empty_world_simps [simp]:
  "w_next (empty_world e) = 0" "w_oom (empty_world e) = []" "w_pending (empty_world e) = []"
  "w_live (empty_world e) = 0" "w_fallback (empty_world e) = 0" "w_schema_epoch (empty_world e) = 0"
  "w_engine (empty_world e) = e" "w_log (empty_world e) = []"
  "databases (empty_world e) = Map.empty" "connections (empty_world e) = Map.empty"
  "requests (empty_world e) = Map.empty" "prepareds (empty_world e) = Map.empty"
  "appenders (empty_world e) = Map.empty" "works (empty_world e) = Map.empty"
  "Database (empty_world e) = Map.empty" "Connection (empty_world e) = Map.empty"
  "Native_request (empty_world e) = Map.empty" "Prepared (empty_world e) = Map.empty"
  "Appender (empty_world e) = Map.empty" "Work (empty_world e) = Map.empty"
  by (simp_all add: empty_world_def)

text \<open>The connection holds references from its slot, the request and the prepared statement.\<close>

definition sample_connection :: connection_owner where
  "sample_connection = connection_owner0\<lparr>c_references := 3, c_parent := 2, c_connection := Some 90,
     c_active_request := Some 4\<rparr>"

definition sample_request :: "bool \<Rightarrow> duckdb_ml_native_request" where
  "sample_request cancelled = \<lparr>r_owner = Some 3, r_state = DUCKDB_ML_REQUEST_INSTALLED,
     r_reserved = False, r_cancelled = cancelled\<rparr>"

definition sample_vector :: duckdb_ml_vector where
  "sample_vector = \<lparr>v_data = 64, v_validity = Some 128, v_type = DUCKDB_TYPE_BIGINT, v_width = 8\<rparr>"

definition sample_prepared :: prepared_owner where
  "sample_prepared = prepared_owner0\<lparr>p_parent := 3, p_prepared := Some 91, p_result := 92, p_has_result := True,
     p_chunk := Some 93, p_vectors := Some [sample_vector], p_vector_count := 1, p_chunk_rows := 3\<rparr>"

definition sample_world :: "bool \<Rightarrow> nat world" where
  "sample_world cancelled = (empty_world 94)\<lparr>w_next := 20, w_live := 9,
     databases := [2 \<mapsto> database_owner0\<lparr>d_references := 2, d_database := Some 89\<rparr>],
     connections := [3 \<mapsto> sample_connection], requests := [4 \<mapsto> sample_request cancelled],
     prepareds := [5 \<mapsto> sample_prepared], Database := [10 \<mapsto> 2], Connection := [11 \<mapsto> 3],
     Native_request := [12 \<mapsto> 4], Prepared := [13 \<mapsto> 5]\<rparr>"

lemmas sample_defs = sample_world_def sample_connection_def sample_request_def sample_prepared_def
  sample_vector_def connection_owner0_def database_owner0_def prepared_owner0_def

end
