(* ===== verification/Evolution.thy ===== *)
theory Evolution
  imports Native_Guard
begin

text \<open>
  How a stub changes the world between its first and its last engine call. \<open>evo X Y k w0 w\<close>
  says that \<open>w\<close> comes from \<open>w0\<close> without allocating, freeing or re-linking an owner: the
  slots, the reference counts and the links between owners are those of \<open>w0\<close>, native flags
  changed only at the connections in \<open>X\<close>, the contents of an owner only at the addresses in
  \<open>Y\<close>, the counter of live resources is off by \<open>k\<close> from what the owners hold, and every
  engine call made in between respects the phase discipline. \<open>native\<close> is the state of the
  flags of one connection, \<open>during\<close> both together. The lemmas give the triple of each
  primitive step; the stubs' triples are chains of them.
\<close>

subsection \<open>The phase discipline\<close>

fun destructor :: "engine_call \<Rightarrow> bool" where
  "destructor Disconnect = True"
| "destructor Appender_clear = True"
| "destructor Appender_destroy = True"
| "destructor Destroy_result = True"
| "destructor Destroy_prepare = True"
| "destructor Destroy_extracted = True"
| "destructor Destroy_chunk = True"
| "destructor Destroy_value = True"
| "destructor Destroy_error_data = True"
| "destructor Destroy_logical_type = True"
| "destructor _ = False"

fun interruptible :: "engine_call \<Rightarrow> bool" where
  "interruptible (Query sql) = True"
| "interruptible (Extract sql) = True"
| "interruptible Prepare = True"
| "interruptible (Execute t) = True"
| "interruptible Fetch = True"
| "interruptible Appender_append = True"
| "interruptible Appender_flush = True"
| "interruptible Appender_close = True"
| "interruptible Interrupt = True"
| "interruptible _ = False"

text \<open>
  Destructors run in a cleanup or closing phase, and only the calls a user waits for may run
  in the phase that lets a controller interrupt the engine.
\<close>

fun disciplined :: "event \<Rightarrow> bool" where
  "disciplined (Engine a phase k) =
     ((destructor k \<longrightarrow> phase = DUCKDB_ML_NATIVE_CLEANUP \<or> phase = DUCKDB_ML_NATIVE_CLOSING) \<and>
      (phase = DUCKDB_ML_NATIVE_USER \<longrightarrow> interruptible k))"
| "disciplined Epoch_advanced = True"

definition log_disciplined :: "'e world \<Rightarrow> bool" where
  "log_disciplined w \<longleftrightarrow> (\<forall>ev\<in>set (w_log w). disciplined ev)"

subsection \<open>Evolution\<close>

definition slack :: "'e world \<Rightarrow> 32 word" where
  "slack w = w_live w - of_nat (resources w)"

definition same_links :: "connection_owner \<Rightarrow> connection_owner \<Rightarrow> bool" where
  "same_links c c' \<longleftrightarrow> c_references c' = c_references c \<and> c_parent c' = c_parent c \<and>
     c_active_request c' = c_active_request c"

definition same_contents :: "connection_owner \<Rightarrow> connection_owner \<Rightarrow> bool" where
  "same_contents c c' \<longleftrightarrow> c_connection c' = c_connection c \<and> c_sql c' = c_sql c \<and>
     c_extracted c' = c_extracted c \<and> c_prepared c' = c_prepared c \<and> c_result c' = c_result c \<and>
     c_has_result c' = c_has_result c \<and> c_status c' = c_status c \<and> c_message c' = c_message c \<and>
     c_schema_dirty c' = c_schema_dirty c"

definition evo_database :: "nat set \<Rightarrow> nat \<Rightarrow> database_owner \<Rightarrow> database_owner \<Rightarrow> bool" where
  "evo_database Y d x y \<longleftrightarrow> d_references y = d_references x \<and> (d \<notin> Y \<longrightarrow> y = x)"

definition evo_connection :: "nat set \<Rightarrow> nat set \<Rightarrow> nat \<Rightarrow> connection_owner \<Rightarrow> connection_owner \<Rightarrow> bool" where
  "evo_connection X Y a x y \<longleftrightarrow> same_links x y \<and> (a \<notin> Y \<longrightarrow> same_contents x y) \<and> (a \<notin> X \<longrightarrow> y = x)"

definition evo_prepared :: "nat set \<Rightarrow> nat \<Rightarrow> prepared_owner \<Rightarrow> prepared_owner \<Rightarrow> bool" where
  "evo_prepared Y p x y \<longleftrightarrow> p_parent y = p_parent x \<and> (p \<notin> Y \<longrightarrow> y = x)"

definition evo_appender :: "nat set \<Rightarrow> nat \<Rightarrow> appender_owner \<Rightarrow> appender_owner \<Rightarrow> bool" where
  "evo_appender Y p x y \<longleftrightarrow> a_parent y = a_parent x \<and> (p \<notin> Y \<longrightarrow> y = x)"

definition evo_work :: "nat set \<Rightarrow> nat \<Rightarrow> file_work \<Rightarrow> file_work \<Rightarrow> bool" where
  "evo_work Y k x y \<longleftrightarrow> f_parent y = f_parent x \<and> (k \<notin> Y \<longrightarrow> y = x)"

text \<open>Two heaps with the same cells, related one by one.\<close>

definition heap_rel :: "('k \<Rightarrow> 'v \<Rightarrow> 'v \<Rightarrow> bool) \<Rightarrow> ('k \<rightharpoonup> 'v) \<Rightarrow> ('k \<rightharpoonup> 'v) \<Rightarrow> bool" where
  "heap_rel R m m' \<longleftrightarrow> (\<forall>k. rel_option (R k) (m k) (m' k))"

definition heaps_below :: "'e world \<Rightarrow> bool" where
  "heaps_below w \<longleftrightarrow> dom (databases w) \<subseteq> {..<w_next w} \<and> dom (connections w) \<subseteq> {..<w_next w} \<and>
     dom (requests w) \<subseteq> {..<w_next w} \<and> dom (prepareds w) \<subseteq> {..<w_next w} \<and>
     dom (appenders w) \<subseteq> {..<w_next w} \<and> dom (works w) \<subseteq> {..<w_next w}"

definition same_slots :: "'e world \<Rightarrow> 'e world \<Rightarrow> bool" where
  "same_slots w w' \<longleftrightarrow> Database w' = Database w \<and> Connection w' = Connection w \<and>
     Native_request w' = Native_request w \<and> Prepared w' = Prepared w \<and> Appender w' = Appender w \<and>
     Work w' = Work w \<and> w_next w' = w_next w \<and> w_fallback w' = w_fallback w"

definition evo :: "nat set \<Rightarrow> nat set \<Rightarrow> 32 word \<Rightarrow> 'e world \<Rightarrow> 'e world \<Rightarrow> bool" where
  "evo X Y k w0 w \<longleftrightarrow> heaps_below w \<and> same_slots w0 w \<and> requests w = requests w0 \<and>
     heap_rel (evo_database Y) (databases w0) (databases w) \<and>
     heap_rel (evo_connection X Y) (connections w0) (connections w) \<and>
     heap_rel (evo_prepared Y) (prepareds w0) (prepareds w) \<and>
     heap_rel (evo_appender Y) (appenders w0) (appenders w) \<and>
     heap_rel (evo_work Y) (works w0) (works w) \<and>
     slack w = slack w0 + k \<and>
     (log_disciplined w0 \<longrightarrow> log_disciplined w)"

lemmas evo_cells = evo_database_def evo_connection_def evo_prepared_def evo_appender_def
  evo_work_def same_links_def same_contents_def

subsubsection \<open>Generic facts on related heaps\<close>

lemma heap_rel_refl: "(\<And>k v. R k v v) \<Longrightarrow> heap_rel R m m"
  by (simp add: heap_rel_def option.rel_refl)

lemma heap_rel_trans:
  assumes "heap_rel R m1 m2" and "heap_rel R' m2 m3" and "\<And>k x y z. R k x y \<Longrightarrow> R' k y z \<Longrightarrow> S k x z"
  shows "heap_rel S m1 m3"
proof -
  have "rel_option (S k) (m1 k) (m3 k)" for k
    using assms(1,2) [unfolded heap_rel_def, rule_format, of k] assms(3)
    by (cases "m1 k"; cases "m2 k"; cases "m3 k") auto
  then show ?thesis by (simp add: heap_rel_def)
qed

lemma heap_rel_mono:
  assumes "heap_rel R m m'" and "\<And>k x y. R k x y \<Longrightarrow> S k x y"
  shows "heap_rel S m m'"
  using assms by (auto simp: heap_rel_def intro: option.rel_mono_strong)

lemma heap_rel_update:
  assumes "heap_rel R m m'" and "m' k = Some y" and "\<And>x. R k x y \<Longrightarrow> R k x y'"
  shows "heap_rel R m (m'(k \<mapsto> y'))"
proof -
  have "rel_option (R j) (m j) ((m'(k \<mapsto> y')) j)" for j
    using assms(1) [unfolded heap_rel_def, rule_format, of j] assms(2,3)
    by (cases "m j") auto
  then show ?thesis by (simp add: heap_rel_def)
qed

lemma heap_rel_Some:
  assumes "heap_rel R m m'" and "m k = Some x"
  obtains y where "m' k = Some y" and "R k x y"
  using assms(1) [unfolded heap_rel_def, rule_format, of k] assms(2) by (cases "m' k") auto

lemma heap_rel_Some':
  assumes "heap_rel R m m'" and "m' k = Some y"
  obtains x where "m k = Some x" and "R k x y"
  using assms(1) [unfolded heap_rel_def, rule_format, of k] assms(2) by (cases "m k") auto

lemma heap_rel_None: "heap_rel R m m' \<Longrightarrow> m' k = None \<longleftrightarrow> m k = None"
  unfolding heap_rel_def by (metis option.rel_distinct(1,2) option.exhaust)

lemma heap_rel_dom: "heap_rel R m m' \<Longrightarrow> dom m' = dom m"
  using heap_rel_None [of R m m'] by (auto simp: dom_def)

lemma finite_below: "dom m \<subseteq> {..<n :: nat} \<Longrightarrow> finite (dom m)"
  by (rule finite_subset) auto

lemma heaps_below_finite:
  assumes "heaps_below w"
  shows "finite (dom (databases w))" "finite (dom (connections w))" "finite (dom (requests w))"
    "finite (dom (prepareds w))" "finite (dom (appenders w))" "finite (dom (works w))"
  using assms by (auto simp: heaps_below_def intro: finite_below)

subsubsection \<open>Evolution composes\<close>

lemma evo_refl: "heaps_below w \<Longrightarrow> evo X Y 0 w w"
  by (auto simp: evo_def same_slots_def evo_cells intro!: heap_rel_refl)

lemma same_trans:
  "same_links x y \<Longrightarrow> same_links y z \<Longrightarrow> same_links x z"
  "same_contents x y \<Longrightarrow> same_contents y z \<Longrightarrow> same_contents x z"
  by (simp_all add: same_links_def same_contents_def)

lemma evo_cells_trans:
  assumes "X \<subseteq> Z" and "X' \<subseteq> Z" and "Y \<subseteq> V" and "Y' \<subseteq> V"
  shows "evo_database Y k d d' \<Longrightarrow> evo_database Y' k d' d'' \<Longrightarrow> evo_database V k d d''"
    and "evo_connection X Y k c c' \<Longrightarrow> evo_connection X' Y' k c' c'' \<Longrightarrow> evo_connection Z V k c c''"
    and "evo_prepared Y k p p' \<Longrightarrow> evo_prepared Y' k p' p'' \<Longrightarrow> evo_prepared V k p p''"
    and "evo_appender Y k x x' \<Longrightarrow> evo_appender Y' k x' x'' \<Longrightarrow> evo_appender V k x x''"
    and "evo_work Y k f f' \<Longrightarrow> evo_work Y' k f' f'' \<Longrightarrow> evo_work V k f f''"
  using assms same_trans [of c c' c'']
  by (auto simp: evo_database_def evo_connection_def evo_prepared_def evo_appender_def evo_work_def)

lemma evo_trans:
  assumes "evo X Y k w0 w1" and "evo X' Y' k' w1 w2" and "X \<subseteq> Z" and "X' \<subseteq> Z" and "Y \<subseteq> V" and "Y' \<subseteq> V"
  shows "evo Z V (k + k') w0 w2"
proof -
  note 1 = assms(1) [unfolded evo_def] and 2 = assms(2) [unfolded evo_def]
  note cells = evo_cells_trans [OF assms(3-6)]
  have "heap_rel (evo_database V) (databases w0) (databases w2)"
    using heap_rel_trans 1 2 cells(1) by blast
  moreover have "heap_rel (evo_connection Z V) (connections w0) (connections w2)"
    using heap_rel_trans 1 2 cells(2) by blast
  moreover have "heap_rel (evo_prepared V) (prepareds w0) (prepareds w2)"
    using heap_rel_trans 1 2 cells(3) by blast
  moreover have "heap_rel (evo_appender V) (appenders w0) (appenders w2)"
    using heap_rel_trans 1 2 cells(4) by blast
  moreover have "heap_rel (evo_work V) (works w0) (works w2)"
    using heap_rel_trans 1 2 cells(5) by blast
  ultimately show ?thesis
    using 1 2 unfolding evo_def same_slots_def by (simp add: add.assoc)
qed

lemma evo_below: "evo X Y k w0 w \<Longrightarrow> heaps_below w"
  by (simp add: evo_def)

lemma evo_mono: "evo X Y k w0 w \<Longrightarrow> X \<subseteq> X' \<Longrightarrow> Y \<subseteq> Y' \<Longrightarrow> evo X' Y' k w0 w"
  using evo_trans [of X Y k w0 w X Y 0 w X' Y'] evo_refl [of w X Y]
  by (auto simp: evo_def)

subsubsection \<open>Updates of one cell\<close>

lemma of_nat_shift: "m' + b = m + b' \<Longrightarrow> (of_nat m' :: 32 word) = of_nat m + of_nat b' - of_nat b"
  by (metis add_diff_cancel_right' of_nat_add)

lemma slack_put:
  assumes "heaps_below w"
  shows "databases w d = Some x \<Longrightarrow> slack (put_database d x' w) =
      slack w + of_nat (database_resources x) - of_nat (database_resources x')"
    and "connections w a = Some c \<Longrightarrow> slack (put_connection a c' w) =
      slack w + of_nat (connection_resources c) - of_nat (connection_resources c')"
    and "prepareds w p = Some pr \<Longrightarrow> slack (put_prepared p pr' w) =
      slack w + of_nat (prepared_resources pr) - of_nat (prepared_resources pr')"
    and "appenders w p = Some y \<Longrightarrow> slack (put_appender p y' w) =
      slack w + of_nat (appender_resources y) - of_nat (appender_resources y')"
    and "works w j = Some f \<Longrightarrow> slack (put_work j f' w) =
      slack w + of_nat (work_resources f) - of_nat (work_resources f')"
proof -
  note fin = heaps_below_finite [OF assms]
  show "databases w d = Some x \<Longrightarrow> slack (put_database d x' w) =
      slack w + of_nat (database_resources x) - of_nat (database_resources x')"
    using of_nat_shift [OF msum_update [OF fin(1), of d x x' database_resources]]
    by (simp add: slack_def resources_def)
  show "connections w a = Some c \<Longrightarrow> slack (put_connection a c' w) =
      slack w + of_nat (connection_resources c) - of_nat (connection_resources c')"
    using of_nat_shift [OF msum_update [OF fin(2), of a c c' connection_resources]]
    by (simp add: slack_def resources_def)
  show "prepareds w p = Some pr \<Longrightarrow> slack (put_prepared p pr' w) =
      slack w + of_nat (prepared_resources pr) - of_nat (prepared_resources pr')"
    using of_nat_shift [OF msum_update [OF fin(4), of p pr pr' prepared_resources]]
    by (simp add: slack_def resources_def)
  show "appenders w p = Some y \<Longrightarrow> slack (put_appender p y' w) =
      slack w + of_nat (appender_resources y) - of_nat (appender_resources y')"
    using of_nat_shift [OF msum_update [OF fin(5), of p y y' appender_resources]]
    by (simp add: slack_def resources_def)
  show "works w j = Some f \<Longrightarrow> slack (put_work j f' w) =
      slack w + of_nat (work_resources f) - of_nat (work_resources f')"
    using of_nat_shift [OF msum_update [OF fin(6), of j f f' work_resources]]
    by (simp add: slack_def resources_def)
qed

lemma dom_below_update: "dom m \<subseteq> {..<n :: nat} \<Longrightarrow> m k = Some v \<Longrightarrow> dom (m(k \<mapsto> v')) \<subseteq> {..<n}"
  by auto

lemma heaps_below_put:
  assumes "heaps_below w"
  shows "databases w d = Some x \<Longrightarrow> heaps_below (put_database d x' w)"
    and "connections w a = Some c \<Longrightarrow> heaps_below (put_connection a c' w)"
    and "prepareds w p = Some pr \<Longrightarrow> heaps_below (put_prepared p pr' w)"
    and "appenders w p = Some y \<Longrightarrow> heaps_below (put_appender p y' w)"
    and "works w j = Some f \<Longrightarrow> heaps_below (put_work j f' w)"
  using assms by (auto simp: heaps_below_def)

lemma log_disciplined_put [simp]:
  "log_disciplined (put_database d x w) = log_disciplined w"
  "log_disciplined (put_connection a c w) = log_disciplined w"
  "log_disciplined (put_prepared p pr w) = log_disciplined w"
  "log_disciplined (put_appender p y w) = log_disciplined w"
  "log_disciplined (put_work j f w) = log_disciplined w"
  by (simp_all add: log_disciplined_def)

lemma evo_put_connection:
  assumes "evo X Y k w0 w" and "connections w a = Some c" and "a \<in> X" and "same_links c c'"
    and "a \<in> Y \<or> same_contents c c'"
  shows "evo X Y (k + of_nat (connection_resources c) - of_nat (connection_resources c')) w0 (put_connection a c' w)"
proof -
  note e = assms(1) [unfolded evo_def]
  have "heap_rel (evo_connection X Y) (connections w0) ((connections w)(a \<mapsto> c'))"
  proof (rule heap_rel_update)
    fix x
    assume "evo_connection X Y a x c"
    then show "evo_connection X Y a x c'"
      using assms(3-5) same_trans [of x c c'] by (auto simp: evo_connection_def)
  qed (use e assms(2) in simp_all)
  then show ?thesis
    using e slack_put(2) [of w a c c'] heaps_below_put(2) [of w a c c'] assms(2)
    by (simp add: evo_def same_slots_def)
qed

lemma evo_put_database:
  assumes "evo X Y k w0 w" and "databases w d = Some x" and "d \<in> Y" and "d_references x' = d_references x"
  shows "evo X Y (k + of_nat (database_resources x) - of_nat (database_resources x')) w0 (put_database d x' w)"
proof -
  note e = assms(1) [unfolded evo_def]
  have "heap_rel (evo_database Y) (databases w0) ((databases w)(d \<mapsto> x'))"
    by (rule heap_rel_update) (use e assms(2-) in \<open>auto simp: evo_database_def\<close>)
  then show ?thesis
    using e slack_put(1) [of w d x x'] heaps_below_put(1) [of w d x x'] assms(2)
    by (simp add: evo_def same_slots_def)
qed

lemma evo_put_prepared:
  assumes "evo X Y k w0 w" and "prepareds w p = Some pr" and "p \<in> Y" and "p_parent pr' = p_parent pr"
  shows "evo X Y (k + of_nat (prepared_resources pr) - of_nat (prepared_resources pr')) w0 (put_prepared p pr' w)"
proof -
  note e = assms(1) [unfolded evo_def]
  have "heap_rel (evo_prepared Y) (prepareds w0) ((prepareds w)(p \<mapsto> pr'))"
    by (rule heap_rel_update) (use e assms(2-) in \<open>auto simp: evo_prepared_def\<close>)
  then show ?thesis
    using e slack_put(3) [of w p pr pr'] heaps_below_put(3) [of w p pr pr'] assms(2)
    by (simp add: evo_def same_slots_def)
qed

lemma evo_put_appender:
  assumes "evo X Y k w0 w" and "appenders w p = Some y" and "p \<in> Y" and "a_parent y' = a_parent y"
  shows "evo X Y (k + of_nat (appender_resources y) - of_nat (appender_resources y')) w0 (put_appender p y' w)"
proof -
  note e = assms(1) [unfolded evo_def]
  have "heap_rel (evo_appender Y) (appenders w0) ((appenders w)(p \<mapsto> y'))"
    by (rule heap_rel_update) (use e assms(2-) in \<open>auto simp: evo_appender_def\<close>)
  then show ?thesis
    using e slack_put(4) [of w p y y'] heaps_below_put(4) [of w p y y'] assms(2)
    by (simp add: evo_def same_slots_def)
qed

lemma evo_put_work:
  assumes "evo X Y k w0 w" and "works w j = Some f" and "j \<in> Y" and "f_parent f' = f_parent f"
  shows "evo X Y (k + of_nat (work_resources f) - of_nat (work_resources f')) w0 (put_work j f' w)"
proof -
  note e = assms(1) [unfolded evo_def]
  have "heap_rel (evo_work Y) (works w0) ((works w)(j \<mapsto> f'))"
    by (rule heap_rel_update) (use e assms(2-) in \<open>auto simp: evo_work_def\<close>)
  then show ?thesis
    using e slack_put(5) [of w j f f'] heaps_below_put(5) [of w j f f'] assms(2)
    by (simp add: evo_def same_slots_def)
qed

text \<open>Changes outside the heaps.\<close>

lemma heaps_below_outside [simp]:
  "heaps_below (w\<lparr>w_oom := os\<rparr>) = heaps_below w" "heaps_below (w\<lparr>w_pending := ps\<rparr>) = heaps_below w"
  "heaps_below (w\<lparr>w_engine := e\<rparr>) = heaps_below w" "heaps_below (w\<lparr>w_live := l\<rparr>) = heaps_below w"
  "heaps_below (w\<lparr>w_log := evs\<rparr>) = heaps_below w" "heaps_below (w\<lparr>w_schema_epoch := x\<rparr>) = heaps_below w"
  by (simp_all add: heaps_below_def)

lemma counters_outside [simp]:
  "heaps_below (acquired w) = heaps_below w" "heaps_below (released w) = heaps_below w"
  "log_disciplined (acquired w) = log_disciplined w" "log_disciplined (released w) = log_disciplined w"
  by (simp_all add: heaps_below_def log_disciplined_def)

lemma slack_outside [simp]:
  "slack (w\<lparr>w_oom := os\<rparr>) = slack w" "slack (w\<lparr>w_pending := ps\<rparr>) = slack w"
  "slack (w\<lparr>w_engine := e\<rparr>) = slack w" "slack (w\<lparr>w_log := evs\<rparr>) = slack w"
  "slack (w\<lparr>w_schema_epoch := x\<rparr>) = slack w"
  "slack (acquired w) = slack w + 1" "slack (released w) = slack w - 1"
  by (simp_all add: slack_def resources_def acquired_def released_def)

lemma log_disciplined_outside [simp]:
  "log_disciplined (w\<lparr>w_oom := os\<rparr>) = log_disciplined w" "log_disciplined (w\<lparr>w_pending := ps\<rparr>) = log_disciplined w"
  "log_disciplined (w\<lparr>w_engine := e\<rparr>) = log_disciplined w" "log_disciplined (w\<lparr>w_live := l\<rparr>) = log_disciplined w"
  "log_disciplined (w\<lparr>w_schema_epoch := x\<rparr>) = log_disciplined w"
  "log_disciplined (w\<lparr>w_log := ev # evs\<rparr>) \<longleftrightarrow> disciplined ev \<and> log_disciplined (w\<lparr>w_log := evs\<rparr>)"
  "log_disciplined (w\<lparr>w_log := w_log w\<rparr>) = log_disciplined w"
  by (simp_all add: log_disciplined_def)

lemma evo_outside:
  assumes "evo X Y k w0 w"
  shows "evo X Y k w0 (w\<lparr>w_oom := os\<rparr>)" and "evo X Y k w0 (w\<lparr>w_pending := ps\<rparr>)"
    and "evo X Y k w0 (w\<lparr>w_engine := e\<rparr>)"
    and "evo X Y (k + 1) w0 (acquired w)" and "evo X Y (k - 1) w0 (released w)"
    and "evo X Y k w0 (w\<lparr>w_schema_epoch := x, w_log := Epoch_advanced # w_log w\<rparr>)"
  using assms unfolding evo_def same_slots_def by (simp_all add: add.assoc add.commute)

lemma evo_call:
  assumes "evo X Y k w0 w" and "disciplined (Engine a phase j)"
  shows "evo X Y k w0 (w\<lparr>w_engine := e, w_log := Engine a phase j # w_log w\<rparr>)"
  using assms unfolding evo_def same_slots_def by (simp del: disciplined.simps)

end
