(* ===== verification/Brackets.thy ===== *)
theory Brackets
  imports Evolution
begin

text \<open>
  The native state of one connection while a stub runs on it, and the triples of the steps
  every stub is made of: the guarded operations, engine calls, updates of an owner, the
  resource counter, allocation and the runtime transitions. \<open>bracket\<close> is the contract of an
  enter/leave pair; the work bracket and the two cleanup brackets are its interpretations.
\<close>

subsection \<open>The state during a stub\<close>

text \<open>
  \<open>native a f n c u w\<close>: the connection at \<open>a\<close> is unlocked, \<open>foreign_active\<close> is \<open>f\<close>,
  \<open>cleanup_depth\<close> is \<open>n\<close>, \<open>native_closing\<close> is \<open>c\<close>, and its phase agrees with these flags
  unless \<open>u\<close> allows the phase of a user call.
\<close>

definition native :: "nat \<Rightarrow> bool \<Rightarrow> nat \<Rightarrow> bool \<Rightarrow> bool \<Rightarrow> 'e world \<Rightarrow> bool" where
  "native a f n cl u w \<longleftrightarrow> (\<exists>c. connections w a = Some c \<and> \<not> c_native_guard c \<and>
     c_foreign_active c = f \<and> c_cleanup_depth c = of_nat n \<and> c_native_closing c = cl \<and>
     (c_native_phase c = phase_of c \<or> u \<and> c_native_phase c = DUCKDB_ML_NATIVE_USER) \<and>
     (\<forall>r. c_active_request c = Some r \<longrightarrow> requests w r \<noteq> None))"

definition during :: "nat \<Rightarrow> nat set \<Rightarrow> bool \<Rightarrow> nat \<Rightarrow> bool \<Rightarrow> bool \<Rightarrow> 32 word \<Rightarrow> 'e world \<Rightarrow> 'e world \<Rightarrow> bool" where
  "during a Y f n cl u k w0 w \<longleftrightarrow> evo {a} Y k w0 w \<and> native a f n cl u w"

lemma during_evo: "during a Y f n cl u k w0 w \<Longrightarrow> evo {a} Y k w0 w"
  by (simp add: during_def)

lemma during_user: "during a Y f n cl False k w0 w \<Longrightarrow> during a Y f n cl u k w0 w"
  by (auto simp: during_def native_def)

lemma during_connection:
  assumes "during a Y f n cl u k w0 w"
  obtains c where "connections w a = Some c"
  using assms by (auto simp: during_def native_def)

lemma of_nat_small: "0 < n \<Longrightarrow> n < 100 \<Longrightarrow> (of_nat n :: 32 word) \<noteq> 0"
  by (auto simp: word_of_nat_eq_0_iff dvd_def)

lemma native_put:
  assumes "native a f n cl u w" and "connections w a = Some c" and "same_links c c'"
    and "\<not> c_native_guard c'" and "c_foreign_active c' = f'" and "c_cleanup_depth c' = of_nat n'"
    and "c_native_closing c' = cl'"
    and "c_native_phase c' = phase_of c' \<or> u' \<and> c_native_phase c' = DUCKDB_ML_NATIVE_USER"
  shows "native a f' n' cl' u' (put_connection a c' w)"
  using assms by (auto simp: native_def same_links_def)

text \<open>An update of the native fields alone.\<close>

lemma during_put_native:
  assumes "during a Y f n cl u k w0 w" and "connections w a = Some c"
    and "same_links c c'" and "same_contents c c'"
    and "\<not> c_native_guard c'" and "c_foreign_active c' = f'" and "c_cleanup_depth c' = of_nat n'"
    and "c_native_closing c' = cl'"
    and "c_native_phase c' = phase_of c' \<or> u' \<and> c_native_phase c' = DUCKDB_ML_NATIVE_USER"
  shows "during a Y f' n' cl' u' k w0 (put_connection a c' w)"
proof -
  have "connection_resources c' = connection_resources c"
    using assms(4) by (simp add: connection_resources_def same_contents_def)
  then have "evo {a} Y k w0 (put_connection a c' w)"
    using evo_put_connection [of "{a}" Y k w0 w a c c'] assms(1-4) by (simp add: during_def)
  then show ?thesis
    using native_put [of a f n cl u w c c' f' n' cl' u'] assms by (simp add: during_def)
qed

subsection \<open>The guarded operations\<close>

lemma work_begin_runs:
  assumes "during a Y False 0 False u k w0 w"
  shows "runs (duckdb_ml_native_work_begin a w) (during a Y True 0 False False k w0)"
proof -
  from assms obtain c where c: "connections w a = Some c" "\<not> c_native_guard c"
    and fields: "\<not> c_foreign_active c" "c_cleanup_depth c = 0" "\<not> c_native_closing c"
    by (auto simp: during_def native_def)
  then show ?thesis
    using during_put_native [OF assms c(1), of "c\<lparr>c_foreign_active := True, c_native_phase := DUCKDB_ML_NATIVE_NONINTERRUPTIBLE\<rparr>" True 0 False False]
    by (simp add: work_begin_eq [OF c] same_links_def same_contents_def phase_of_def)
qed

lemma work_end_runs:
  assumes "during a Y True 0 cl u k w0 w"
  shows "runs (duckdb_ml_native_work_end a w) (during a Y False 0 cl False k w0)"
proof -
  from assms obtain c where c: "connections w a = Some c" "\<not> c_native_guard c"
    and fields: "c_foreign_active c" "c_cleanup_depth c = 0" "c_native_closing c = cl"
    by (auto simp: during_def native_def)
  then show ?thesis
    using during_put_native [OF assms c(1), of "c\<lparr>c_foreign_active := False, c_native_phase := phase_of (c\<lparr>c_foreign_active := False\<rparr>)\<rparr>" False 0 cl False]
    by (simp add: work_end_eq [OF c] same_links_def same_contents_def)
qed

lemma call_begin_runs:
  assumes "during a Y True 0 False u k w0 w"
  shows "runs (native_call_begin a i w)
    (\<lambda>(admission, w'). during a Y True 0 False (i \<and> admission = DUCKDB_ML_CALL_ADMITTED) k w0 w')"
proof -
  from assms obtain c where c: "connections w a = Some c" "\<not> c_native_guard c"
    and fields: "c_foreign_active c" "c_cleanup_depth c = 0" "\<not> c_native_closing c"
    and r: "\<forall>r. c_active_request c = Some r \<longrightarrow> requests w r \<noteq> None"
    by (auto simp: during_def native_def)
  obtain b where b: "latched (c_active_request c) w = Inr b"
    using r by (cases "c_active_request c") (auto simp: latched_def)
  have "during a Y True 0 False u' k w0 (put_connection a (c\<lparr>c_native_phase := ph\<rparr>) w)"
    if "ph = DUCKDB_ML_NATIVE_NONINTERRUPTIBLE \<or> u' \<and> ph = DUCKDB_ML_NATIVE_USER" for ph u'
    using during_put_native [OF assms c(1), of "c\<lparr>c_native_phase := ph\<rparr>" True 0 False u'] that c fields
    by (simp add: same_links_def same_contents_def)
  then show ?thesis using fields b by (simp add: call_begin_eq [OF c])
qed

lemmas user_call_begin_runs =
  call_begin_runs [where i = True, folded duckdb_ml_native_user_call_begin_def, simplified]

lemmas noninterruptible_call_begin_runs =
  call_begin_runs [where i = False, folded duckdb_ml_native_noninterruptible_call_begin_def, simplified]

lemma user_call_end_runs:
  assumes "during a Y f n cl u k w0 w"
  shows "runs (duckdb_ml_native_user_call_end a w) (during a Y f n cl False k w0)"
proof -
  from assms obtain c where c: "connections w a = Some c" "\<not> c_native_guard c"
    and fields: "c_foreign_active c = f" "c_cleanup_depth c = of_nat n" "c_native_closing c = cl"
    by (auto simp: during_def native_def)
  then show ?thesis
    using during_put_native [OF assms c(1), of "c\<lparr>c_native_phase := phase_of c\<rparr>" f n cl False]
    by (simp add: user_call_end_eq [OF c] same_links_def same_contents_def)
qed

lemma cleanup_begin_runs:
  assumes "during a Y f n cl u k w0 w" and "rt = DUCKDB_ML_RUNTIME_HELD \<Longrightarrow> \<not> f"
  shows "runs (duckdb_ml_native_cleanup_begin a rt w) (during a Y f (Suc n) cl False k w0)"
proof -
  from assms obtain c where c: "connections w a = Some c" "\<not> c_native_guard c"
    and fields: "c_foreign_active c = f" "c_cleanup_depth c = of_nat n" "c_native_closing c = cl"
    by (auto simp: during_def native_def)
  then show ?thesis
    using during_put_native [OF assms(1) c(1), of "c\<lparr>c_cleanup_depth := c_cleanup_depth c + 1,
        c_native_phase := phase_of (c\<lparr>c_cleanup_depth := c_cleanup_depth c + 1\<rparr>)\<rparr>" f "Suc n" cl False] assms(2)
    by (simp add: cleanup_begin_eq [OF c] same_links_def same_contents_def add.commute)
qed

lemma cleanup_end_runs:
  assumes "during a Y f (Suc n) cl u k w0 w" and "n < 99"
  shows "runs (duckdb_ml_native_cleanup_end a rt w) (during a Y f n cl False k w0)"
proof -
  from assms obtain c where c: "connections w a = Some c" "\<not> c_native_guard c"
    and fields: "c_foreign_active c = f" "c_cleanup_depth c = of_nat (Suc n)" "c_native_closing c = cl"
    by (auto simp: during_def native_def)
  moreover have "c_cleanup_depth c \<noteq> 0" using of_nat_small [of "Suc n"] fields(2) assms(2) by simp
  moreover have "c_cleanup_depth c - 1 = of_nat n" using fields(2) by simp
  ultimately show ?thesis
    using during_put_native [OF assms(1) c(1), of "c\<lparr>c_cleanup_depth := of_nat n,
        c_native_phase := phase_of (c\<lparr>c_cleanup_depth := of_nat n\<rparr>)\<rparr>" f n cl False]
    by (simp add: cleanup_end_eq [OF c] same_links_def same_contents_def)
qed

lemma close_begin_runs:
  assumes "during a Y False 0 cl u k w0 w" and "connections w0 a = Some c0" and "c_active_request c0 = None"
  shows "runs (native_close_begin a rt w) (during a Y False 0 True False k w0)"
proof -
  from assms obtain c where c: "connections w a = Some c" "\<not> c_native_guard c"
    and fields: "\<not> c_foreign_active c" "c_cleanup_depth c = 0" "c_native_closing c = cl"
    by (auto simp: during_def native_def)
  have "evo_connection {a} Y a c0 c"
    using heap_rel_Some [of "evo_connection {a} Y" "connections w0" "connections w" a c0] assms c(1)
    by (auto simp: during_def evo_def)
  then have "c_active_request c = None"
    using assms(3) by (simp add: evo_connection_def same_links_def)
  then show ?thesis
    using during_put_native [OF assms(1) c(1), of "c\<lparr>c_native_closing := True,
        c_native_phase := DUCKDB_ML_NATIVE_CLOSING\<rparr>" False 0 True False] c fields
    by (simp add: close_begin_eq [OF c] same_links_def same_contents_def)
qed

subsection \<open>Brackets\<close>

locale bracket =
  fixes enter leave :: "'w \<Rightarrow> 'w run" and outside inside :: "'w \<Rightarrow> bool"
  assumes enter: "outside w \<Longrightarrow> runs (enter w) inside"
    and leave: "inside w \<Longrightarrow> runs (leave w) outside"
begin

lemma bracketed:
  assumes "outside w" and "\<And>w. inside w \<Longrightarrow> runs (body w) inside"
  shows "runs (bind (enter w) (\<lambda>w. bind (body w) leave)) outside"
  by (intro runs_bindI [OF enter] runs_bindI [OF assms(2)] leave assms(1))

lemma bracketed_then:
  assumes "outside w" and "\<And>w. inside w \<Longrightarrow> runs (body w) inside"
    and "\<And>w. outside w \<Longrightarrow> runs (rest w) Q"
  shows "runs (bind (enter w) (\<lambda>w. bind (body w) (\<lambda>w. bind (leave w) rest))) Q"
  by (intro runs_bindI [OF enter] runs_bindI [OF assms(2)] runs_bindI [OF leave] assms(1,3))

text \<open>A body that returns a value.\<close>

lemma bracketed_value:
  assumes "outside w" and "\<And>w. inside w \<Longrightarrow> runs (body w) (\<lambda>(x, w). inside w \<and> R x)"
  shows "runs (bind (enter w) (\<lambda>w. bind (body w) (\<lambda>(x, w). bind (leave w) (\<lambda>w. Inr (x, w)))))
    (\<lambda>(x, w). outside w \<and> R x)"
proof (rule runs_bindI [OF enter [OF assms(1)]])
  fix w
  assume "inside w"
  show "runs (bind (body w) (\<lambda>(x, w). bind (leave w) (\<lambda>w. Inr (x, w)))) (\<lambda>(x, w). outside w \<and> R x)"
  proof (rule runs_bindI2 [OF assms(2) [OF \<open>inside w\<close>]])
    fix x w
    assume "inside w \<and> R x"
    then show "runs (case (x, w) of (x, w) \<Rightarrow> bind (leave w) (\<lambda>w. Inr (x, w))) (\<lambda>(x, w). outside w \<and> R x)"
      by (auto intro: runs_bindI [OF leave])
  qed
qed

end

interpretation work: bracket "duckdb_ml_native_work_begin a" "duckdb_ml_native_work_end a"
  "during a Y False 0 False False k w0" "during a Y True 0 False True k w0" for a Y k w0
  by unfold_locales (auto intro: runs_conseq [OF work_begin_runs] during_user work_end_runs)

interpretation cleanup_released: bracket "duckdb_ml_native_cleanup_begin a DUCKDB_ML_RUNTIME_RELEASED"
  "duckdb_ml_native_cleanup_end a DUCKDB_ML_RUNTIME_RELEASED"
  "\<lambda>w. n < 99 \<and> during a Y f n cl False k w0 w" "\<lambda>w. n < 99 \<and> during a Y f (Suc n) cl False k w0 w"
  for a Y f n cl k w0
  by unfold_locales (auto intro: runs_conseq [OF cleanup_begin_runs] runs_conseq [OF cleanup_end_runs])

interpretation cleanup_held: bracket "duckdb_ml_native_cleanup_begin a DUCKDB_ML_RUNTIME_HELD"
  "duckdb_ml_native_cleanup_end a DUCKDB_ML_RUNTIME_HELD"
  "\<lambda>w. n < 99 \<and> during a Y False n cl False k w0 w" "\<lambda>w. n < 99 \<and> during a Y False (Suc n) cl False k w0 w"
  for a Y n cl k w0
  by unfold_locales (auto intro: runs_conseq [OF cleanup_begin_runs] runs_conseq [OF cleanup_end_runs])

subsection \<open>Frames of \<open>native\<close>\<close>

lemma native_frame [simp]:
  "native a f n cl u (put_database d x w) = native a f n cl u w"
  "native a f n cl u (put_prepared p pr w) = native a f n cl u w"
  "native a f n cl u (put_appender p y w) = native a f n cl u w"
  "native a f n cl u (put_work j fw w) = native a f n cl u w"
  "native a f n cl u (w\<lparr>w_engine := e, w_log := evs\<rparr>) = native a f n cl u w"
  "native a f n cl u (w\<lparr>w_engine := e\<rparr>) = native a f n cl u w"
  "native a f n cl u (w\<lparr>w_oom := os\<rparr>) = native a f n cl u w"
  "native a f n cl u (w\<lparr>w_pending := os\<rparr>) = native a f n cl u w"
  "native a f n cl u (w\<lparr>w_schema_epoch := ep, w_log := evs\<rparr>) = native a f n cl u w"
  "native a f n cl u (acquired w) = native a f n cl u w"
  "native a f n cl u (released w) = native a f n cl u w"
  by (simp_all add: native_def)

lemma during_counters:
  "during a Y f n cl u k w0 w \<Longrightarrow> during a Y f n cl u (k + 1) w0 (acquired w)"
  "during a Y f n cl u k w0 w \<Longrightarrow> during a Y f n cl u (k - 1) w0 (released w)"
  by (auto simp: during_def intro: evo_outside)

lemma during_engine: "during a Y f n cl u k w0 w \<Longrightarrow> during a Y f n cl u k w0 (w\<lparr>w_engine := e\<rparr>)"
  by (auto simp: during_def intro: evo_outside)

lemma during_malloc:
  assumes "during a Y f n cl u k w0 w" and "malloc_fails w = (b, w')"
  shows "during a Y f n cl u k w0 w'"
  using assms evo_outside(1) [of "{a}" Y k w0 w]
  by (auto simp: during_def malloc_fails_def split: list.splits)

lemma during_mono: "during a Y f n cl u k w0 w \<Longrightarrow> Y \<subseteq> Y' \<Longrightarrow> during a Y' f n cl u k w0 w"
  by (auto simp: during_def intro: evo_mono)

lemma during_start: "heaps_below w \<Longrightarrow> native a f n cl u w \<Longrightarrow> during a Y f n cl u 0 w w"
  by (simp add: during_def evo_refl)

lemma during_trans:
  assumes "during a Y f n cl u k w0 w1" and "during a Y' f' n' cl' u' k' w1 w2"
  shows "during a (Y \<union> Y') f' n' cl' u' (k + k') w0 w2"
  using assms evo_trans [of "{a}" Y k w0 w1 "{a}" Y' k' w2 "{a}" "Y \<union> Y'"]
  by (simp add: during_def)

lemma during_rebase:
  assumes "during a Y f n cl u k w0 w" and "runs m (during a Y' f' n' cl' u' k' w)" and "Y' \<subseteq> Y"
  shows "runs m (during a Y f' n' cl' u' (k + k') w0)"
proof (rule runs_conseq [OF assms(2)])
  fix w'
  assume "during a Y' f' n' cl' u' k' w w'"
  then show "during a Y f' n' cl' u' (k + k') w0 w'"
    using during_trans [OF assms(1)] assms(3) by (metis Un_absorb2)
qed

lemma during_prepared:
  assumes "during a Y f n cl u k w0 w" and "prepareds w0 p = Some pr0"
  obtains pr where "prepareds w p = Some pr" and "p_parent pr = p_parent pr0" and "p \<notin> Y \<Longrightarrow> pr = pr0"
  using assms by (auto simp: during_def evo_def evo_prepared_def elim: heap_rel_Some)

lemma during_appender:
  assumes "during a Y f n cl u k w0 w" and "appenders w0 p = Some x0"
  obtains x where "appenders w p = Some x" and "a_parent x = a_parent x0" and "p \<notin> Y \<Longrightarrow> x = x0"
  using assms by (auto simp: during_def evo_def evo_appender_def elim: heap_rel_Some)

lemma during_work:
  assumes "during a Y f n cl u k w0 w" and "works w0 p = Some x0"
  obtains x where "works w p = Some x" and "f_parent x = f_parent x0" and "p \<notin> Y \<Longrightarrow> x = x0"
  using assms by (auto simp: during_def evo_def evo_work_def elim: heap_rel_Some)

lemma during_database:
  assumes "during a Y f n cl u k w0 w" and "databases w0 d = Some x0"
  obtains x where "databases w d = Some x"
  using assms by (auto simp: during_def evo_def elim: heap_rel_Some)

lemma during_owner:
  assumes "during a Y f n cl u k w0 w" and "connections w0 a = Some c0"
  obtains c where "connections w a = Some c" and "same_links c0 c" and "a \<notin> Y \<Longrightarrow> same_contents c0 c"
  using assms by (auto simp: during_def evo_def evo_connection_def elim: heap_rel_Some)

subsection \<open>Engine calls\<close>

text \<open>When a call may be made: its kind fits the flags.\<close>

definition allowed_call :: "nat \<Rightarrow> bool \<Rightarrow> bool \<Rightarrow> engine_call \<Rightarrow> bool" where
  "allowed_call n cl u j \<longleftrightarrow> (destructor j \<longrightarrow> \<not> u \<and> (0 < n \<and> n < 100 \<or> cl)) \<and> (u \<longrightarrow> interruptible j)"

lemma call_eq:
  "connections w a = Some c \<Longrightarrow> call a j fn w = Inr (fst (fn (w_engine w)),
     w\<lparr>w_engine := snd (fn (w_engine w)), w_log := Engine a (c_native_phase c) j # w_log w\<rparr>)"
  by (simp add: call_def split_beta)

lemma during_call:
  assumes "during a Y f n cl u k w0 w" and "connections w a = Some c" and "allowed_call n cl u j"
  shows "during a Y f n cl u k w0 (w\<lparr>w_engine := e, w_log := Engine a (c_native_phase c) j # w_log w\<rparr>)"
proof -
  have phase: "c_native_phase c = phase_of c \<or> u \<and> c_native_phase c = DUCKDB_ML_NATIVE_USER"
    and flags: "c_native_closing c = cl" "c_cleanup_depth c = of_nat n"
    using assms(1,2) by (auto simp: during_def native_def)
  have "disciplined (Engine a (c_native_phase c) j)"
  proof (cases "c_native_phase c = DUCKDB_ML_NATIVE_USER")
    case True
    then have u using phase phase_of_not_user [of c] by auto
    then show ?thesis using True assms(3) by (simp add: allowed_call_def)
  next
    case False
    then have "c_native_phase c = phase_of c" using phase by simp
    then show ?thesis
      using False assms(3) flags of_nat_small [of n] by (auto simp: allowed_call_def phase_of_def)
  qed
  then show ?thesis using assms(1) by (simp add: during_def evo_call)
qed

lemma call_runs:
  assumes "during a Y f n cl u k w0 w" and "allowed_call n cl u j"
  shows "runs (call a j fn w) (\<lambda>(r, w'). during a Y f n cl u k w0 w' \<and> (\<exists>e. r = fst (fn e)))"
proof -
  obtain c where c: "connections w a = Some c" using assms(1) by (rule during_connection)
  show ?thesis using during_call [OF assms(1) c assms(2)] by (auto simp: call_eq [OF c])
qed

subsection \<open>Updates of an owner\<close>

definition same_flags :: "connection_owner \<Rightarrow> connection_owner \<Rightarrow> bool" where
  "same_flags c c' \<longleftrightarrow> c_native_guard c' = c_native_guard c \<and> c_foreign_active c' = c_foreign_active c \<and>
     c_cleanup_depth c' = c_cleanup_depth c \<and> c_native_closing c' = c_native_closing c \<and>
     c_native_phase c' = c_native_phase c"

lemma during_put_connection:
  assumes "during a Y f n cl u k w0 w" and "connections w a = Some c" and "a \<in> Y"
    and "same_links c c'" and "same_flags c c'"
  shows "during a Y f n cl u (k + of_nat (connection_resources c) - of_nat (connection_resources c')) w0
    (put_connection a c' w)"
proof -
  have "phase_of c' = phase_of c" using assms(5) by (simp add: phase_of_def same_flags_def)
  moreover have "\<not> c_native_guard c" "c_foreign_active c = f" "c_cleanup_depth c = of_nat n"
    "c_native_closing c = cl" "c_native_phase c = phase_of c \<or> u \<and> c_native_phase c = DUCKDB_ML_NATIVE_USER"
    using assms(1,2) by (auto simp: during_def native_def)
  ultimately have "native a f n cl u (put_connection a c' w)"
    using assms(5) by (intro native_put [of a f n cl u w c c' f n cl u]) (use assms in \<open>simp_all add: during_def same_flags_def\<close>)
  then show ?thesis
    using evo_put_connection [of "{a}" Y k w0 w a c c'] assms by (simp add: during_def)
qed

lemma during_put_prepared:
  assumes "during a Y f n cl u k w0 w" and "prepareds w p = Some pr" and "p \<in> Y" and "p_parent pr' = p_parent pr"
  shows "during a Y f n cl u (k + of_nat (prepared_resources pr) - of_nat (prepared_resources pr')) w0 (put_prepared p pr' w)"
  using assms evo_put_prepared [of "{a}" Y k w0 w p pr pr'] by (simp add: during_def)

lemma during_put_appender:
  assumes "during a Y f n cl u k w0 w" and "appenders w p = Some x" and "p \<in> Y" and "a_parent x' = a_parent x"
  shows "during a Y f n cl u (k + of_nat (appender_resources x) - of_nat (appender_resources x')) w0 (put_appender p x' w)"
  using assms evo_put_appender [of "{a}" Y k w0 w p x x'] by (simp add: during_def)

lemma during_put_work:
  assumes "during a Y f n cl u k w0 w" and "works w p = Some x" and "p \<in> Y" and "f_parent x' = f_parent x"
  shows "during a Y f n cl u (k + of_nat (work_resources x) - of_nat (work_resources x')) w0 (put_work p x' w)"
  using assms evo_put_work [of "{a}" Y k w0 w p x x'] by (simp add: during_def)

text \<open>An update that changes no resource.\<close>

lemma on_connection_runs:
  assumes "during a Y f n cl u k w0 w" and "a \<in> Y"
    and "\<And>c. same_links c (g c) \<and> same_flags c (g c) \<and> connection_resources (g c) = connection_resources c"
  shows "runs (on_connection a g w) (during a Y f n cl u k w0)"
proof -
  obtain c where c: "connections w a = Some c" using assms(1) by (rule during_connection)
  show ?thesis using during_put_connection [OF assms(1) c assms(2), of "g c"] assms(3) c by (simp add: on_connection_def)
qed

lemma on_prepared_runs:
  assumes "during a Y f n cl u k w0 w" and "prepareds w0 p = Some pr0" and "p \<in> Y"
    and "\<And>pr. p_parent (g pr) = p_parent pr \<and> prepared_resources (g pr) = prepared_resources pr"
  shows "runs (on_prepared p g w) (during a Y f n cl u k w0)"
proof -
  obtain pr where pr: "prepareds w p = Some pr" using assms(1,2) by (rule during_prepared)
  show ?thesis using during_put_prepared [OF assms(1) pr assms(3), of "g pr"] assms(4) pr by (simp add: on_prepared_def)
qed

lemma on_appender_runs:
  assumes "during a Y f n cl u k w0 w" and "appenders w0 p = Some x0" and "p \<in> Y"
    and "\<And>x. a_parent (g x) = a_parent x \<and> appender_resources (g x) = appender_resources x"
  shows "runs (on_appender p g w) (during a Y f n cl u k w0)"
proof -
  obtain x where x: "appenders w p = Some x" using assms(1,2) by (rule during_appender)
  show ?thesis using during_put_appender [OF assms(1) x assms(3), of "g x"] assms(4) x by (simp add: on_appender_def)
qed

text \<open>\<open>destroy(&owner->field); released();\<close> for a field the owner holds.\<close>

lemma destroy_connection_field:
  assumes "during a Y f n cl u k w0 w" and "connections w a = Some c" and "a \<in> Y" and "allowed_call n cl u j"
    and "\<And>e. same_links c (g (fst (fn e)) c) \<and> same_flags c (g (fst (fn e)) c) \<and>
      connection_resources c = Suc (connection_resources (g (fst (fn e)) c))"
  shows "runs (bind (call a j fn w) (\<lambda>(r, w). bind (on_connection a (g r) w) (\<lambda>w. Inr (released w))))
    (during a Y f n cl u k w0)"
proof -
  let ?w = "w\<lparr>w_engine := snd (fn (w_engine w)), w_log := Engine a (c_native_phase c) j # w_log w\<rparr>"
  have "during a Y f n cl u k w0 ?w" by (rule during_call) (use assms in simp_all)
  from during_counters(2) [OF during_put_connection [OF this, of c "g (fst (fn (w_engine w))) c"]]
  show ?thesis using assms(2,3) assms(5) [of "w_engine w"] by (simp add: call_eq on_connection_def)
qed

lemma destroy_prepared_field:
  assumes "during a Y f n cl u k w0 w" and "prepareds w p = Some pr" and "p \<in> Y" and "allowed_call n cl u j"
    and "\<And>e. p_parent (g (fst (fn e)) pr) = p_parent pr \<and>
      prepared_resources pr = Suc (prepared_resources (g (fst (fn e)) pr))"
  shows "runs (bind (call a j fn w) (\<lambda>(r, w). bind (on_prepared p (g r) w) (\<lambda>w. Inr (released w))))
    (during a Y f n cl u k w0)"
proof -
  obtain c where c: "connections w a = Some c" using assms(1) by (rule during_connection)
  let ?w = "w\<lparr>w_engine := snd (fn (w_engine w)), w_log := Engine a (c_native_phase c) j # w_log w\<rparr>"
  have "during a Y f n cl u k w0 ?w" by (rule during_call) (use assms c in simp_all)
  from during_counters(2) [OF during_put_prepared [OF this, of p pr "g (fst (fn (w_engine w))) pr"]]
  show ?thesis using assms(2,3) assms(5) [of "w_engine w"] c by (simp add: call_eq on_prepared_def)
qed

subsection \<open>Runtime transitions\<close>

lemma blocking_runs:
  assumes "runs (body (snd (pending_raises w))) (\<lambda>(x, w'). Q (Returned x) w' \<and> (\<forall>ps. Q (Returned x) (w'\<lparr>w_pending := ps\<rparr>)
      \<and> Q Async_exception (w'\<lparr>w_pending := ps\<rparr>)))"
    and "\<And>ps. Q Async_exception (w\<lparr>w_pending := ps\<rparr>)"
  shows "runs (blocking body w) (\<lambda>(r, w'). Q r w')"
proof (cases "pending_raises w")
  case (Pair raises w1)
  show ?thesis
  proof (cases raises)
    case True
    then show ?thesis using Pair assms(2)
      by (auto simp: blocking_def pending_raises_def split: list.splits)
  next
    case False
    show ?thesis unfolding blocking_def Pair using False assms(1) Pair
      by (auto simp: runs_bind pending_raises_def split: list.splits elim!: runs_conseq)
  qed
qed

subsection \<open>Assertions the native layer does not touch\<close>

text \<open>
  An assertion on the contents of owners survives the guarded operations, engine calls and
  allocation, which only change flags and the engine. \<open>busy\<close> carries one along.
\<close>

definition stable :: "('e world \<Rightarrow> bool) \<Rightarrow> bool" where
  "stable R \<longleftrightarrow> (\<forall>a k w w'. evo {a} {} k w w' \<longrightarrow> R w \<longrightarrow> R w')"

definition busy :: "nat \<Rightarrow> nat set \<Rightarrow> bool \<Rightarrow> nat \<Rightarrow> bool \<Rightarrow> bool \<Rightarrow> 32 word \<Rightarrow> 'e world \<Rightarrow> ('e world \<Rightarrow> bool)
    \<Rightarrow> 'e world \<Rightarrow> bool" where
  "busy a Y f n cl u k w0 R w \<longleftrightarrow> during a Y f n cl u k w0 w \<and> R w \<and> stable R"

lemma stableD: "stable R \<Longrightarrow> evo {a} {} k w w' \<Longrightarrow> R w \<Longrightarrow> R w'"
  by (auto simp: stable_def)

lemma stable_True [simp]: "stable (\<lambda>w. True)"
  by (simp add: stable_def)

lemma stable_conj: "stable R \<Longrightarrow> stable R' \<Longrightarrow> stable (\<lambda>w. R w \<and> R' w)"
  by (auto simp: stable_def)

lemma busy_during: "busy a Y f n cl u k w0 R w \<Longrightarrow> during a Y f n cl u k w0 w"
  by (simp add: busy_def)

lemma busy_weaken: "busy a Y f n cl u k w0 R w \<Longrightarrow> busy a Y f n cl u k w0 (\<lambda>_. True) w"
  by (simp add: busy_def)

lemma busy_user: "busy a Y f n cl False k w0 R w \<Longrightarrow> busy a Y f n cl u k w0 R w"
  by (auto simp: busy_def intro: during_user)

lemma during_local: "during a Y f n cl u k w0 w \<Longrightarrow> during a {} f n cl u 0 w w"
  using during_start [of w a f n cl u] evo_below [of "{a}" Y k w0 w] by (auto simp: during_def)

lemma frame_runs:
  assumes "busy a Y f n cl u k w0 R w"
    and "\<And>Y k w0. during a Y f n cl u k w0 w \<Longrightarrow> runs m (during a Y f' n' cl' u' k w0)"
  shows "runs m (busy a Y f' n' cl' u' k w0 R)"
proof -
  note d = assms(1) [unfolded busy_def]
  have "runs m (\<lambda>w'. during a Y f' n' cl' u' k w0 w' \<and> during a {} f' n' cl' u' 0 w w')"
    by (intro runs_conj assms(2)) (use d during_local in blast)+
  then show ?thesis
    using d by (auto simp: busy_def during_def elim!: runs_conseq dest: stableD)
qed

lemma frame_runs2:
  assumes "busy a Y f n cl u k w0 R w"
    and "\<And>Y k w0. during a Y f n cl u k w0 w \<Longrightarrow> runs m (\<lambda>(x, w'). during a Y (f' x) n' cl' (u' x) k w0 w' \<and> P x)"
  shows "runs m (\<lambda>(x, w'). busy a Y (f' x) n' cl' (u' x) k w0 R w' \<and> P x)"
proof -
  note d = assms(1) [unfolded busy_def]
  have "runs m (\<lambda>z. (case z of (x, w') \<Rightarrow> during a Y (f' x) n' cl' (u' x) k w0 w' \<and> P x) \<and>
      (case z of (x, w') \<Rightarrow> during a {} (f' x) n' cl' (u' x) 0 w w' \<and> P x))"
    by (intro runs_conj assms(2)) (use d during_local in blast)+
  then show ?thesis
    using d by (auto simp: busy_def during_def elim!: runs_conseq dest: stableD)
qed

lemma work_begin_busy:
  "busy a Y False 0 False u k w0 R w \<Longrightarrow> runs (duckdb_ml_native_work_begin a w) (busy a Y True 0 False False k w0 R)"
  by (rule frame_runs) (auto intro: work_begin_runs)

lemma work_end_busy:
  "busy a Y True 0 cl u k w0 R w \<Longrightarrow> runs (duckdb_ml_native_work_end a w) (busy a Y False 0 cl False k w0 R)"
  by (rule frame_runs) (auto intro: work_end_runs)

lemma user_call_end_busy:
  "busy a Y f n cl u k w0 R w \<Longrightarrow> runs (duckdb_ml_native_user_call_end a w) (busy a Y f n cl False k w0 R)"
  by (rule frame_runs) (auto intro: user_call_end_runs)

lemma cleanup_begin_busy:
  "busy a Y f n cl u k w0 R w \<Longrightarrow> (rt = DUCKDB_ML_RUNTIME_HELD \<Longrightarrow> \<not> f) \<Longrightarrow>
   runs (duckdb_ml_native_cleanup_begin a rt w) (busy a Y f (Suc n) cl False k w0 R)"
  by (rule frame_runs) (auto intro: cleanup_begin_runs)

lemma cleanup_end_busy:
  "busy a Y f (Suc n) cl u k w0 R w \<Longrightarrow> n < 99 \<Longrightarrow>
   runs (duckdb_ml_native_cleanup_end a rt w) (busy a Y f n cl False k w0 R)"
  by (rule frame_runs) (auto intro: cleanup_end_runs)

lemmas frame_pair = frame_runs2 [where P = "\<lambda>_. True", simplified]

lemma user_call_begin_busy:
  assumes "busy a Y True 0 False u k w0 R w"
  shows "runs (duckdb_ml_native_user_call_begin a w) (\<lambda>(_, w'). busy a Y True 0 False True k w0 R w')"
  by (rule frame_pair [OF assms])
    (rule runs_conseq [OF user_call_begin_runs], assumption, auto simp: during_def native_def)

lemma noninterruptible_call_begin_busy:
  assumes "busy a Y True 0 False u k w0 R w"
  shows "runs (duckdb_ml_native_noninterruptible_call_begin a w)
    (\<lambda>(admission, w'). busy a Y True 0 False False k w0 R w')"
  by (rule frame_pair [OF assms]) (rule noninterruptible_call_begin_runs)

lemma call_busy:
  assumes "busy a Y f n cl u k w0 R w" and "allowed_call n cl u j"
  shows "runs (call a j fn w) (\<lambda>(r, w'). busy a Y f n cl u k w0 R w' \<and> (\<exists>e. r = fst (fn e)))"
  by (rule frame_runs2 [OF assms(1)]) (rule call_runs [OF _ assms(2)])

text \<open>An update of an owner may establish another assertion.\<close>

lemma on_connection_busy:
  assumes "busy a Y f n cl u k w0 R w" and "a \<in> Y" and "stable R'"
    and "\<And>c. connections w a = Some c \<Longrightarrow> R w \<Longrightarrow> same_links c (g c) \<and> same_flags c (g c) \<and>
      of_nat (connection_resources (g c)) = of_nat (connection_resources c) + d \<and> R' (put_connection a (g c) w)"
  shows "runs (on_connection a g w) (busy a Y f n cl u (k - d) w0 R')"
proof -
  note b = assms(1) [unfolded busy_def]
  obtain c where c: "connections w a = Some c" using b by (blast elim: during_connection)
  show ?thesis
    using during_put_connection [of a Y f n cl u k w0 w c "g c"] b c assms(2,3) assms(4) [OF c]
    by (simp add: busy_def on_connection_def)
qed

lemma on_prepared_busy:
  assumes "busy a Y f n cl u k w0 R w" and "p \<in> Y" and "stable R'" and "prepareds w0 p \<noteq> None"
    and "\<And>pr. prepareds w p = Some pr \<Longrightarrow> R w \<Longrightarrow> p_parent (g pr) = p_parent pr \<and>
      of_nat (prepared_resources (g pr)) = of_nat (prepared_resources pr) + d \<and> R' (put_prepared p (g pr) w)"
  shows "runs (on_prepared p g w) (busy a Y f n cl u (k - d) w0 R')"
proof -
  note b = assms(1) [unfolded busy_def]
  obtain pr where pr: "prepareds w p = Some pr" using b assms(4) by (blast elim: during_prepared)
  show ?thesis
    using during_put_prepared [of a Y f n cl u k w0 w p pr "g pr"] b pr assms(2,3) assms(5) [OF pr]
    by (simp add: busy_def on_prepared_def)
qed

lemma on_appender_busy:
  assumes "busy a Y f n cl u k w0 R w" and "p \<in> Y" and "stable R'" and "appenders w0 p \<noteq> None"
    and "\<And>x. appenders w p = Some x \<Longrightarrow> R w \<Longrightarrow> a_parent (g x) = a_parent x \<and>
      of_nat (appender_resources (g x)) = of_nat (appender_resources x) + d \<and> R' (put_appender p (g x) w)"
  shows "runs (on_appender p g w) (busy a Y f n cl u (k - d) w0 R')"
proof -
  note b = assms(1) [unfolded busy_def]
  obtain x where x: "appenders w p = Some x" using b assms(4) by (blast elim: during_appender)
  show ?thesis
    using during_put_appender [of a Y f n cl u k w0 w p x "g x"] b x assms(2,3) assms(5) [OF x]
    by (simp add: busy_def on_appender_def)
qed

lemma busy_counters:
  assumes "busy a Y f n cl u k w0 R w"
  shows "busy a Y f n cl u (k + 1) w0 R (acquired w)" and "busy a Y f n cl u (k - 1) w0 R (released w)"
proof -
  have "evo {a} {} 1 w (acquired w)" "evo {a} {} (- 1) w (released w)"
    using evo_outside(4,5) [OF evo_refl [OF evo_below [OF during_evo [OF busy_during [OF assms]]]], of "{a}" "{}"]
    by simp_all
  then show "busy a Y f n cl u (k + 1) w0 R (acquired w)" and "busy a Y f n cl u (k - 1) w0 R (released w)"
    using assms during_counters [of a Y f n cl u k w0 w] by (auto simp: busy_def dest: stableD)
qed

subsection \<open>Steps\<close>

text \<open>The triples as rules that consume the first operation of a stub.\<close>

lemmas work_begin_then [steps] = runs_bindI [OF work_begin_busy]
lemmas work_end_then [steps] = runs_bindI [OF work_end_busy]
lemmas user_call_end_then [steps] = runs_bindI [OF user_call_end_busy]
lemmas cleanup_begin_then [steps] = runs_bindI [OF cleanup_begin_busy]
lemmas cleanup_end_then [steps] = runs_bindI [OF cleanup_end_busy]
lemmas user_call_begin_then [steps] = runs_bind_pair [OF user_call_begin_busy]
lemmas noninterruptible_call_begin_then [steps] = runs_bind_pair [OF noninterruptible_call_begin_busy]

lemma call_then [steps]:
  assumes "busy a Y f n cl u k w0 R w" and "allowed_call n cl u j"
    and "\<And>r w'. busy a Y f n cl u k w0 R w' \<Longrightarrow> runs (g r w') Q"
  shows "runs (bind (call a j fn w) (\<lambda>(r, w). g r w)) Q"
  by (rule runs_bind_pair [OF call_busy [OF assms(1,2)]]) (use assms(3) in blast)

lemma call_then2 [steps]:
  assumes "busy a Y f n cl u k w0 R w" and "allowed_call n cl u j"
    and "\<And>x y w'. busy a Y f n cl u k w0 R w' \<Longrightarrow> runs (g x y w') Q"
  shows "runs (bind (call a j fn w) (\<lambda>((x, y), w). g x y w)) Q"
  by (rule runs_bind_pair2 [OF call_busy [OF assms(1,2)]]) (use assms(3) in blast)

lemma allowed_call_simps [simp]:
  "allowed_call n cl u j \<longleftrightarrow> (destructor j \<longrightarrow> \<not> u \<and> (0 < n \<and> n < 100 \<or> cl)) \<and> (u \<longrightarrow> interruptible j)"
  by (simp add: allowed_call_def)

lemma busy_loose: "busy a Y f n cl u k w0 R w \<Longrightarrow> (u \<Longrightarrow> u') \<Longrightarrow> busy a Y f n cl u' k w0 (\<lambda>_. True) w"
  using busy_user [of a Y f n cl k w0 R w u'] by (cases u) (auto simp: busy_def)

lemma busy_outside:
  assumes "busy a Y f n cl u k w0 R w"
  shows "busy a Y f n cl u k w0 R (w\<lparr>w_pending := ps\<rparr>)" and "busy a Y f n cl u k w0 R (w\<lparr>w_oom := os\<rparr>)"
    and "busy a Y f n cl u k w0 R (w\<lparr>w_engine := e\<rparr>)"
proof -
  have r: "evo {a} {} 0 w w" by (rule evo_refl [OF evo_below [OF during_evo [OF busy_during [OF assms]]]])
  show "busy a Y f n cl u k w0 R (w\<lparr>w_pending := ps\<rparr>)" and "busy a Y f n cl u k w0 R (w\<lparr>w_oom := os\<rparr>)"
    and "busy a Y f n cl u k w0 R (w\<lparr>w_engine := e\<rparr>)"
    using assms evo_outside(1-3) [of "{a}" Y k w0 w] stableD [of R, OF _ evo_outside(1) [OF r]]
      stableD [of R, OF _ evo_outside(2) [OF r]] stableD [of R, OF _ evo_outside(3) [OF r]]
    by (simp_all add: busy_def during_def)
qed

lemma malloc_busy:
  assumes "busy a Y f n cl u k w0 R w" and "malloc_fails w = (b, w')"
  shows "busy a Y f n cl u k w0 R w'"
  using assms busy_outside(2) [OF assms(1)] by (auto simp: malloc_fails_def split: list.splits)

lemma engine_busy:
  assumes "busy a Y f n cl u k w0 R w" and "engine g w = (r, w')"
  shows "busy a Y f n cl u k w0 R w'"
  using assms busy_outside(3) [OF assms(1)] by (auto simp: engine_def split: prod.splits)

text \<open>A stub's released section: an exception at entry finds the state before it.\<close>

lemma blocking_busy:
  assumes "busy a Y f n cl u k w0 R w"
    and "\<And>w. busy a Y f n cl u k w0 R w \<Longrightarrow> runs (body w) (\<lambda>(_, w'). busy a Y f' n' cl' u' k' w0 R' w')"
  shows "runs (blocking body w) (\<lambda>(r, w'). busy a Y f' n' cl' u' k' w0 R' w' \<or>
    r = Async_exception \<and> busy a Y f n cl u k w0 R w')"
proof (rule blocking_runs)
  have "busy a Y f n cl u k w0 R (snd (pending_raises w))"
    using busy_outside(1) [OF assms(1)] assms(1) by (auto simp: pending_raises_def split: list.splits)
  from assms(2) [OF this]
  show "runs (body (snd (pending_raises w))) (\<lambda>(x, w'). (busy a Y f' n' cl' u' k' w0 R' w' \<or>
      Returned x = Async_exception \<and> busy a Y f n cl u k w0 R w') \<and>
      (\<forall>ps. (busy a Y f' n' cl' u' k' w0 R' (w'\<lparr>w_pending := ps\<rparr>) \<or>
          Returned x = Async_exception \<and> busy a Y f n cl u k w0 R (w'\<lparr>w_pending := ps\<rparr>)) \<and>
        (busy a Y f' n' cl' u' k' w0 R' (w'\<lparr>w_pending := ps\<rparr>) \<or>
          Async_exception = Async_exception \<and> busy a Y f n cl u k w0 R (w'\<lparr>w_pending := ps\<rparr>))))"
    by (rule runs_conseq) (auto intro: busy_outside)
qed (use busy_outside(1) [OF assms(1)] in simp)

end
