(* ===== verification/Owners_Safety.thy ===== *)
theory Owners_Safety
  imports Owners Brackets
begin

text \<open>
  Triples of the connection's stubs that neither allocate nor free an owner: connecting,
  releasing the work of a statement, disconnecting. Each runs to completion, keeps the
  resource counter in step with what the owners hold and obeys the phase discipline.
\<close>

subsection \<open>What the engine promises of its destructors\<close>

text \<open>DuckDB's destructors set the pointer they are given to NULL.\<close>

definition session_releases :: "'e session_api \<Rightarrow> bool" where
  "session_releases S \<longleftrightarrow> (\<forall>h e. fst (duckdb_close S h e) = None \<and> fst (duckdb_destroy_config S h e) = None \<and>
     fst (duckdb_disconnect S h e) = None)"

definition statement_releases :: "'e statement_api \<Rightarrow> bool" where
  "statement_releases T \<longleftrightarrow> (\<forall>h e. fst (duckdb_destroy_prepare T h e) = None \<and>
     fst (duckdb_destroy_extracted T h e) = None)"

lemmas same_defs = same_links_def same_flags_def connection_resources_def

text \<open>A connection that holds no work of a statement.\<close>

definition no_work :: "connection_owner \<Rightarrow> bool" where
  "no_work c \<longleftrightarrow> c_sql c = None \<and> c_extracted c = None \<and> c_prepared c = None \<and> \<not> c_has_result c"

subsection \<open>Releasing the work\<close>

lemma clear_result_of_work_runs:
  assumes "during a Y f n cl u k w0 w" and "a \<in> Y" and "allowed_call n cl u Destroy_result"
  shows "runs (clear_result_of_work T a w) (during a Y f n cl u k w0)"
proof -
  obtain c where c: "connections w a = Some c" using assms(1) by (rule during_connection)
  show ?thesis
  proof (cases "c_has_result c")
    case True
    show ?thesis
      unfolding clear_result_of_work_def deref_Some [where m = "connections w", OF c] bind_Inl_Inr if_P [OF True]
      by (rule destroy_connection_field [OF assms(1) c assms(2,3)]) (use True in \<open>simp add: same_defs\<close>)
  qed (use assms(1) in \<open>simp add: clear_result_of_work_def c\<close>)
qed

lemma clear_prepared_of_work_runs:
  assumes "during a Y f n cl u k w0 w" and "a \<in> Y" and "allowed_call n cl u Destroy_prepare" and "statement_releases T"
  shows "runs (clear_prepared_of_work T a w) (during a Y f n cl u k w0)"
proof -
  obtain c where c: "connections w a = Some c" using assms(1) by (rule during_connection)
  show ?thesis
  proof (cases "c_prepared c")
    case (Some h)
    show ?thesis
      unfolding clear_prepared_of_work_def deref_Some [where m = "connections w", OF c] bind_Inl_Inr Some option.case
      by (rule destroy_connection_field [OF assms(1) c assms(2,3)])
        (use assms(4) Some in \<open>simp add: same_defs statement_releases_def\<close>)
  qed (use assms(1) in \<open>simp add: clear_prepared_of_work_def c\<close>)
qed

lemma clear_extracted_of_work_runs:
  assumes "during a Y f n cl u k w0 w" and "a \<in> Y" and "allowed_call n cl u Destroy_extracted" and "statement_releases T"
  shows "runs (clear_extracted_of_work T a w) (during a Y f n cl u k w0)"
proof -
  obtain c where c: "connections w a = Some c" using assms(1) by (rule during_connection)
  show ?thesis
  proof (cases "c_extracted c")
    case (Some h)
    show ?thesis
      unfolding clear_extracted_of_work_def deref_Some [where m = "connections w", OF c] bind_Inl_Inr Some option.case
      by (rule destroy_connection_field [OF assms(1) c assms(2,3)])
        (use assms(4) Some in \<open>simp add: same_defs statement_releases_def\<close>)
  qed (use assms(1) in \<open>simp add: clear_extracted_of_work_def c\<close>)
qed

lemma clear_sql_of_work_runs:
  assumes "during a Y f n cl u k w0 w" and "a \<in> Y"
  shows "runs (clear_sql_of_work a w) (during a Y f n cl u k w0)"
proof -
  obtain c where c: "connections w a = Some c" using assms(1) by (rule during_connection)
  show ?thesis
  proof (cases "c_sql c")
    case (Some q)
    have "during a Y f n cl u k w0 (released (put_connection a (c\<lparr>c_sql := None\<rparr>) w))"
      using during_counters(2) [OF during_put_connection [OF assms(1) c assms(2), of "c\<lparr>c_sql := None\<rparr>"]] Some
      by (simp add: same_defs)
    then show ?thesis by (simp add: clear_sql_of_work_def c Some on_connection_def)
  qed (use assms(1) in \<open>simp add: clear_sql_of_work_def c\<close>)
qed

lemma allowed_destructor:
  "destructor j \<Longrightarrow> n < 99 \<Longrightarrow> allowed_call (Suc n) cl False j"
  by (simp add: allowed_call_def)

lemma clear_work_runs:
  assumes "during a Y f n cl u k w0 w" and "a \<in> Y" and "n < 99" and "statement_releases T"
    and "rt = DUCKDB_ML_RUNTIME_HELD \<Longrightarrow> \<not> f"
  shows "runs (clear_work T (Some a) rt w) (during a Y f n cl False k w0)"
  unfolding clear_work_def option.case
  by (rule runs_bindI, rule cleanup_begin_runs [OF assms(1,5)], assumption,
      rule runs_bindI, rule clear_result_of_work_runs, assumption, rule assms, simp add: allowed_destructor assms,
      rule runs_bindI, rule clear_prepared_of_work_runs, assumption, rule assms, simp add: allowed_destructor assms, rule assms,
      rule runs_bindI, rule clear_extracted_of_work_runs, assumption, rule assms, simp add: allowed_destructor assms, rule assms,
      rule runs_bindI, rule clear_sql_of_work_runs, assumption, rule assms,
      rule cleanup_end_runs, assumption, rule assms)

text \<open>What the release leaves: the same connection without any work.\<close>

lemma cleared_field:
  "connections w a = Some c \<Longrightarrow> statement_releases T \<Longrightarrow>
   runs (clear_result_of_work T a w) (\<lambda>w'. \<exists>c'. connections w' a = Some c' \<and> \<not> c_has_result c' \<and>
     c_prepared c' = c_prepared c \<and> c_extracted c' = c_extracted c \<and> c_sql c' = c_sql c)"
  "connections w a = Some c \<Longrightarrow> statement_releases T \<Longrightarrow>
   runs (clear_prepared_of_work T a w) (\<lambda>w'. \<exists>c'. connections w' a = Some c' \<and> c_prepared c' = None \<and>
     c_has_result c' = c_has_result c \<and> c_extracted c' = c_extracted c \<and> c_sql c' = c_sql c)"
  "connections w a = Some c \<Longrightarrow> statement_releases T \<Longrightarrow>
   runs (clear_extracted_of_work T a w) (\<lambda>w'. \<exists>c'. connections w' a = Some c' \<and> c_extracted c' = None \<and>
     c_has_result c' = c_has_result c \<and> c_prepared c' = c_prepared c \<and> c_sql c' = c_sql c)"
  "connections w a = Some c \<Longrightarrow> runs (clear_sql_of_work a w) (\<lambda>w'. \<exists>c'. connections w' a = Some c' \<and> c_sql c' = None \<and>
     c_has_result c' = c_has_result c \<and> c_prepared c' = c_prepared c \<and> c_extracted c' = c_extracted c)"
  by (auto simp: clear_result_of_work_def clear_prepared_of_work_def clear_extracted_of_work_def
      clear_sql_of_work_def call_eq on_connection_def statement_releases_def split: option.splits)

subsection \<open>Disconnecting\<close>

lemma disconnect_handle_runs:
  assumes "during a Y f n cl u k w0 w" and "a \<in> Y" and "allowed_call n cl u Disconnect" and "session_releases S"
  shows "runs (disconnect_handle S a w) (during a Y f n cl u k w0)"
proof -
  obtain c where c: "connections w a = Some c" using assms(1) by (rule during_connection)
  show ?thesis
  proof (cases "c_connection c")
    case (Some h)
    show ?thesis
      unfolding disconnect_handle_def deref_Some [where m = "connections w", OF c] bind_Inl_Inr Some option.case
      by (rule destroy_connection_field [OF assms(1) c assms(2,3)])
        (use assms(4) Some in \<open>simp add: same_defs session_releases_def\<close>)
  qed (use assms(1) in \<open>simp add: disconnect_handle_def c\<close>)
qed

lemma connection_clear_runs:
  assumes "during a Y False 0 cl u k w0 w" and "a \<in> Y" and "connections w0 a = Some c0" and "c_active_request c0 = None"
    and "session_releases S" and "statement_releases T"
  shows "runs (connection_clear S T (Some a) rt w) (during a Y False 0 True False k w0)"
  unfolding connection_clear_def option.case
  by (rule runs_bindI, rule close_begin_runs [OF assms(1,3,4)],
      rule runs_bindI, rule cleanup_begin_runs, assumption, simp,
      rule runs_bindI, rule clear_work_runs, assumption, rule assms, simp, rule assms, simp,
      rule runs_bindI, rule disconnect_handle_runs, assumption, rule assms, simp add: allowed_call_def, rule assms,
      rule cleanup_end_runs, assumption, simp)

end
