(* ===== verification/Statements_Safety.thy ===== *)
theory Statements_Safety
  imports Statements Owners_Safety
begin

text \<open>
  Raw execution and transaction control run to completion from an idle connection, whatever
  the engine answers and whenever a cancellation is latched, and leave the connection idle
  and without work.
\<close>

definition has_work :: "nat \<Rightarrow> bool \<Rightarrow> bool \<Rightarrow> bool \<Rightarrow> bool \<Rightarrow> 'e world \<Rightarrow> bool" where
  "has_work a sq ex pr hr w \<longleftrightarrow> (\<exists>c. connections w a = Some c \<and> (c_sql c \<noteq> None) = sq \<and>
     (c_extracted c \<noteq> None) = ex \<and> (c_prepared c \<noteq> None) = pr \<and> c_has_result c = hr)"

lemma stable_has_work [simp]: "stable (has_work a sq ex pr hr)"
proof (unfold stable_def, intro allI impI)
  fix b k and w w' :: "'e world"
  assume e: "evo {b} {} k w w'" and h: "has_work a sq ex pr hr w"
  then obtain c where c: "connections w a = Some c" by (auto simp: has_work_def)
  then obtain c' where "connections w' a = Some c'" "same_contents c c'"
    using e by (auto simp: evo_def evo_connection_def elim: heap_rel_Some)
  with h c show "has_work a sq ex pr hr w'" by (auto simp: has_work_def same_contents_def)
qed

lemma busy_assert: "during a Y f n cl u k w0 w \<Longrightarrow> R w \<Longrightarrow> stable R \<Longrightarrow> busy a Y f n cl u k w0 R w"
  by (simp add: busy_def)

subsection \<open>Updates of the status\<close>

lemma set_status_busy:
  "busy a Y f n cl u k w0 (has_work a sq ex pr hr) w \<Longrightarrow> a \<in> Y \<Longrightarrow>
   runs (set_status a s w) (busy a Y f n cl u k w0 (has_work a sq ex pr hr))"
  unfolding set_status_def
  by (drule on_connection_busy [where d = 0 and R' = "has_work a sq ex pr hr"])
    (auto simp: same_defs has_work_def)

lemma fail_with_busy:
  "busy a Y f n cl u k w0 (has_work a sq ex pr hr) w \<Longrightarrow> a \<in> Y \<Longrightarrow>
   runs (fail_with a m w) (busy a Y f n cl u k w0 (has_work a sq ex pr hr))"
  unfolding fail_with_def
  by (drule on_connection_busy [where d = 0 and R' = "has_work a sq ex pr hr"])
    (auto simp: same_defs has_work_def)

lemma result_failed_busy:
  assumes "busy a Y f n cl u k w0 (has_work a sq ex pr hr) w" and "a \<in> Y"
  shows "runs (result_failed T a state w) (busy a Y f n cl u k w0 (has_work a sq ex pr hr))"
  using assms fail_with_busy [OF assms] by (auto simp: result_failed_def has_work_def busy_def)

text \<open>A query opens the owner's result.\<close>

lemma set_has_result_busy:
  "busy a Y f n cl u k w0 (has_work a sq ex pr False) w \<Longrightarrow> a \<in> Y \<Longrightarrow>
   runs (on_connection a (\<lambda>c. c\<lparr>c_has_result := True\<rparr>) w) (busy a Y f n cl u (k - 1) w0 (has_work a sq ex pr True))"
  by (drule on_connection_busy [where d = 1 and R' = "has_work a sq ex pr True"])
    (auto simp: same_defs has_work_def)

lemma set_result_busy:
  "busy a Y f n cl u k w0 (has_work a sq ex pr hr) w \<Longrightarrow> a \<in> Y \<Longrightarrow>
   runs (on_connection a (\<lambda>c. c\<lparr>c_result := r\<rparr>) w) (busy a Y f n cl u k w0 (has_work a sq ex pr hr))"
  by (drule on_connection_busy [where d = 0 and R' = "has_work a sq ex pr hr"])
    (auto simp: same_defs has_work_def)

lemma has_work_connection:
  assumes "busy a Y f n cl u k w0 (has_work a sq ex pr hr) w"
  obtains c where "connections w a = Some c" and "(c_sql c \<noteq> None) = sq" and "(c_extracted c \<noteq> None) = ex"
    and "(c_prepared c \<noteq> None) = pr" and "c_has_result c = hr"
  using assms by (auto simp: busy_def has_work_def)

lemma query_into_busy:
  assumes "busy a Y f n cl u k w0 (has_work a sq ex pr False) w" and "a \<in> Y"
  shows "runs (query_into T a sql w) (\<lambda>(_, w'). busy a Y f n cl u k w0 (has_work a sq ex pr True) w')"
  unfolding query_into_def
proof (rule runs_bindI [OF set_has_result_busy [OF assms]])
  fix w1
  assume b: "busy a Y f n cl u (k - 1) w0 (has_work a sq ex pr True) w1"
  then obtain c where c: "connections w1 a = Some c" by (rule has_work_connection)
  have acq: "busy a Y f n cl u k w0 (has_work a sq ex pr True) (acquired w1)"
    using busy_counters(1) [OF b] by simp
  show "runs (bind (deref (connections w1) a) (\<lambda>c.
      bind (call a (Query sql) (duckdb_query T (c_connection c) sql) (acquired w1)) (\<lambda>((state, r), w).
      bind (on_connection a (\<lambda>c. c\<lparr>c_result := r\<rparr>) w) (\<lambda>w. Inr (state, w)))))
    (\<lambda>(_, w'). busy a Y f n cl u k w0 (has_work a sq ex pr True) w')"
    unfolding deref_Some [where m = "connections w1", OF c] bind_Inl_Inr
    by (rule runs_bindI2 [OF call_busy [OF acq]])
      (auto simp: allowed_call_def intro!: runs_bindI [OF set_result_busy] assms(2))
qed

subsection \<open>The schema epoch\<close>

lemma advance_epoch_busy:
  assumes "busy a Y f n cl u k w0 R w"
  shows "busy a Y f n cl u k w0 R (advance_epoch w)"
proof -
  have "evo {a} {} 0 w (advance_epoch w)"
    using evo_outside(6) [OF evo_refl [OF evo_below [OF during_evo [OF busy_during [OF assms]]]], of "{a}" "{}"]
    by (simp add: advance_epoch_def)
  then show ?thesis
    using assms evo_outside(6) [of "{a}" Y k w0 w "w_schema_epoch w + 1"]
    by (auto simp: busy_def during_def advance_epoch_def dest: stableD)
qed

lemma schema_leave_busy: "busy a Y f n cl u k w0 R w \<Longrightarrow> busy a Y f n cl u k w0 R (duckdb_ml_schema_leave ch w)"
  by (simp add: duckdb_ml_schema_leave_def advance_epoch_busy)

lemma schema_enter_busy:
  assumes "busy a Y f n cl u k w0 R w" and "a \<in> Y"
    and "\<And>c. connections w a = Some c \<Longrightarrow> R w \<Longrightarrow> R (put_connection a (c\<lparr>c_schema_dirty := True\<rparr>) w)"
  shows "runs (duckdb_ml_schema_enter T a p w) (\<lambda>(_, w'). busy a Y f n cl u k w0 R w')"
proof -
  have "runs (on_connection a (\<lambda>c. c\<lparr>c_schema_dirty := True\<rparr>) w) (busy a Y f n cl u (k - 0) w0 R)"
    by (rule on_connection_busy [OF assms(1,2)]) (use assms in \<open>auto simp: same_defs busy_def\<close>)
  then show ?thesis
    using assms(1) by (auto simp: duckdb_ml_schema_enter_def runs_bind advance_epoch_busy elim!: runs_conseq)
qed

lemma settle_schema_busy:
  assumes "busy a Y f n cl u k w0 (has_work a sq ex pr hr) w" and "a \<in> Y"
  shows "runs (settle_schema a s w) (busy a Y f n cl u k w0 (has_work a sq ex pr hr))"
proof -
  have "runs (on_connection a (\<lambda>c. c\<lparr>c_schema_dirty := False\<rparr>) w) (busy a Y f n cl u (k - 0) w0 (has_work a sq ex pr hr))"
    by (rule on_connection_busy [OF assms]) (auto simp: same_defs has_work_def)
  moreover obtain c where "connections w a = Some c" using assms(1) by (rule has_work_connection)
  ultimately show ?thesis
    using assms(1) by (auto simp: settle_schema_def runs_bind schema_leave_busy elim!: runs_conseq)
qed

subsection \<open>Releasing the work\<close>

lemma clear_fields_busy:
  assumes "busy a Y f n cl False k w0 (has_work a sq ex pr hr) w" and "a \<in> Y" and "statement_releases T"
    and "0 < n" and "n < 100"
  shows "runs (clear_result_of_work T a w) (busy a Y f n cl False k w0 (has_work a sq ex pr False))"
    and "runs (clear_prepared_of_work T a w) (busy a Y f n cl False k w0 (has_work a sq ex False hr))"
    and "runs (clear_extracted_of_work T a w) (busy a Y f n cl False k w0 (has_work a sq False pr hr))"
    and "runs (clear_sql_of_work a w) (busy a Y f n cl False k w0 (has_work a False ex pr hr))"
proof -
  obtain c where c: "connections w a = Some c" "(c_sql c \<noteq> None) = sq" "(c_extracted c \<noteq> None) = ex"
    "(c_prepared c \<noteq> None) = pr" "c_has_result c = hr" using assms(1) by (rule has_work_connection)
  have j: "destructor j \<Longrightarrow> allowed_call n cl False j" for j using assms(4,5) by (simp add: allowed_call_def)
  note d = busy_during [OF assms(1)] and fields = cleared_field [OF c(1)]
  show "runs (clear_result_of_work T a w) (busy a Y f n cl False k w0 (has_work a sq ex pr False))"
    by (rule runs_conseq [OF runs_conj [OF clear_result_of_work_runs [OF d assms(2) j] fields(1)]])
      (use assms c in \<open>auto simp: busy_def has_work_def\<close>)
  show "runs (clear_prepared_of_work T a w) (busy a Y f n cl False k w0 (has_work a sq ex False hr))"
    by (rule runs_conseq [OF runs_conj [OF clear_prepared_of_work_runs [OF d assms(2) j assms(3)] fields(2)]])
      (use assms c in \<open>auto simp: busy_def has_work_def\<close>)
  show "runs (clear_extracted_of_work T a w) (busy a Y f n cl False k w0 (has_work a sq False pr hr))"
    by (rule runs_conseq [OF runs_conj [OF clear_extracted_of_work_runs [OF d assms(2) j assms(3)] fields(3)]])
      (use assms c in \<open>auto simp: busy_def has_work_def\<close>)
  show "runs (clear_sql_of_work a w) (busy a Y f n cl False k w0 (has_work a False ex pr hr))"
    by (rule runs_conseq [OF runs_conj [OF clear_sql_of_work_runs [OF d assms(2)] fields(4)]])
      (use assms c in \<open>auto simp: busy_def has_work_def\<close>)
qed

lemma busy_has_work:
  assumes "busy a Y f n cl u k w0 R w"
  obtains sq ex pr hr where "busy a Y f n cl u k w0 (has_work a sq ex pr hr) w"
proof -
  obtain c where "connections w a = Some c" using busy_during [OF assms] by (rule during_connection)
  then have "has_work a (c_sql c \<noteq> None) (c_extracted c \<noteq> None) (c_prepared c \<noteq> None) (c_has_result c) w"
    by (simp add: has_work_def)
  then show thesis using that assms by (auto simp: busy_def)
qed

lemma clear_work_busy:
  assumes "busy a Y f n cl u k w0 R w" and "a \<in> Y" and "n < 99" and "statement_releases T"
    and "rt = DUCKDB_ML_RUNTIME_HELD \<Longrightarrow> \<not> f"
  shows "runs (clear_work T (Some a) rt w) (busy a Y f n cl False k w0 (has_work a False False False False))"
proof -
  obtain sq ex pr hr where b: "busy a Y f n cl u k w0 (has_work a sq ex pr hr) w"
    using assms(1) by (rule busy_has_work)
  show ?thesis
    unfolding clear_work_def option.case
    by (rule runs_bindI, rule cleanup_begin_busy [OF b assms(5)], assumption,
        rule runs_bindI, rule clear_fields_busy(1), assumption, rule assms, rule assms, simp, simp add: assms,
        rule runs_bindI, rule clear_fields_busy(2), assumption, rule assms, rule assms, simp, simp add: assms,
        rule runs_bindI, rule clear_fields_busy(3), assumption, rule assms, rule assms, simp, simp add: assms,
        rule runs_bindI, rule clear_fields_busy(4), assumption, rule assms, rule assms, simp, simp add: assms,
        rule cleanup_end_busy, assumption, rule assms)
qed

subsection \<open>Raw execution\<close>

text \<open>An engine handle is stored and counted: \<open>owner->field = h; if (h) acquired();\<close>.\<close>

lemma set_extracted_busy:
  assumes "busy a Y f n cl u k w0 (has_work a sq False pr hr) w" and "a \<in> Y"
  shows "runs (on_connection a (\<lambda>c. c\<lparr>c_extracted := h\<rparr>) w)
    (busy a Y f n cl u (k - of_nat (present h)) w0 (has_work a sq (h \<noteq> None) pr hr))"
  by (rule on_connection_busy [OF assms]) (auto simp: same_defs has_work_def)

lemma set_prepared_busy:
  assumes "busy a Y f n cl u k w0 (has_work a sq ex False hr) w" and "a \<in> Y"
  shows "runs (on_connection a (\<lambda>c. c\<lparr>c_prepared := h\<rparr>) w)
    (busy a Y f n cl u (k - of_nat (present h)) w0 (has_work a sq ex (h \<noteq> None) hr))"
  by (rule on_connection_busy [OF assms]) (auto simp: same_defs has_work_def)

lemma count_handle_busy:
  "busy a Y f n cl u (k - of_nat (present h)) w0 R w \<Longrightarrow> busy a Y f n cl u k w0 R (if h \<noteq> None then acquired w else w)"
  using busy_counters(1) [of a Y f n cl u "k - of_nat (present h)" w0 R w] by (cases h) simp_all

lemmas set_status_then [steps] = runs_bindI [OF set_status_busy]
lemmas fail_with_then [steps] = runs_bindI [OF fail_with_busy]
lemmas result_failed_then [steps] = runs_bindI [OF result_failed_busy]
lemmas set_has_result_then [steps] = runs_bindI [OF set_has_result_busy]
lemmas set_result_then [steps] = runs_bindI [OF set_result_busy]
lemmas set_extracted_then [steps] = runs_bindI [OF set_extracted_busy]
lemmas set_prepared_then [steps] = runs_bindI [OF set_prepared_busy]
lemmas query_into_then [steps] = runs_bind_pair [OF query_into_busy]
lemmas settle_schema_then [steps] = runs_bindI [OF settle_schema_busy]

lemma schema_enter_work:
  "busy a Y f n cl u k w0 (has_work a sq ex pr hr) w \<Longrightarrow> a \<in> Y \<Longrightarrow>
   runs (duckdb_ml_schema_enter T a p w) (\<lambda>(_, w'). busy a Y f n cl u k w0 (has_work a sq ex pr hr) w')"
  by (rule schema_enter_busy) (auto simp: has_work_def)

lemmas schema_enter_then [steps] = runs_bind_pair [OF schema_enter_work]

lemma read_owner [steps]:
  assumes "busy a Y f n cl u k w0 R w" and "\<And>c. connections w a = Some c \<Longrightarrow> runs (g c) Q"
  shows "runs (bind (deref (connections w) a) g) Q"
  using during_connection [OF busy_during [OF assms(1)]] assms(2) by force

lemma acquired_busy:
  "busy a Y f n cl u (k - 1) w0 R w \<Longrightarrow> busy a Y f n cl u k w0 R (acquired w)"
  using busy_counters(1) [of a Y f n cl u "k - 1"] by simp

lemma execute_admitted_busy:
  assumes "busy a Y True 0 False True k w0 (has_work a sq ex pr False) w" and "a \<in> Y"
  shows "runs (execute_admitted T a w) (\<lambda>(started, w'). busy a Y True (if started then 1 else 0) False True k w0 (\<lambda>_. True) w')"
  unfolding execute_admitted_def
  by (insert assms(1))
    (rule steps | assumption | rule assms(2) acquired_busy schema_leave_busy | (simp add: busy_weaken; fail) | (simp, rule busy_loose, assumption, simp; fail))+

lemma prepare_and_execute_busy:
  assumes "busy a Y True 0 False True k w0 (has_work a sq ex False False) w" and "a \<in> Y"
  shows "runs (prepare_and_execute T a w) (\<lambda>(started, w'). busy a Y True (if started then 1 else 0) False True k w0 (\<lambda>_. True) w')"
  unfolding prepare_and_execute_def
  by (insert assms(1))
    (rule steps execute_admitted_busy | assumption | rule assms(2) count_handle_busy | (simp add: busy_weaken; fail) | (simp, rule busy_loose, assumption, simp; fail))+

lemma extract_and_execute_busy:
  assumes "busy a Y True 0 False True k w0 (has_work a True False False False) w" and "a \<in> Y"
  shows "runs (extract_and_execute T a w) (\<lambda>(started, w'). busy a Y True (if started then 1 else 0) False True k w0 (\<lambda>_. True) w')"
proof -
  obtain c sql where c: "connections w a = Some c" "c_sql c = Some sql"
    using assms(1) by (auto elim!: has_work_connection)
  show ?thesis
    unfolding extract_and_execute_def deref_Some [where m = "connections w", OF c(1)] bind_Inl_Inr c(2) not_null_simps
    by (insert assms(1))
      (rule steps prepare_and_execute_busy | assumption | rule assms(2) count_handle_busy | (simp add: busy_weaken; fail) | (simp, rule busy_loose, assumption, simp; fail))+
qed

lemmas clear_work_then [steps] = runs_bindI [OF clear_work_busy]

lemma execute_body_busy:
  assumes "busy a Y False 0 False u k w0 (has_work a True False False False) w" and "a \<in> Y" and "statement_releases T"
  shows "runs (execute_body T a is_control w) (\<lambda>(_, w'). busy a Y False 0 False False k w0 (has_work a False False False False) w')"
proof -
  have work: "runs (if is_control
      then bind (deref (connections w) a) (\<lambda>c. bind (not_null (c_sql c)) (\<lambda>sql.
        bind (query_into T a (c_string sql) w) (\<lambda>(state, w). bind (result_failed T a state w) (\<lambda>w. Inr (False, w)))))
      else bind (duckdb_ml_native_user_call_begin a w) (\<lambda>(admission, w).
        if admission = DUCKDB_ML_CALL_CANCELLED
        then bind (set_status a DUCKDB_ML_STATUS_CANCELLED w) (\<lambda>w. Inr (False, w))
        else extract_and_execute T a w))
    (\<lambda>(started, w'). busy a Y True (if started then 1 else 0) False True k w0 (\<lambda>_. True) w')"
    if b: "busy a Y True 0 False False k w0 (has_work a True False False False) w" for w
  proof -
    obtain c sql where c: "connections w a = Some c" "c_sql c = Some sql"
      using b by (auto elim!: has_work_connection)
    show ?thesis
      unfolding deref_Some [where m = "connections w", OF c(1)] bind_Inl_Inr c(2) not_null_simps
      by (insert b)
        (rule steps extract_and_execute_busy | assumption | rule assms(2) | (simp add: busy_weaken; fail) | (simp, rule busy_loose, assumption, simp; fail))+
  qed
  have rest: "runs (bind (if started then Inr w else duckdb_ml_native_cleanup_begin a DUCKDB_ML_RUNTIME_RELEASED w) (\<lambda>w.
      bind (clear_work T (Some a) DUCKDB_ML_RUNTIME_RELEASED w) (\<lambda>w.
      bind (duckdb_ml_native_cleanup_end a DUCKDB_ML_RUNTIME_RELEASED w) (\<lambda>w.
      bind (duckdb_ml_native_work_end a w) (\<lambda>w. Inr ((), w))))))
    (\<lambda>(_, w'). busy a Y False 0 False False k w0 (has_work a False False False False) w')"
    if "busy a Y True (if started then 1 else 0) False True k w0 (\<lambda>_. True) w" for started w
  proof (rule runs_bindI [where P = "busy a Y True (Suc 0) False True k w0 (\<lambda>_. True)"])
    show "runs (if started then Inr w else duckdb_ml_native_cleanup_begin a DUCKDB_ML_RUNTIME_RELEASED w)
        (busy a Y True (Suc 0) False True k w0 (\<lambda>_. True))"
      using that by (cases started) (auto intro: runs_conseq [OF cleanup_begin_busy] busy_user)
  qed (rule steps | assumption | rule assms(2,3) | (simp; fail))+
  show ?thesis
    unfolding execute_body_def
    by (insert assms(1))
      (rule work_begin_then set_status_then | assumption | rule assms(2) | rule runs_bind_pair [OF work] rest)+
qed

lemma execute_control_body_busy:
  assumes "busy a Y False 0 False u k w0 (has_work a False False False False) w" and "a \<in> Y" and "statement_releases T"
  shows "runs (execute_control_body T a s w) (\<lambda>(_, w'). busy a Y False 0 False False k w0 (has_work a False False False False) w')"
proof -
  have admission: "runs (if s \<noteq> Rollback then duckdb_ml_native_user_call_begin a w else Inr (DUCKDB_ML_CALL_ADMITTED, w))
      (\<lambda>(_, w'). busy a Y True 0 False True k w0 (has_work a False False False False) w')"
    if "busy a Y True 0 False False k w0 (has_work a False False False False) w" for w
    using that by (auto intro: user_call_begin_busy busy_user)
  have work: "runs (if admission = DUCKDB_ML_CALL_CANCELLED
        then bind (set_status a DUCKDB_ML_STATUS_CANCELLED w) (duckdb_ml_native_cleanup_begin a DUCKDB_ML_RUNTIME_RELEASED)
        else bind (query_into T a (control_sql s) w) (\<lambda>(state, w).
             bind (settle_schema a s w) (\<lambda>w.
             bind (duckdb_ml_native_cleanup_begin a DUCKDB_ML_RUNTIME_RELEASED w) (\<lambda>w.
             result_failed T a state w))))
      (busy a Y True (Suc 0) False False k w0 (\<lambda>_. True))"
    if "busy a Y True 0 False True k w0 (has_work a False False False False) w" for w admission
    by (insert that)
      (rule steps | assumption | rule assms(2) runs_conseq [OF cleanup_begin_busy] runs_conseq [OF result_failed_busy]
        | (simp add: busy_weaken; fail))+
  show ?thesis
    unfolding execute_control_body_def
    by (insert assms(1))
      (rule work_begin_then set_status_then runs_bind_pair [OF admission] runs_bindI [OF work]
          clear_work_then cleanup_end_then work_end_then
        | assumption | rule assms(2,3) | (simp; fail))+
qed

subsection \<open>The entry points\<close>

text \<open>A connection between stubs, without work.\<close>

definition quiescent :: "nat \<Rightarrow> bool \<Rightarrow> 'e world \<Rightarrow> bool" where
  "quiescent a cl w \<longleftrightarrow> heaps_below w \<and> native a False 0 cl False w"

lemma quiescent_busy: "quiescent a cl w \<Longrightarrow> R w \<Longrightarrow> stable R \<Longrightarrow> busy a Y False 0 cl False 0 w R w"
  by (simp add: quiescent_def busy_def during_start)

text \<open>
  What a stub on connection \<open>a\<close> does to the world: it may change the owners in \<open>Y\<close> only, leaves
  the connection quiescent and the counter of live resources in step.
\<close>

definition settled :: "nat \<Rightarrow> nat set \<Rightarrow> bool \<Rightarrow> 'e world \<Rightarrow> 'e world \<Rightarrow> bool" where
  "settled a Y cl w0 w \<longleftrightarrow> evo {a} Y 0 w0 w \<and> quiescent a cl w"

lemma busy_settled: "busy a Y False 0 cl False 0 w0 R w \<Longrightarrow> settled a Y cl w0 w \<and> R w"
  by (auto simp: busy_def during_def settled_def quiescent_def intro: evo_below)

lemma set_sql_busy:
  assumes "busy a Y f n cl u k w0 (has_work a False ex pr hr) w" and "a \<in> Y"
  shows "runs (on_connection a (\<lambda>c. c\<lparr>c_sql := q\<rparr>) w)
    (busy a Y f n cl u (k - of_nat (present q)) w0 (has_work a (q \<noteq> None) ex pr hr))"
  by (rule on_connection_busy [OF assms]) (auto simp: same_defs has_work_def)

lemma ml_duckdb_execute_runs:
  assumes "Connection w v = Some a" and "quiescent a False w" and "has_work a False False False False w"
    and "statement_releases T"
  shows "runs (ml_duckdb_execute T v sql is_control w) (\<lambda>(r, w'). settled a {a} False w w' \<and>
    (has_work a False False False False w' \<or> r = Async_exception \<and> has_work a True False False False w'))"
proof -
  have b: "busy a {a} False 0 False False 0 w (has_work a False False False False) w"
    using assms(2,3) by (simp add: quiescent_busy)
  obtain fails w1 where m: "malloc_fails w = (fails, w1)" by force
  note b1 = malloc_busy [OF b m]
  show ?thesis
  proof (cases fails)
    case True
    have "runs (on_connection a (\<lambda>c. c\<lparr>c_sql := None\<rparr>) w1) (busy a {a} False 0 False False 0 w (has_work a False False False False))"
      using set_sql_busy [OF b1, of None] by simp
    then show ?thesis
      unfolding ml_duckdb_execute_def using assms(1) m True by (auto simp: runs_bind dest!: busy_settled elim!: runs_conseq)
  next
    case False
    have "runs (bind (on_connection a (\<lambda>c. c\<lparr>c_sql := Some sql\<rparr>) w1) (\<lambda>w. blocking (execute_body T a is_control) (acquired w)))
      (\<lambda>(r, w'). busy a {a} False 0 False False 0 w (has_work a False False False False) w' \<or>
         r = Async_exception \<and> busy a {a} False 0 False False 0 w (has_work a True False False False) w')"
    proof (rule runs_bindI [OF set_sql_busy [OF b1]])
      fix w2
      assume "busy a {a} False 0 False False (0 - of_nat (present (Some sql))) w (has_work a (Some sql \<noteq> None) False False False) w2"
      then have "busy a {a} False 0 False False 0 w (has_work a True False False False) (acquired w2)"
        using busy_counters(1) by fastforce
      then show "runs (blocking (execute_body T a is_control) (acquired w2)) (\<lambda>(r, w').
          busy a {a} False 0 False False 0 w (has_work a False False False False) w' \<or>
          r = Async_exception \<and> busy a {a} False 0 False False 0 w (has_work a True False False False) w')"
        by (rule blocking_busy) (rule execute_body_busy [OF _ _ assms(4)], simp_all)
    qed simp
    then show ?thesis
      unfolding ml_duckdb_execute_def using assms(1) m False
      by (auto dest!: busy_settled elim!: runs_conseq)
  qed
qed

lemma ml_duckdb_execute_control_runs:
  assumes "Connection w v = Some a" and "quiescent a False w" and "has_work a False False False False w"
    and "statement_releases T"
  shows "runs (ml_duckdb_execute_control T v s w) (\<lambda>(r, w'). settled a {a} False w w' \<and>
    has_work a False False False False w')"
proof -
  have b: "busy a {a} False 0 False False 0 w (has_work a False False False False) w"
    using assms(2,3) by (simp add: quiescent_busy)
  have "runs (blocking (execute_control_body T a s) w) (\<lambda>(r, w').
      busy a {a} False 0 False False 0 w (has_work a False False False False) w' \<or>
      r = Async_exception \<and> busy a {a} False 0 False False 0 w (has_work a False False False False) w')"
    by (rule blocking_busy [OF b]) (rule execute_control_body_busy [OF _ _ assms(4)], simp_all)
  then show ?thesis
    unfolding ml_duckdb_execute_control_def using assms(1) by (auto dest!: busy_settled elim!: runs_conseq)
qed

lemma admit_local_file_runs:
  assumes "Connection w v = Some a" and "quiescent a False w"
  shows "runs (ml_duckdb_admit_local_file v w) (\<lambda>(r, w'). settled a {} False w w')"
proof -
  have b: "busy a {} False 0 False False 0 w (\<lambda>_. True) w"
    using assms(2) by (simp add: quiescent_busy)
  have "runs (blocking (\<lambda>w. bind (duckdb_ml_native_work_begin a w) (\<lambda>w.
      bind (duckdb_ml_native_noninterruptible_call_begin a w) (\<lambda>(result, w).
      bind (duckdb_ml_native_work_end a w) (\<lambda>w. Inr (if result = DUCKDB_ML_CALL_ADMITTED then 0 else 1 :: int, w))))) w)
    (\<lambda>(r, w'). busy a {} False 0 False False 0 w (\<lambda>_. True) w' \<or>
      r = Async_exception \<and> busy a {} False 0 False False 0 w (\<lambda>_. True) w')"
    by (rule blocking_busy [OF b]) (rule steps | assumption | (simp; fail))+
  then show ?thesis
    unfolding ml_duckdb_admit_local_file_def using assms(1) by (auto dest!: busy_settled elim!: runs_conseq)
qed

end
