(* ===== verification/Prepared_Safety.thy ===== *)
theory Prepared_Safety
  imports Prepared_Statements Statements_Safety
begin

text \<open>
  The stubs of a prepared owner run to completion from an idle connection and leave it idle.
  \<open>cache_ok\<close> is the invariant of the vector cache the view stubs rely on: no rows without a
  chunk, an entry per column, and no entry after the cache is freed.
\<close>

definition chunk_releases :: "'e chunk_api \<Rightarrow> bool" where
  "chunk_releases C \<longleftrightarrow> (\<forall>h e. fst (duckdb_destroy_data_chunk C h e) = None)"

definition cache_ok :: "prepared_owner \<Rightarrow> bool" where
  "cache_ok pr \<longleftrightarrow> (p_chunk pr = None \<longrightarrow> p_chunk_rows pr = 0) \<and>
     (case p_vectors pr of None \<Rightarrow> p_vector_count pr = 0 \<and> p_chunk_rows pr = 0
      | Some vs \<Rightarrow> length vs = p_vector_count pr)"

text \<open>
  The owner at \<open>p\<close> belongs to connection \<open>a\<close> and holds: a prepared statement, extracted
  statements, a chunk, an input, a result, a cache. \<open>z\<close> asks for an empty chunk.
\<close>

definition prepared_is :: "nat \<Rightarrow> bool \<Rightarrow> bool \<Rightarrow> bool \<Rightarrow> bool \<Rightarrow> bool \<Rightarrow> bool \<Rightarrow> bool \<Rightarrow> prepared_owner \<Rightarrow> bool" where
  "prepared_is a pp ex ch inp hr vc z pr \<longleftrightarrow> p_parent pr = a \<and>
     (p_prepared pr \<noteq> None) = pp \<and> (p_extracted pr \<noteq> None) = ex \<and> (p_chunk pr \<noteq> None) = ch \<and>
     (p_input pr \<noteq> None) = inp \<and> p_has_result pr = hr \<and> (p_vectors pr \<noteq> None) = vc \<and>
     (z \<longrightarrow> p_chunk_rows pr = 0) \<and> cache_ok pr"

definition has_prepared :: "nat \<Rightarrow> nat \<Rightarrow> bool \<Rightarrow> bool \<Rightarrow> bool \<Rightarrow> bool \<Rightarrow> bool \<Rightarrow> bool \<Rightarrow> bool \<Rightarrow> 'e world \<Rightarrow> bool" where
  "has_prepared p a pp ex ch inp hr vc z w \<longleftrightarrow>
     (\<exists>pr. prepareds w p = Some pr \<and> prepared_is a pp ex ch inp hr vc z pr)"

lemma present_iff: "present x = of_bool (x \<noteq> None)"
  by (cases x) simp_all

lemma prepared_resources_is:
  "prepared_is a pp ex ch inp hr vc z pr \<Longrightarrow> prepared_resources pr =
     1 + of_bool pp + of_bool ex + of_bool ch + of_bool inp + of_bool hr + of_bool vc"
  by (simp add: prepared_is_def prepared_resources_def present_iff)

definition owned :: "nat \<Rightarrow> nat \<Rightarrow> 'e world \<Rightarrow> bool" where
  "owned p a w \<longleftrightarrow> (\<exists>pr. prepareds w p = Some pr \<and> p_parent pr = a \<and> cache_ok pr)"

lemma stable_prepared:
  assumes "\<And>w w' :: 'e world. prepareds w' p = prepareds w p \<Longrightarrow> R w' = R w"
  shows "stable (R :: 'e world \<Rightarrow> bool)"
proof (unfold stable_def, intro allI impI)
  fix b k and w w' :: "'e world"
  assume e: "evo {b} {} k w w'" and h: "R w"
  have "heap_rel (evo_prepared {}) (prepareds w) (prepareds w')" using e by (simp add: evo_def)
  then have "rel_option (evo_prepared {} p) (prepareds w p) (prepareds w' p)" by (simp add: heap_rel_def)
  then have "prepareds w' p = prepareds w p"
    by (cases "prepareds w p"; cases "prepareds w' p") (auto simp: evo_prepared_def)
  then show "R w'" using assms h by blast
qed

lemma stable_has_prepared [simp]: "stable (has_prepared p a pp ex ch inp hr vc z)"
  by (rule stable_prepared [of p]) (simp add: has_prepared_def)

lemma stable_owned [simp]: "stable (owned p a)"
  by (rule stable_prepared [of p]) (simp add: owned_def)

lemma has_prepared_owner:
  assumes "busy a Y f n cl u k w0 (has_prepared p b pp ex ch inp hr vc z) w"
  obtains pr where "prepareds w p = Some pr" and "prepared_is b pp ex ch inp hr vc z pr" and "p_parent pr = b"
  using assms by (auto simp: busy_def has_prepared_def prepared_is_def)

lemma has_prepared_weaken:
  "busy a Y f n cl u k w0 (has_prepared p b pp ex ch inp hr vc z) w \<Longrightarrow> busy a Y f n cl u k w0 (owned p b) w"
  by (auto simp: busy_def has_prepared_def prepared_is_def owned_def)

lemma has_prepared_unzero:
  "busy a Y f n cl u k w0 (has_prepared p b pp ex ch inp hr vc z) w \<Longrightarrow>
   busy a Y f n cl u k w0 (has_prepared p b pp ex ch inp hr vc False) w"
  by (auto simp: busy_def has_prepared_def prepared_is_def)

lemma owned_has_prepared:
  assumes "busy a Y f n cl u k w0 (owned p b) w"
  obtains pp ex ch inp hr vc where "busy a Y f n cl u k w0 (has_prepared p b pp ex ch inp hr vc False) w"
proof -
  obtain pr where pr: "prepareds w p = Some pr" "p_parent pr = b" "cache_ok pr"
    using assms by (auto simp: busy_def owned_def)
  then have "has_prepared p b (p_prepared pr \<noteq> None) (p_extracted pr \<noteq> None) (p_chunk pr \<noteq> None)
      (p_input pr \<noteq> None) (p_has_result pr) (p_vectors pr \<noteq> None) False w"
    by (simp add: has_prepared_def prepared_is_def)
  then show thesis using assms by (intro that) (simp add: busy_def)
qed

lemma read_prepared [steps]:
  assumes "busy a Y f n cl u k w0 (has_prepared p b pp ex ch inp hr vc z) w"
    and "\<And>pr. prepareds w p = Some pr \<Longrightarrow> p_parent pr = b \<Longrightarrow> runs (g pr) Q"
  shows "runs (bind (deref (prepareds w) p) g) Q"
proof -
  obtain pr where pr: "prepareds w p = Some pr" "p_parent pr = b"
    using assms(1) by (rule has_prepared_owner)
  show ?thesis using assms(2) [OF pr] pr(1) by simp
qed

subsection \<open>Releasing one thing\<close>

lemma prepared_in_start:
  assumes "busy a Y f n cl u k w0 R w" and "prepareds w p = Some pr"
  shows "prepareds w0 p \<noteq> None"
proof -
  have "heap_rel (evo_prepared Y) (prepareds w0) (prepareds w)"
    using assms(1) by (simp add: busy_def during_def evo_def)
  then show ?thesis using heap_rel_None assms(2) by force
qed

lemma put_prepared_busy:
  assumes "busy a Y f n cl u k w0 R w" and "prepareds w p = Some pr" and "p \<in> Y" and "p_parent pr' = p_parent pr"
    and "of_nat (prepared_resources pr') = of_nat (prepared_resources pr) + d" and "R' (put_prepared p pr' w)" and "stable R'"
  shows "busy a Y f n cl u (k - d) w0 R' (put_prepared p pr' w)"
  using assms during_put_prepared [of a Y f n cl u k w0 w p pr pr'] by (simp add: busy_def)

lemma destroy_field_busy:
  assumes "busy a Y f n cl u k w0 R w" and "prepareds w p = Some pr" and "p \<in> Y" and "allowed_call n cl u j" and "stable R'"
    and "\<And>e. p_parent (g (fst (fn e)) pr) = p_parent pr \<and>
      prepared_resources pr = Suc (prepared_resources (g (fst (fn e)) pr)) \<and>
      (\<forall>w. prepareds w p = Some (g (fst (fn e)) pr) \<longrightarrow> R' w)"
  shows "runs (bind (call a j fn w) (\<lambda>(r, w). bind (on_prepared p (g r) w) (\<lambda>w. Inr (released w))))
    (busy a Y f n cl u k w0 R')"
proof -
  have "runs (bind (call a j fn w) (\<lambda>(r, w). bind (on_prepared p (g r) w) (\<lambda>w. Inr (released w))))
      (during a Y f n cl u k w0)"
    by (rule destroy_prepared_field [OF busy_during [OF assms(1)] assms(2,3,4)]) (use assms(6) in blast)
  moreover obtain c where c: "connections w a = Some c" using busy_during [OF assms(1)] by (rule during_connection)
  ultimately show ?thesis
    using assms(2,5,6) by (simp add: busy_def call_eq [OF c] on_prepared_def)
qed

text \<open>The record after an update, told by its fields.\<close>

lemma prepared_is_put:
  "prepareds w p = Some pr \<Longrightarrow> prepared_is a pp ex ch inp hr vc z pr \<Longrightarrow> has_prepared p a pp ex ch inp hr vc z w"
  by (auto simp: has_prepared_def)

lemma destroy_step:
  assumes "busy a Y f n cl u k w0 (has_prepared p a pp ex ch inp hr vc z) w" and "prepareds w p = Some pr"
    and "prepared_is a pp ex ch inp hr vc z pr" and "p \<in> Y" and "allowed_call n cl u j"
    and "\<And>e. prepared_is a pp' ex' ch' inp' hr' vc' z' (g (fst (fn e)) pr)"
    and "of_bool pp + of_bool ex + of_bool ch + of_bool inp + of_bool hr + of_bool vc =
      Suc (of_bool pp' + of_bool ex' + of_bool ch' + of_bool inp' + of_bool hr' + of_bool vc')"
  shows "runs (bind (call a j fn w) (\<lambda>(r, w). bind (on_prepared p (g r) w) (\<lambda>w. Inr (released w))))
    (busy a Y f n cl u k w0 (has_prepared p a pp' ex' ch' inp' hr' vc' z'))"
proof (rule destroy_field_busy [OF assms(1,2,4,5) stable_has_prepared])
  fix e
  have "p_parent (g (fst (fn e)) pr) = p_parent pr"
    using assms(3) assms(6) [of e] by (simp add: prepared_is_def)
  moreover have "prepared_resources pr = Suc (prepared_resources (g (fst (fn e)) pr))"
    using prepared_resources_is [OF assms(3)] prepared_resources_is [OF assms(6)] assms(7) by simp
  ultimately show "p_parent (g (fst (fn e)) pr) = p_parent pr \<and>
      prepared_resources pr = Suc (prepared_resources (g (fst (fn e)) pr)) \<and>
      (\<forall>w. prepareds w p = Some (g (fst (fn e)) pr) \<longrightarrow> has_prepared p a pp' ex' ch' inp' hr' vc' z' w)"
    using assms(6) [of e] prepared_is_put by blast
qed

lemma destroy_chunk_busy:
  assumes "busy a Y f n cl u k w0 (has_prepared p a pp ex ch inp hr vc True) w" and "p \<in> Y"
    and "allowed_call n cl u Destroy_chunk" and "chunk_releases C"
  shows "runs (destroy_chunk C p w) (busy a Y f n cl u k w0 (has_prepared p a pp ex False inp hr vc True))"
proof -
  obtain pr where pr: "prepareds w p = Some pr" "prepared_is a pp ex ch inp hr vc True pr" "p_parent pr = a"
    using assms(1) by (rule has_prepared_owner)
  show ?thesis
  proof (cases "p_chunk pr")
    case None
    then have "ch = False" using pr(2) by (auto simp: prepared_is_def)
    then show ?thesis using assms(1) pr None by (simp add: destroy_chunk_def)
  next
    case (Some h)
    have ch: "ch" using pr(2) Some by (simp add: prepared_is_def)
    show ?thesis
      unfolding destroy_chunk_def deref_Some [where m = "prepareds w", OF pr(1)] bind_Inl_Inr Some option.case pr(3)
      by (rule destroy_step [OF assms(1) pr(1,2) assms(2,3)])
        (use assms(4) pr(2) ch in \<open>auto simp: prepared_is_def cache_ok_def chunk_releases_def split: option.splits\<close>)
  qed
qed

lemma destroy_result_busy:
  assumes "busy a Y f n cl u k w0 (has_prepared p a pp ex ch inp hr vc z) w" and "p \<in> Y"
    and "allowed_call n cl u Destroy_result"
  shows "runs (destroy_result T p w) (busy a Y f n cl u k w0 (has_prepared p a pp ex ch inp False vc z))"
proof -
  obtain pr where pr: "prepareds w p = Some pr" "prepared_is a pp ex ch inp hr vc z pr" "p_parent pr = a"
    using assms(1) by (rule has_prepared_owner)
  show ?thesis
  proof (cases "p_has_result pr")
    case False
    then have "hr = False" using pr(2) by (auto simp: prepared_is_def)
    then show ?thesis using assms(1) pr False by (simp add: destroy_result_def)
  next
    case True
    have hr: "hr" using pr(2) True by (simp add: prepared_is_def)
    show ?thesis
      unfolding destroy_result_def deref_Some [where m = "prepareds w", OF pr(1)] bind_Inl_Inr if_P [OF True] pr(3)
      by (rule destroy_step [OF assms(1) pr(1,2) assms(2,3)])
        (use pr(2) hr in \<open>auto simp: prepared_is_def cache_ok_def\<close>)
  qed
qed

lemma destroy_prepared_handle_busy:
  assumes "busy a Y f n cl u k w0 (has_prepared p a pp ex ch inp hr vc z) w" and "p \<in> Y"
    and "allowed_call n cl u Destroy_prepare" and "statement_releases T"
  shows "runs (destroy_prepared_handle T p w) (busy a Y f n cl u k w0 (has_prepared p a False ex ch inp hr vc z))"
proof -
  obtain pr where pr: "prepareds w p = Some pr" "prepared_is a pp ex ch inp hr vc z pr" "p_parent pr = a"
    using assms(1) by (rule has_prepared_owner)
  show ?thesis
  proof (cases "p_prepared pr")
    case None
    then have "pp = False" using pr(2) by (auto simp: prepared_is_def)
    then show ?thesis using assms(1) pr None by (simp add: destroy_prepared_handle_def)
  next
    case (Some h)
    have pp: "pp" using pr(2) Some by (simp add: prepared_is_def)
    show ?thesis
      unfolding destroy_prepared_handle_def deref_Some [where m = "prepareds w", OF pr(1)] bind_Inl_Inr Some option.case pr(3)
      by (rule destroy_step [OF assms(1) pr(1,2) assms(2,3)])
        (use assms(4) pr(2) pp in \<open>auto simp: prepared_is_def cache_ok_def statement_releases_def\<close>)
  qed
qed

lemma destroy_extracted_handle_busy:
  assumes "busy a Y f n cl u k w0 (has_prepared p a pp ex ch inp hr vc z) w" and "p \<in> Y"
    and "allowed_call n cl u Destroy_extracted" and "statement_releases T"
  shows "runs (destroy_extracted_handle T p w) (busy a Y f n cl u k w0 (has_prepared p a pp False ch inp hr vc z))"
proof -
  obtain pr where pr: "prepareds w p = Some pr" "prepared_is a pp ex ch inp hr vc z pr" "p_parent pr = a"
    using assms(1) by (rule has_prepared_owner)
  show ?thesis
  proof (cases "p_extracted pr")
    case None
    then have "ex = False" using pr(2) by (auto simp: prepared_is_def)
    then show ?thesis using assms(1) pr None by (simp add: destroy_extracted_handle_def)
  next
    case (Some h)
    have ex: "ex" using pr(2) Some by (simp add: prepared_is_def)
    show ?thesis
      unfolding destroy_extracted_handle_def deref_Some [where m = "prepareds w", OF pr(1)] bind_Inl_Inr Some option.case pr(3)
      by (rule destroy_step [OF assms(1) pr(1,2) assms(2,3)])
        (use assms(4) pr(2) ex in \<open>auto simp: prepared_is_def cache_ok_def statement_releases_def\<close>)
  qed
qed

subsection \<open>Updates of the owner\<close>

text \<open>
  \<open>d\<close> is what the update adds to the things held; the owner's record is told by its fields
  before and after.
\<close>

lemma hold_prepared_busy:
  assumes "busy a Y f n cl u k w0 (has_prepared p b pp ex ch inp hr vc z) w" and "p \<in> Y"
    and "\<And>pr. prepared_is b pp ex ch inp hr vc z pr \<Longrightarrow> prepared_is b pp' ex' ch' inp' hr' vc' z' (g pr)"
    and "of_nat (of_bool pp' + of_bool ex' + of_bool ch' + of_bool inp' + of_bool hr' + of_bool vc') =
      of_nat (of_bool pp + of_bool ex + of_bool ch + of_bool inp + of_bool hr + of_bool vc) + d"
  shows "runs (on_prepared p g w) (busy a Y f n cl u (k - d) w0 (has_prepared p b pp' ex' ch' inp' hr' vc' z'))"
proof -
  obtain pr where pr: "prepareds w p = Some pr" "prepared_is b pp ex ch inp hr vc z pr" "p_parent pr = b"
    using assms(1) by (rule has_prepared_owner)
  note is' = assms(3) [OF pr(2)]
  have "p_parent (g pr) = p_parent pr" using is' pr(3) by (simp add: prepared_is_def)
  moreover have "of_nat (prepared_resources (g pr)) = of_nat (prepared_resources pr) + d"
    using assms(4) by (simp add: prepared_resources_is [OF pr(2)] prepared_resources_is [OF is'] add.assoc)
  moreover have "has_prepared p b pp' ex' ch' inp' hr' vc' z' (put_prepared p (g pr) w)"
    using is' by (simp add: has_prepared_def)
  ultimately have "busy a Y f n cl u (k - d) w0 (has_prepared p b pp' ex' ch' inp' hr' vc' z') (put_prepared p (g pr) w)"
    by (intro put_prepared_busy [OF assms(1) pr(1) assms(2)]) simp_all
  then show ?thesis by (simp add: on_prepared_def pr(1))
qed

lemmas keep_prepared_busy = hold_prepared_busy [where d = 0, simplified]

lemma set_error_busy:
  "busy a Y f n cl u k w0 (has_prepared p b pp ex ch inp hr vc z) w \<Longrightarrow> p \<in> Y \<Longrightarrow>
   runs (set_error p m w) (busy a Y f n cl u k w0 (has_prepared p b pp ex ch inp hr vc z))"
  unfolding set_error_def by (rule keep_prepared_busy) (auto simp: prepared_is_def cache_ok_def)

lemma set_prepared_status_busy:
  "busy a Y f n cl u k w0 (has_prepared p b pp ex ch inp hr vc z) w \<Longrightarrow> p \<in> Y \<Longrightarrow>
   runs (set_prepared_status p s w) (busy a Y f n cl u k w0 (has_prepared p b pp ex ch inp hr vc z))"
  unfolding set_prepared_status_def by (rule keep_prepared_busy) (auto simp: prepared_is_def cache_ok_def)

lemma set_prepared_result_busy:
  "busy a Y f n cl u k w0 (has_prepared p b pp ex ch inp hr vc z) w \<Longrightarrow> p \<in> Y \<Longrightarrow>
   runs (on_prepared p (\<lambda>pr. pr\<lparr>p_result := r\<rparr>) w) (busy a Y f n cl u k w0 (has_prepared p b pp ex ch inp hr vc z))"
  by (rule keep_prepared_busy) (auto simp: prepared_is_def cache_ok_def)

lemma zero_rows_busy:
  "busy a Y f n cl u k w0 (has_prepared p b pp ex ch inp hr vc z) w \<Longrightarrow> p \<in> Y \<Longrightarrow>
   runs (on_prepared p (\<lambda>pr. pr\<lparr>p_chunk_rows := 0\<rparr>) w) (busy a Y f n cl u k w0 (has_prepared p b pp ex ch inp hr vc True))"
  by (rule keep_prepared_busy) (auto simp: prepared_is_def cache_ok_def split: option.splits)

lemma release_step:
  assumes "runs m (busy a Y f n cl u (k - (- 1)) w0 R)"
  shows "runs (bind m (\<lambda>w. Inr (released w))) (busy a Y f n cl u k w0 R)"
  by (rule runs_bindI [OF assms]) (drule busy_counters(2), simp)

lemma free_vectors_busy:
  assumes "busy a Y f n cl u k w0 (has_prepared p b pp ex ch inp hr vc True) w" and "p \<in> Y"
  shows "runs (free_vectors p w) (busy a Y f n cl u k w0 (has_prepared p b pp ex ch inp hr False True))"
proof -
  obtain pr where pr: "prepareds w p = Some pr" "prepared_is b pp ex ch inp hr vc True pr" "p_parent pr = b"
    using assms(1) by (rule has_prepared_owner)
  have vc: "(p_vectors pr \<noteq> None) = vc" using pr(2) by (simp add: prepared_is_def)
  show ?thesis
    unfolding free_vectors_def deref_Some [where m = "prepareds w", OF pr(1)] bind_Inl_Inr vc
  proof (cases vc)
    case True
    then show "runs (if vc then bind (on_prepared p (\<lambda>pr. pr\<lparr>p_vectors := None, p_vector_count := 0\<rparr>) w) (\<lambda>w. Inr (released w))
        else Inr w) (busy a Y f n cl u k w0 (has_prepared p b pp ex ch inp hr False True))"
      by (simp del: minus_diff_eq diff_minus_eq_add) (rule release_step, rule hold_prepared_busy [OF assms],
        auto simp: prepared_is_def cache_ok_def)
  qed (use assms(1) in simp)
qed

lemma clear_prepared_input_busy:
  assumes "busy a Y f n cl u k w0 (has_prepared p b pp ex ch inp hr vc z) w" and "p \<in> Y"
  shows "runs (clear_prepared_input (Some p) w) (busy a Y f n cl u k w0 (has_prepared p b pp ex ch False hr vc z))"
proof -
  obtain pr where pr: "prepareds w p = Some pr" "prepared_is b pp ex ch inp hr vc z pr" "p_parent pr = b"
    using assms(1) by (rule has_prepared_owner)
  have inp: "(p_input pr \<noteq> None) = inp" using pr(2) by (simp add: prepared_is_def)
  show ?thesis
    unfolding clear_prepared_input_def option.case deref_Some [where m = "prepareds w", OF pr(1)] bind_Inl_Inr inp
  proof (cases inp)
    case True
    then show "runs (if inp then bind (on_prepared p (\<lambda>pr. pr\<lparr>p_input := None\<rparr>) w) (\<lambda>w. Inr (released w)) else Inr w)
        (busy a Y f n cl u k w0 (has_prepared p b pp ex ch False hr vc z))"
      by (simp del: minus_diff_eq diff_minus_eq_add) (rule release_step, rule hold_prepared_busy [OF assms],
        auto simp: prepared_is_def cache_ok_def)
  qed (use assms(1) in simp)
qed

lemmas destroy_chunk_then [steps] = runs_bindI [OF destroy_chunk_busy]
lemmas destroy_result_then [steps] = runs_bindI [OF destroy_result_busy]
lemmas destroy_prepared_handle_then [steps] = runs_bindI [OF destroy_prepared_handle_busy]
lemmas destroy_extracted_handle_then [steps] = runs_bindI [OF destroy_extracted_handle_busy]
lemmas set_error_then [steps] = runs_bindI [OF set_error_busy]
lemmas set_prepared_status_then [steps] = runs_bindI [OF set_prepared_status_busy]
lemmas set_prepared_result_then [steps] = runs_bindI [OF set_prepared_result_busy]
lemmas zero_rows_then [steps] = runs_bindI [OF zero_rows_busy]
lemmas free_vectors_then [steps] = runs_bindI [OF free_vectors_busy]
lemmas clear_prepared_input_then [steps] = runs_bindI [OF clear_prepared_input_busy]

subsection \<open>Releasing a result, releasing everything\<close>

lemma clear_result_busy:
  assumes "busy a Y f n cl u k w0 (has_prepared p a pp ex ch inp hr vc z) w" and "p \<in> Y" and "n < 90"
    and "statement_releases T" and "chunk_releases C" and "rt = DUCKDB_ML_RUNTIME_HELD \<Longrightarrow> \<not> f"
  shows "runs (clear_result T C (Some p) rt w) (busy a Y f n cl False k w0 (has_prepared p a pp ex False inp False False True))"
proof -
  obtain pr where pr: "prepareds w p = Some pr" "prepared_is a pp ex ch inp hr vc z pr" "p_parent pr = a"
    using assms(1) by (rule has_prepared_owner)
  show ?thesis
    unfolding clear_result_def option.case deref_Some [where m = "prepareds w", OF pr(1)] bind_Inl_Inr pr(3)
    by (insert assms(1))
      (rule steps | assumption | rule assms(2-) | rule cleanup_end_busy | (insert assms(3), simp; fail))+
qed

lemmas clear_result_then [steps] = runs_bindI [OF clear_result_busy]

lemma clear_prepared_busy:
  assumes "busy a Y f n cl u k w0 (has_prepared p a pp ex ch inp hr vc z) w" and "p \<in> Y" and "n < 80"
    and "statement_releases T" and "chunk_releases C" and "rt = DUCKDB_ML_RUNTIME_HELD \<Longrightarrow> \<not> f"
  shows "runs (clear_prepared T C (Some p) rt w) (busy a Y f n cl False k w0 (has_prepared p a False False False False False False True))"
proof -
  obtain pr where pr: "prepareds w p = Some pr" "prepared_is a pp ex ch inp hr vc z pr" "p_parent pr = a"
    using assms(1) by (rule has_prepared_owner)
  show ?thesis
    unfolding clear_prepared_def option.case deref_Some [where m = "prepareds w", OF pr(1)] bind_Inl_Inr pr(3)
    by (insert assms(1))
      (rule steps | assumption | rule assms(2,4-) | rule cleanup_end_busy | (insert assms(3), simp; fail))+
qed

subsection \<open>Preparation\<close>

lemma set_prepared_extracted_busy:
  "busy a Y f n cl u k w0 (has_prepared p b pp False ch inp hr vc z) w \<Longrightarrow> p \<in> Y \<Longrightarrow>
   runs (on_prepared p (\<lambda>pr. pr\<lparr>p_extracted := h\<rparr>) w)
     (busy a Y f n cl u (k - of_nat (present h)) w0 (has_prepared p b pp (h \<noteq> None) ch inp hr vc z))"
  by (rule hold_prepared_busy) (auto simp: prepared_is_def cache_ok_def present_iff)

lemma set_prepared_prepared_busy:
  "busy a Y f n cl u k w0 (has_prepared p b False ex ch inp hr vc z) w \<Longrightarrow> p \<in> Y \<Longrightarrow>
   runs (on_prepared p (\<lambda>pr. pr\<lparr>p_prepared := h\<rparr>) w)
     (busy a Y f n cl u (k - of_nat (present h)) w0 (has_prepared p b (h \<noteq> None) ex ch inp hr vc z))"
  by (rule hold_prepared_busy) (auto simp: prepared_is_def cache_ok_def present_iff)

lemma set_prepared_chunk_busy:
  "busy a Y f n cl u k w0 (has_prepared p b pp ex False inp hr vc True) w \<Longrightarrow> p \<in> Y \<Longrightarrow>
   runs (on_prepared p (\<lambda>pr. pr\<lparr>p_chunk := h\<rparr>) w)
     (busy a Y f n cl u (k - of_nat (present h)) w0 (has_prepared p b pp ex (h \<noteq> None) inp hr vc True))"
  by (rule hold_prepared_busy) (auto simp: prepared_is_def cache_ok_def present_iff split: option.splits)

lemma set_prepared_input_busy:
  "busy a Y f n cl u k w0 (has_prepared p b pp ex ch False hr vc z) w \<Longrightarrow> p \<in> Y \<Longrightarrow>
   runs (on_prepared p (\<lambda>pr. pr\<lparr>p_input := h\<rparr>) w)
     (busy a Y f n cl u (k - of_nat (present h)) w0 (has_prepared p b pp ex ch (h \<noteq> None) hr vc z))"
  by (rule hold_prepared_busy) (auto simp: prepared_is_def cache_ok_def present_iff)

lemma set_prepared_has_result_busy:
  "busy a Y f n cl u k w0 (has_prepared p b pp ex ch inp False vc z) w \<Longrightarrow> p \<in> Y \<Longrightarrow>
   runs (on_prepared p (\<lambda>pr. pr\<lparr>p_has_result := True\<rparr>) w)
     (busy a Y f n cl u (k - 1) w0 (has_prepared p b pp ex ch inp True vc z))"
  by (rule hold_prepared_busy) (auto simp: prepared_is_def cache_ok_def)

lemmas set_prepared_extracted_then [steps] = runs_bindI [OF set_prepared_extracted_busy]
lemmas set_prepared_prepared_then [steps] = runs_bindI [OF set_prepared_prepared_busy]
lemmas set_prepared_chunk_then [steps] = runs_bindI [OF set_prepared_chunk_busy]
lemmas set_prepared_input_then [steps] = runs_bindI [OF set_prepared_input_busy]
lemmas set_prepared_has_result_then [steps] = runs_bindI [OF set_prepared_has_result_busy]

lemma schema_enter_prepared:
  "busy a Y f n cl u k w0 (has_prepared p b pp ex ch inp hr vc z) w \<Longrightarrow> a \<in> Y \<Longrightarrow>
   runs (duckdb_ml_schema_enter T a s w) (\<lambda>(_, w'). busy a Y f n cl u k w0 (has_prepared p b pp ex ch inp hr vc z) w')"
  by (rule schema_enter_busy) (auto simp: has_prepared_def)

lemmas schema_enter_prepared_then [steps] = runs_bind_pair [OF schema_enter_prepared]

text \<open>Whatever the owner holds now, it is an owner of connection \<open>a\<close> with a sound cache.\<close>

lemma owned_user: "busy a Y f n cl u k w0 (has_prepared p b pp ex ch inp hr vc z) w \<Longrightarrow> busy a Y f n cl True k w0 (owned p b) w"
  by (cases u) (auto intro: has_prepared_weaken busy_user)

lemma prepare_extracted_busy:
  assumes "busy a Y True 0 False True k w0 (has_prepared p a False ex ch inp hr vc z) w" and "p \<in> Y"
  shows "runs (prepare_extracted T a p connection w) (busy a Y True 0 False True k w0 (owned p a))"
proof -
  obtain pr where pr: "prepareds w p = Some pr" using assms(1) by (rule has_prepared_owner)
  show ?thesis
    unfolding prepare_extracted_def deref_Some [where m = "prepareds w", OF pr] bind_Inl_Inr
    by (insert assms(1))
      (rule steps | assumption | rule assms(2) count_handle_busy
        | rule runs_conseq [OF set_error_busy] runs_conseq [OF set_prepared_status_busy]
        | rule owned_user | (simp; fail) | (simp only: runs_simps, rule owned_user))+
qed

lemma extract_and_prepare_busy:
  assumes "busy a Y True 0 False True k w0 (has_prepared p a False False ch True hr vc z) w" and "p \<in> Y"
  shows "runs (extract_and_prepare T a p connection w) (busy a Y True 0 False True k w0 (owned p a))"
proof -
  obtain pr where pr: "prepareds w p = Some pr" "prepared_is a False False ch True hr vc z pr"
    using assms(1) by (rule has_prepared_owner)
  then obtain input where input: "p_input pr = Some input" by (auto simp: prepared_is_def)
  show ?thesis
    unfolding extract_and_prepare_def deref_Some [where m = "prepareds w", OF pr(1)] bind_Inl_Inr input not_null_simps
    by (insert assms(1))
      (rule steps prepare_extracted_busy | assumption | rule assms(2) count_handle_busy
        | rule runs_conseq [OF set_error_busy] runs_conseq [OF set_prepared_status_busy]
        | rule owned_user | (simp; fail))+
qed

lemma prepare_body_busy:
  assumes "busy a Y False 0 False u k w0 (has_prepared p a False False ch True hr vc z) w" and "p \<in> Y" and "statement_releases T"
  shows "runs (prepare_body T a p connection w) (\<lambda>(_, w'). busy a Y False 0 False False k w0 (owned p a) w')"
proof -
  have work: "runs (if admission = DUCKDB_ML_CALL_CANCELLED then set_prepared_status p DUCKDB_ML_STATUS_CANCELLED w
      else extract_and_prepare T a p connection w) (busy a Y True 0 False True k w0 (owned p a))"
    if "busy a Y True 0 False True k w0 (has_prepared p a False False ch True hr vc z) w" for admission w
    by (insert that)
      (rule steps extract_and_prepare_busy | assumption | rule assms(2) runs_conseq [OF set_prepared_status_busy] | rule owned_user)+
  have rest: "runs (bind (duckdb_ml_native_cleanup_begin a DUCKDB_ML_RUNTIME_RELEASED w) (\<lambda>w.
      bind (destroy_extracted_handle T p w) (\<lambda>w. bind (clear_prepared_input (Some p) w) (\<lambda>w.
      bind (duckdb_ml_native_cleanup_end a DUCKDB_ML_RUNTIME_RELEASED w) (\<lambda>w.
      bind (duckdb_ml_native_work_end a w) (\<lambda>w. Inr ((), w)))))))
    (\<lambda>(_, w'). busy a Y False 0 False False k w0 (owned p a) w')"
    if o: "busy a Y True 0 False True k w0 (owned p a) w" for w
  proof -
    obtain pp ex ch inp hr vc where b: "busy a Y True 0 False True k w0 (has_prepared p a pp ex ch inp hr vc False) w"
      using o by (rule owned_has_prepared)
    show ?thesis
      by (insert b) (rule steps | assumption | rule assms(2,3) | (simp; fail) | (simp only: runs_simps prod.case, rule has_prepared_weaken))+
  qed
  show ?thesis
    unfolding prepare_body_def
    by (insert assms(1))
      (rule work_begin_then set_prepared_status_then user_call_begin_then runs_bindI [OF work] rest | assumption | rule assms(2))+
qed

end
