(* ===== verification/Binding.thy ===== *)
theory Binding
  imports Prepared_Statements
begin

text \<open>
  Parameter binding and the unchecked chunk reads (\<open>typed_stubs.c\<close>). Every binding admits
  the cancellation latch before it touches the statement. The narrowing of a double to a
  float and the widening back are the processor's, a parameter here; doubles and floats are
  their bit patterns.
\<close>

record 'e bind_api =
  duckdb_bind_null :: "nat option \<Rightarrow> nat \<Rightarrow> 'e \<Rightarrow> duckdb_state \<times> 'e"
  duckdb_bind_boolean :: "nat option \<Rightarrow> nat \<Rightarrow> bool \<Rightarrow> 'e \<Rightarrow> duckdb_state \<times> 'e"
  duckdb_bind_int8 :: "nat option \<Rightarrow> nat \<Rightarrow> 8 word \<Rightarrow> 'e \<Rightarrow> duckdb_state \<times> 'e"
  duckdb_bind_int16 :: "nat option \<Rightarrow> nat \<Rightarrow> 16 word \<Rightarrow> 'e \<Rightarrow> duckdb_state \<times> 'e"
  duckdb_bind_int32 :: "nat option \<Rightarrow> nat \<Rightarrow> 32 word \<Rightarrow> 'e \<Rightarrow> duckdb_state \<times> 'e"
  duckdb_bind_int64 :: "nat option \<Rightarrow> nat \<Rightarrow> 64 word \<Rightarrow> 'e \<Rightarrow> duckdb_state \<times> 'e"
  duckdb_bind_date :: "nat option \<Rightarrow> nat \<Rightarrow> 32 word \<Rightarrow> 'e \<Rightarrow> duckdb_state \<times> 'e"
  duckdb_bind_timestamp :: "nat option \<Rightarrow> nat \<Rightarrow> 64 word \<Rightarrow> 'e \<Rightarrow> duckdb_state \<times> 'e"
  duckdb_bind_timestamp_tz :: "nat option \<Rightarrow> nat \<Rightarrow> 64 word \<Rightarrow> 'e \<Rightarrow> duckdb_state \<times> 'e"
  duckdb_create_timestamp_s :: "64 word \<Rightarrow> 'e \<Rightarrow> nat option \<times> 'e"
  duckdb_create_timestamp_ms :: "64 word \<Rightarrow> 'e \<Rightarrow> nat option \<times> 'e"
  duckdb_create_timestamp_ns :: "64 word \<Rightarrow> 'e \<Rightarrow> nat option \<times> 'e"
  duckdb_bind_value :: "nat option \<Rightarrow> nat \<Rightarrow> nat \<Rightarrow> 'e \<Rightarrow> duckdb_state \<times> 'e"
  duckdb_destroy_value :: "nat \<Rightarrow> 'e \<Rightarrow> unit \<times> 'e"
  duckdb_bind_float :: "nat option \<Rightarrow> nat \<Rightarrow> 32 word \<Rightarrow> 'e \<Rightarrow> duckdb_state \<times> 'e"
  duckdb_bind_double :: "nat option \<Rightarrow> nat \<Rightarrow> 64 word \<Rightarrow> 'e \<Rightarrow> duckdb_state \<times> 'e"
  duckdb_bind_blob :: "nat option \<Rightarrow> nat \<Rightarrow> string \<Rightarrow> 'e \<Rightarrow> duckdb_state \<times> 'e"
  duckdb_bind_varchar_length :: "nat option \<Rightarrow> nat \<Rightarrow> string \<Rightarrow> 'e \<Rightarrow> duckdb_state \<times> 'e"
  duckdb_clear_bindings :: "nat option \<Rightarrow> 'e \<Rightarrow> duckdb_state \<times> 'e"

definition bind_status :: "'e statement_api \<Rightarrow> nat \<Rightarrow> duckdb_state \<Rightarrow> 'e world \<Rightarrow> 'e world run" where
  "bind_status T p state w =
     bind (set_prepared_status p (if state = DuckDBSuccess then DUCKDB_ML_STATUS_OK else DUCKDB_ML_STATUS_ERROR) w) (\<lambda>w.
     bind (deref (prepareds w) p) (\<lambda>pr.
     if p_status pr \<noteq> DUCKDB_ML_STATUS_OK
     then (let error = duckdb_prepare_error T (p_prepared pr) (w_engine w) in
       on_prepared p (\<lambda>pr. pr\<lparr>p_message := diagnostic ''DuckDB parameter binding failed''
         (if nonempty error then error else None)\<rparr>) w)
     else Inr w))"

definition admit_binding :: "nat \<Rightarrow> nat \<Rightarrow> 'e world \<Rightarrow> (bool \<times> 'e world) run" where
  "admit_binding a p w =
     bind (duckdb_ml_native_noninterruptible_call_begin a w) (\<lambda>(admission, w).
     if admission = DUCKDB_ML_CALL_CANCELLED
     then bind (set_prepared_status p DUCKDB_ML_STATUS_CANCELLED w) (\<lambda>w. Inr (False, w))
     else Inr (True, w))"

text \<open>\<open>if (admit_binding(p)) bind_status(p, f(p->prepared));\<close>\<close>

definition admitted_bind :: "'e statement_api \<Rightarrow> nat \<Rightarrow> nat \<Rightarrow> engine_call
    \<Rightarrow> (nat option \<Rightarrow> 'e \<Rightarrow> duckdb_state \<times> 'e) \<Rightarrow> 'e world \<Rightarrow> 'e world run" where
  "admitted_bind T a p k f w =
     bind (admit_binding a p w) (\<lambda>(admitted, w).
     if admitted
     then bind (deref (prepareds w) p) (\<lambda>pr.
          bind (call a k (f (p_prepared pr)) w) (\<lambda>(state, w).
          bind_status T p state w))
     else Inr w)"

definition working_on :: "nat \<Rightarrow> ('e world \<Rightarrow> 'e world run) \<Rightarrow> 'e world \<Rightarrow> (unit \<times> 'e world) run" where
  "working_on a body w =
     bind (duckdb_ml_native_work_begin a w) (\<lambda>w.
     bind (body w) (\<lambda>w.
     bind (duckdb_ml_native_work_end a w) (\<lambda>w. Inr ((), w))))"

definition ml_duckdb_bind_null :: "'e statement_api \<Rightarrow> 'e bind_api \<Rightarrow> nat \<Rightarrow> nat \<Rightarrow> 'e world
    \<Rightarrow> (unit reply \<times> 'e world) run" where
  "ml_duckdb_bind_null T B v i w =
     bind (deref (Prepared w) v) (\<lambda>p. bind (deref (prepareds w) p) (\<lambda>pr.
     blocking (working_on (p_parent pr)
       (admitted_bind T (p_parent pr) p Bind (\<lambda>s. duckdb_bind_null B s i))) w))"

text \<open>The typed binding of an integer: the value is cut to the parameter's width.\<close>

datatype bind_attempt = Bound duckdb_state | Temporal "nat option"

definition bind_by_type :: "'e bind_api \<Rightarrow> nat option \<Rightarrow> nat \<Rightarrow> duckdb_type \<Rightarrow> 64 word \<Rightarrow> 'e \<Rightarrow> bind_attempt \<times> 'e" where
  "bind_by_type B s i t x e = (case t of
      DUCKDB_TYPE_BOOLEAN \<Rightarrow> map_prod Bound id (duckdb_bind_boolean B s i (x \<noteq> 0) e)
    | DUCKDB_TYPE_TINYINT \<Rightarrow> map_prod Bound id (duckdb_bind_int8 B s i (ucast x) e)
    | DUCKDB_TYPE_SMALLINT \<Rightarrow> map_prod Bound id (duckdb_bind_int16 B s i (ucast x) e)
    | DUCKDB_TYPE_INTEGER \<Rightarrow> map_prod Bound id (duckdb_bind_int32 B s i (ucast x) e)
    | DUCKDB_TYPE_BIGINT \<Rightarrow> map_prod Bound id (duckdb_bind_int64 B s i x e)
    | DUCKDB_TYPE_DATE \<Rightarrow> map_prod Bound id (duckdb_bind_date B s i (ucast x) e)
    | DUCKDB_TYPE_TIMESTAMP \<Rightarrow> map_prod Bound id (duckdb_bind_timestamp B s i x e)
    | DUCKDB_TYPE_TIMESTAMP_TZ \<Rightarrow> map_prod Bound id (duckdb_bind_timestamp_tz B s i x e)
    | DUCKDB_TYPE_TIMESTAMP_S \<Rightarrow> map_prod Temporal id (duckdb_create_timestamp_s B x e)
    | DUCKDB_TYPE_TIMESTAMP_MS \<Rightarrow> map_prod Temporal id (duckdb_create_timestamp_ms B x e)
    | DUCKDB_TYPE_TIMESTAMP_NS \<Rightarrow> map_prod Temporal id (duckdb_create_timestamp_ns B x e)
    | _ \<Rightarrow> (Bound DuckDBError, e))"

text \<open>The engine call the switch makes; none in its default case.\<close>

definition bind_call_kind :: "duckdb_type \<Rightarrow> engine_call option" where
  "bind_call_kind t = (case t of
      DUCKDB_TYPE_BOOLEAN \<Rightarrow> Some Bind | DUCKDB_TYPE_TINYINT \<Rightarrow> Some Bind | DUCKDB_TYPE_SMALLINT \<Rightarrow> Some Bind
    | DUCKDB_TYPE_INTEGER \<Rightarrow> Some Bind | DUCKDB_TYPE_BIGINT \<Rightarrow> Some Bind | DUCKDB_TYPE_DATE \<Rightarrow> Some Bind
    | DUCKDB_TYPE_TIMESTAMP \<Rightarrow> Some Bind | DUCKDB_TYPE_TIMESTAMP_TZ \<Rightarrow> Some Bind
    | DUCKDB_TYPE_TIMESTAMP_S \<Rightarrow> Some Create_value | DUCKDB_TYPE_TIMESTAMP_MS \<Rightarrow> Some Create_value
    | DUCKDB_TYPE_TIMESTAMP_NS \<Rightarrow> Some Create_value | _ \<Rightarrow> None)"

text \<open>A temporal value is bound after a second admission and destroyed in any case.\<close>

definition bind_temporal :: "'e bind_api \<Rightarrow> nat \<Rightarrow> nat \<Rightarrow> nat \<Rightarrow> nat option \<Rightarrow> 'e world \<Rightarrow> (duckdb_state \<times> 'e world) run" where
  "bind_temporal B a p i temporal w = (case temporal of None \<Rightarrow> Inr (DuckDBError, w)
     | Some t \<Rightarrow>
       bind (admit_binding a p w) (\<lambda>(admitted, w).
       bind (if admitted
             then bind (deref (prepareds w) p) (\<lambda>pr. call a Bind (duckdb_bind_value B (p_prepared pr) i t) w)
             else Inr (DuckDBError, w)) (\<lambda>(state, w).
       bind (duckdb_ml_native_cleanup_begin a DUCKDB_ML_RUNTIME_RELEASED w) (\<lambda>w.
       bind (call a Destroy_value (duckdb_destroy_value B t) w) (\<lambda>(_, w).
       bind (duckdb_ml_native_cleanup_end a DUCKDB_ML_RUNTIME_RELEASED w) (\<lambda>w.
       Inr (state, w)))))))"

definition bind_int64_body :: "'e statement_api \<Rightarrow> 'e bind_api \<Rightarrow> nat \<Rightarrow> nat \<Rightarrow> nat \<Rightarrow> duckdb_type \<Rightarrow> 64 word
    \<Rightarrow> 'e world \<Rightarrow> 'e world run" where
  "bind_int64_body T B a p i t x w =
     bind (set_prepared_status p DUCKDB_ML_STATUS_OK w) (\<lambda>w.
     bind (admit_binding a p w) (\<lambda>(admitted, w).
     if \<not> admitted then Inr w
     else bind (deref (prepareds w) p) (\<lambda>pr.
     bind (case bind_call_kind t of None \<Rightarrow> Inr (Bound DuckDBError, w)
           | Some k \<Rightarrow> call a k (bind_by_type B (p_prepared pr) i t x) w) (\<lambda>(attempt, w).
     bind (case attempt of Bound state \<Rightarrow> Inr (state, w)
           | Temporal temporal \<Rightarrow> bind_temporal B a p i temporal w) (\<lambda>(state, w).
     bind (deref (prepareds w) p) (\<lambda>pr.
     if p_status pr \<noteq> DUCKDB_ML_STATUS_CANCELLED then bind_status T p state w else Inr w))))))"

definition ml_duckdb_bind_int64 :: "'e statement_api \<Rightarrow> 'e bind_api \<Rightarrow> nat \<Rightarrow> nat \<Rightarrow> duckdb_type \<Rightarrow> 64 word
    \<Rightarrow> 'e world \<Rightarrow> (unit reply \<times> 'e world) run" where
  "ml_duckdb_bind_int64 T B v i t x w =
     bind (deref (Prepared w) v) (\<lambda>p. bind (deref (prepareds w) p) (\<lambda>pr.
     blocking (working_on (p_parent pr) (bind_int64_body T B (p_parent pr) p i t x)) w))"

definition ml_duckdb_bind_float :: "'e statement_api \<Rightarrow> 'e bind_api \<Rightarrow> (64 word \<Rightarrow> 32 word) \<Rightarrow> nat \<Rightarrow> nat
    \<Rightarrow> duckdb_type \<Rightarrow> 64 word \<Rightarrow> 'e world \<Rightarrow> (unit reply \<times> 'e world) run" where
  "ml_duckdb_bind_float T B narrow v i t x w =
     bind (deref (Prepared w) v) (\<lambda>p. bind (deref (prepareds w) p) (\<lambda>pr.
     blocking (working_on (p_parent pr) (admitted_bind T (p_parent pr) p Bind (\<lambda>s.
       if t = DUCKDB_TYPE_FLOAT then duckdb_bind_float B s i (narrow x)
       else duckdb_bind_double B s i x))) w))"

definition ml_duckdb_bind_string :: "'e statement_api \<Rightarrow> 'e bind_api \<Rightarrow> nat \<Rightarrow> nat \<Rightarrow> duckdb_type \<Rightarrow> string
    \<Rightarrow> 'e world \<Rightarrow> (unit reply \<times> 'e world) run" where
  "ml_duckdb_bind_string T B v i t text w =
     bind (deref (Prepared w) v) (\<lambda>p. bind (deref (prepareds w) p) (\<lambda>pr.
     case malloc_fails w of (fails, w) \<Rightarrow>
     if fails then bind (on_prepared p (\<lambda>pr. pr\<lparr>p_input := None\<rparr>) w) (\<lambda>w. Inr (Out_of_memory, w))
     else bind (on_prepared p (\<lambda>pr. pr\<lparr>p_input := Some text\<rparr>) w) (\<lambda>w.
     blocking (working_on (p_parent pr) (\<lambda>w.
       bind (admitted_bind T (p_parent pr) p Bind (\<lambda>s.
         if t = DUCKDB_TYPE_BLOB then duckdb_bind_blob B s i text
         else duckdb_bind_varchar_length B s i text) w) (\<lambda>w.
       bind (on_prepared p (\<lambda>pr. pr\<lparr>p_input := None\<rparr>) w) (\<lambda>w.
       Inr (released w))))) (acquired w))))"

definition ml_duckdb_reset :: "'e statement_api \<Rightarrow> 'e bind_api \<Rightarrow> nat \<Rightarrow> 'e world \<Rightarrow> (unit reply \<times> 'e world) run" where
  "ml_duckdb_reset T B v w =
     bind (deref (Prepared w) v) (\<lambda>p. bind (deref (prepareds w) p) (\<lambda>pr.
     blocking (working_on (p_parent pr)
       (admitted_bind T (p_parent pr) p Clear_bindings (duckdb_clear_bindings B))) w))"

subsection \<open>Unchecked chunk reads\<close>

definition chunk_vector :: "'e chunk_api \<Rightarrow> prepared_owner \<Rightarrow> nat \<Rightarrow> 'e world \<Rightarrow> nat" where
  "chunk_vector C pr c w = duckdb_data_chunk_get_vector C (p_chunk pr) c (w_engine w)"

definition chunk_element :: "'e chunk_api \<Rightarrow> prepared_owner \<Rightarrow> nat \<Rightarrow> nat \<Rightarrow> 'e world \<Rightarrow> 'a::len word run" where
  "chunk_element C pr c i w =
     bind (load (mapped C (w_engine w))
       (duckdb_vector_get_data C (chunk_vector C pr c w) (w_engine w) + i * (LENGTH('a) div 8))
       (LENGTH('a) div 8)) (\<lambda>bs. Inr (le_word bs))"

definition ml_duckdb_chunk_valid :: "'e chunk_api \<Rightarrow> nat \<Rightarrow> nat \<Rightarrow> nat \<Rightarrow> 'e world \<Rightarrow> bool run" where
  "ml_duckdb_chunk_valid C v c i w = bind (prepared_at v w) (\<lambda>pr.
     case duckdb_vector_get_validity C (chunk_vector C pr c w) (w_engine w) of
       None \<Rightarrow> Inr True
     | Some base \<Rightarrow> bind (load (mapped C (w_engine w)) (base + 8 * (i div 64)) 8) (\<lambda>bs.
         Inr (drop_bit (i mod 64) (le_word bs :: 64 word) AND 1 \<noteq> 0)))"

definition ml_duckdb_chunk_int64 :: "'e chunk_api \<Rightarrow> nat \<Rightarrow> nat \<Rightarrow> nat \<Rightarrow> 'e world \<Rightarrow> 64 word run" where
  "ml_duckdb_chunk_int64 C v c i w = bind (prepared_at v w) (\<lambda>pr.
     case duckdb_column_type C (p_result pr) c (w_engine w) of
       DUCKDB_TYPE_BOOLEAN \<Rightarrow> bind (chunk_element C pr c i w) (\<lambda>x :: 8 word. Inr (if x \<noteq> 0 then 1 else 0))
     | DUCKDB_TYPE_TINYINT \<Rightarrow> bind (chunk_element C pr c i w) (\<lambda>x :: 8 word. Inr (scast x))
     | DUCKDB_TYPE_SMALLINT \<Rightarrow> bind (chunk_element C pr c i w) (\<lambda>x :: 16 word. Inr (scast x))
     | DUCKDB_TYPE_INTEGER \<Rightarrow> bind (chunk_element C pr c i w) (\<lambda>x :: 32 word. Inr (scast x))
     | DUCKDB_TYPE_DATE \<Rightarrow> bind (chunk_element C pr c i w) (\<lambda>x :: 32 word. Inr (scast x))
     | _ \<Rightarrow> chunk_element C pr c i w)"

definition ml_duckdb_chunk_float :: "'e chunk_api \<Rightarrow> (32 word \<Rightarrow> 64 word) \<Rightarrow> nat \<Rightarrow> nat \<Rightarrow> nat \<Rightarrow> 'e world \<Rightarrow> 64 word run" where
  "ml_duckdb_chunk_float C widen v c i w = bind (prepared_at v w) (\<lambda>pr.
     if duckdb_column_type C (p_result pr) c (w_engine w) = DUCKDB_TYPE_FLOAT
     then bind (chunk_element C pr c i w) (\<lambda>x :: 32 word. Inr (widen x))
     else chunk_element C pr c i w)"

definition ml_duckdb_chunk_string :: "'e chunk_api \<Rightarrow> nat \<Rightarrow> nat \<Rightarrow> nat \<Rightarrow> 'e world \<Rightarrow> 8 word list run" where
  "ml_duckdb_chunk_string C v c i w = bind (prepared_at v w) (\<lambda>pr.
     let e = w_engine w;
         text = duckdb_vector_get_data C (chunk_vector C pr c w) e + i * sizeof_duckdb_string_t C
     in load (mapped C e) (duckdb_string_t_data C text e) (duckdb_string_t_length C text e))"

end
