(* ===== verification/Prepared_Calls.thy ===== *)
theory Prepared_Calls
  imports Prepared_Safety Binding
begin

text \<open>
  The entry points of a prepared owner: execution, fetching, closing and binding, from an
  idle connection back to an idle connection.
\<close>

subsection \<open>Execution and fetching\<close>

lemma has_prepared_schema [simp]:
  "has_prepared p b pp ex ch inp hr vc z (put_connection a c w) = has_prepared p b pp ex ch inp hr vc z w"
  by (simp add: has_prepared_def)

lemma run_prepared_busy:
  assumes "busy a Y True 0 False True k w0 (has_prepared p a pp ex ch inp False vc z) w" and "p \<in> Y" and "a \<in> Y"
  shows "runs (run_prepared T a p w) (busy a Y True 0 False True k w0 (owned p a))"
  unfolding run_prepared_def
  by (insert assms(1))
    (rule steps | assumption | rule assms(2,3) acquired_busy schema_leave_busy
      | rule runs_conseq [OF set_error_busy] | rule owned_user
      | (simp; fail) | (simp only: runs_simps, rule owned_user))+

lemma fresh_vectors_length [simp]: "length (fresh_vectors C n r e) = n"
  by (simp add: fresh_vectors_def)

lemma refresh_vectors_length [simp]: "length (refresh_vectors C chunk e n vs) = length vs"
  by (simp add: refresh_vectors_def)

lemma refresh_cache_busy:
  assumes "busy a Y f n cl u k w0 (has_prepared p b pp ex True inp hr vc True) w" and "p \<in> Y"
  shows "runs (on_prepared p (\<lambda>pr. case p_vectors pr of
            None \<Rightarrow> pr
          | Some vs \<Rightarrow> pr\<lparr>p_vectors := Some (refresh_vectors C (p_chunk pr) e m vs),
              p_chunk_rows := duckdb_data_chunk_get_size C (p_chunk pr) e\<rparr>) w)
        (busy a Y f n cl u k w0 (has_prepared p b pp ex True inp hr vc False))"
  by (rule keep_prepared_busy [OF assms]) (auto simp: prepared_is_def cache_ok_def split: option.splits)

lemma fill_cache_busy:
  assumes "busy a Y f n cl u k w0 (has_prepared p b pp ex True inp hr False True) w" and "p \<in> Y"
  shows "runs (on_prepared p (\<lambda>pr. pr\<lparr>p_vectors := Some (fresh_vectors C m (p_result pr) e), p_vector_count := m\<rparr>) w)
        (busy a Y f n cl u (k - 1) w0 (has_prepared p b pp ex True inp hr True True))"
  by (rule hold_prepared_busy [OF assms]) (auto simp: prepared_is_def cache_ok_def)

lemma cache_vectors_busy:
  assumes "busy a Y f n cl u k w0 (has_prepared p b pp ex True inp hr vc True) w" and "p \<in> Y"
  shows "runs (cache_vectors C p w) (busy a Y f n cl u k w0 (owned p b))"
proof -
  obtain pr where pr: "prepareds w p = Some pr" "prepared_is b pp ex True inp hr vc True pr"
    using assms(1) by (rule has_prepared_owner)
  define m where "m = duckdb_data_chunk_get_column_count C (p_chunk pr) (w_engine w)"
  have vc: "(p_vectors pr = None) = (\<not> vc)" using pr(2) by (auto simp: prepared_is_def)
  have refreshed: "runs (on_prepared p (\<lambda>pr. case p_vectors pr of
            None \<Rightarrow> pr
          | Some vs \<Rightarrow> pr\<lparr>p_vectors := Some (refresh_vectors C (p_chunk pr) (w_engine w) m vs),
              p_chunk_rows := duckdb_data_chunk_get_size C (p_chunk pr) (w_engine w)\<rparr>) w)
        (busy a Y f n cl u k w0 (owned p b))"
    if "busy a Y f n cl u k w0 (has_prepared p b pp ex True inp hr vc' True) w" for vc' w
    by (rule runs_conseq [OF refresh_cache_busy [OF that assms(2)]]) (rule has_prepared_weaken)
  obtain fails w1 where malloc: "malloc_fails w = (fails, w1)" by force
  note b1 = malloc_busy [OF assms(1) malloc]
  show ?thesis
    unfolding cache_vectors_def deref_Some [where m = "prepareds w", OF pr(1)] bind_Inl_Inr Let_def m_def [symmetric] malloc prod.case vc
  proof (rule runs_bind_pair [where P = "\<lambda>go_on w. if go_on then \<exists>vc. busy a Y f n cl u k w0 (has_prepared p b pp ex True inp hr vc True) w
        else busy a Y f n cl u k w0 (owned p b) w"])
    show "runs (if \<not> vc \<and> m \<noteq> 0
        then if fails then bind (set_error p (Some ''Cannot allocate the vector cache'') w1) (\<lambda>w. Inr (False, w))
             else bind (on_prepared p (\<lambda>pr. pr\<lparr>p_vectors := Some (fresh_vectors C m (p_result pr) (w_engine w1)),
                    p_vector_count := m\<rparr>) (acquired w1)) (\<lambda>w. Inr (True, w))
        else Inr (True, w))
      (\<lambda>(go_on, w). if go_on then \<exists>vc. busy a Y f n cl u k w0 (has_prepared p b pp ex True inp hr vc True) w
        else busy a Y f n cl u k w0 (owned p b) w)"
    proof (intro runs_cond)
      assume "\<not> vc \<and> m \<noteq> 0" fails
      show "runs (bind (set_error p (Some ''Cannot allocate the vector cache'') w1) (\<lambda>w. Inr (False, w)))
        (\<lambda>(go_on, w). if go_on then \<exists>vc. busy a Y f n cl u k w0 (has_prepared p b pp ex True inp hr vc True) w
          else busy a Y f n cl u k w0 (owned p b) w)"
        by (rule runs_bindI [OF set_error_busy [OF b1 assms(2)]]) (simp add: has_prepared_weaken)
    next
      assume "\<not> vc \<and> m \<noteq> 0"
      then have "busy a Y f n cl u (k + 1) w0 (has_prepared p b pp ex True inp hr False True) (acquired w1)"
        using busy_counters(1) [OF b1] by simp
      from fill_cache_busy [OF this assms(2)]
      show "runs (bind (on_prepared p (\<lambda>pr. pr\<lparr>p_vectors := Some (fresh_vectors C m (p_result pr) (w_engine w1)),
            p_vector_count := m\<rparr>) (acquired w1)) (\<lambda>w. Inr (True, w)))
        (\<lambda>(go_on, w). if go_on then \<exists>vc. busy a Y f n cl u k w0 (has_prepared p b pp ex True inp hr vc True) w
          else busy a Y f n cl u k w0 (owned p b) w)"
        by (rule runs_bindI) (auto simp: add_diff_cancel_right')
    next
      show "runs (Inr (True, w)) (\<lambda>(go_on, w). if go_on then \<exists>vc. busy a Y f n cl u k w0 (has_prepared p b pp ex True inp hr vc True) w
          else busy a Y f n cl u k w0 (owned p b) w)"
        using assms(1) by auto
    qed
  qed (auto intro: refreshed split: if_splits)
qed

lemma fetch_next_busy:
  assumes "busy a Y True 0 False True k w0 (has_prepared p a pp ex False inp hr vc True) w" and "p \<in> Y"
  shows "runs (fetch_next T C a p w) (busy a Y True 0 False True k w0 (owned p a))"
proof -
  obtain pr where pr: "prepareds w p = Some pr" using assms(1) by (rule has_prepared_owner)
  have fetched: "runs (if chunk \<noteq> None then cache_vectors C p (acquired w)
      else let error = duckdb_result_error T (p_result pr) (w_engine w) in
           if nonempty error then set_error p error w else Inr w) (busy a Y True 0 False True k w0 (owned p a))"
    if b: "busy a Y True 0 False False (k - of_nat (present chunk)) w0 (has_prepared p a pp ex (chunk \<noteq> None) inp hr vc True) w"
    for chunk w
  proof (cases chunk)
    case None
    then have n: "busy a Y True 0 False False k w0 (has_prepared p a pp ex False inp hr vc True) w" using b by simp
    show ?thesis
      unfolding None
      by (insert n)
        (rule steps | assumption | rule runs_conseq [OF set_error_busy] assms(2) owned_user
          | (simp only: runs_simps, rule owned_user) | (simp; fail))+
  next
    case (Some h)
    then have "busy a Y True 0 False False k w0 (has_prepared p a pp ex True inp hr vc True) (acquired w)"
      using busy_counters(1) [OF b] by simp
    from runs_conseq [OF cache_vectors_busy [OF this assms(2)] busy_user]
    show ?thesis using Some by simp
  qed
  show ?thesis
    unfolding fetch_next_def deref_Some [where m = "prepareds w", OF pr] bind_Inl_Inr
    by (insert assms(1)) (rule steps fetched | assumption | rule assms(2) | (simp; fail))+
qed

lemma fetch_body_busy:
  assumes "busy a Y False 0 False u k w0 (owned p a) w" and "p \<in> Y" and "chunk_releases C"
  shows "runs (fetch_body T C a p w) (\<lambda>(_, w'). busy a Y False 0 False False k w0 (owned p a) w')"
proof -
  obtain pp ex ch inp hr vc where b: "busy a Y False 0 False u k w0 (has_prepared p a pp ex ch inp hr vc False) w"
    using assms(1) by (rule owned_has_prepared)
  have work: "runs (if admission = DUCKDB_ML_CALL_CANCELLED then set_prepared_status p DUCKDB_ML_STATUS_CANCELLED w
      else fetch_next T C a p w) (busy a Y True 0 False True k w0 (owned p a))"
    if "busy a Y True 0 False True k w0 (has_prepared p a pp ex False inp hr vc True) w" for admission w
    by (insert that)
      (rule steps fetch_next_busy | assumption | rule assms(2) runs_conseq [OF set_prepared_status_busy] | rule owned_user)+
  have answer: "runs (bind (deref (prepareds w) p) (\<lambda>pr.
      Inr (if p_status pr \<noteq> DUCKDB_ML_STATUS_OK then - 1 else if p_chunk pr \<noteq> None then 1 else (0 :: int), w)))
      (\<lambda>(_, w'). busy a Y False 0 False False k w0 (owned p a) w')"
    if "busy a Y False 0 False False k w0 (owned p a) w" for w
    using that by (auto simp: busy_def owned_def)
  show ?thesis
    unfolding fetch_body_def
    by (insert b)
      (rule work_begin_then set_prepared_status_then user_call_begin_then cleanup_begin_then cleanup_end_then
          zero_rows_then destroy_chunk_then work_end_then answer runs_bindI [OF work]
        | assumption | rule assms(2,3) | (simp; fail))+
qed

lemma owned_prepared:
  assumes "busy a Y f n cl u k w0 (owned p b) w"
  obtains pr where "prepareds w p = Some pr" and "p_parent pr = b"
  using assms by (auto simp: busy_def owned_def)

text \<open>Entry points, from a quiescent connection.\<close>

lemma quiescent_owned: "quiescent a cl w \<Longrightarrow> owned p a w \<Longrightarrow> busy a Y False 0 cl False 0 w (owned p a) w"
  by (rule quiescent_busy) simp_all

lemma blocking_owned:
  assumes "busy a Y False 0 cl False 0 w0 (owned p a) w"
    and "\<And>w. busy a Y False 0 cl False 0 w0 (owned p a) w \<Longrightarrow>
      runs (body w) (\<lambda>(_, w'). busy a Y False 0 cl False 0 w0 (owned p a) w')"
  shows "runs (blocking body w) (\<lambda>(r, w'). settled a Y cl w0 w' \<and> owned p a w')"
  by (rule runs_conseq [OF blocking_busy [OF assms]]) (auto dest!: busy_settled)

lemma ml_duckdb_fetch_runs:
  assumes "Prepared w v = Some p" and "quiescent a False w" and "owned p a w" and "chunk_releases C"
  shows "runs (ml_duckdb_fetch T C v w) (\<lambda>(r, w'). settled a {p} False w w' \<and> owned p a w')"
proof -
  have b: "busy a {p} False 0 False False 0 w (owned p a) w" using assms(2,3) by (rule quiescent_owned)
  obtain pr where pr: "prepareds w p = Some pr" "p_parent pr = a" using b by (rule owned_prepared)
  have "runs (blocking (fetch_body T C a p) w) (\<lambda>(r, w'). settled a {p} False w w' \<and> owned p a w')"
    by (rule blocking_owned [OF b]) (rule fetch_body_busy [OF _ _ assms(4)], simp_all)
  then show ?thesis using assms(1) pr by (simp add: ml_duckdb_fetch_def)
qed

lemma ml_duckdb_execute_prepared_runs:
  assumes "Prepared w v = Some p" and "quiescent a False w" and "owned p a w"
    and "prepareds w p = Some pr" and "\<not> p_has_result pr"
  shows "runs (ml_duckdb_execute_prepared T v w) (\<lambda>(r, w'). settled a {a, p} False w w' \<and> owned p a w')"
proof -
  from assms(3,4) have parent: "p_parent pr = a" and cache: "cache_ok pr" by (auto simp: owned_def)
  let ?R = "has_prepared p a (p_prepared pr \<noteq> None) (p_extracted pr \<noteq> None) (p_chunk pr \<noteq> None) (p_input pr \<noteq> None) False (p_vectors pr \<noteq> None) False"
  have b: "busy a {a, p} False 0 False False 0 w ?R w"
    by (rule quiescent_busy [OF assms(2)]) (use assms(4,5) parent cache in \<open>auto simp: has_prepared_def prepared_is_def\<close>)
  have work: "runs (if admission = DUCKDB_ML_CALL_CANCELLED then set_prepared_status p DUCKDB_ML_STATUS_CANCELLED w'
      else run_prepared T a p w') (busy a {a, p} True 0 False True 0 w (owned p a))"
    if "busy a {a, p} True 0 False True 0 w ?R w'" for admission w'
    by (insert that)
      (rule steps run_prepared_busy | assumption | rule runs_conseq [OF set_prepared_status_busy] owned_user | (simp; fail))+
  have "runs (blocking (\<lambda>w. bind (duckdb_ml_native_work_begin a w) (\<lambda>w.
       bind (set_prepared_status p DUCKDB_ML_STATUS_OK w) (\<lambda>w.
       bind (duckdb_ml_native_user_call_begin a w) (\<lambda>(admission, w).
       bind (if admission = DUCKDB_ML_CALL_CANCELLED
             then set_prepared_status p DUCKDB_ML_STATUS_CANCELLED w
             else run_prepared T a p w) (\<lambda>w.
       bind (duckdb_ml_native_work_end a w) (\<lambda>w. Inr ((), w)))))) ) w)
     (\<lambda>(r, w'). busy a {a, p} False 0 False False 0 w (owned p a) w' \<or>
       r = Async_exception \<and> busy a {a, p} False 0 False False 0 w ?R w')"
    by (rule blocking_busy [OF b])
      (rule work_begin_then set_prepared_status_then user_call_begin_then work_end_then runs_bindI [OF work]
        | assumption | (simp; fail))+
  then show ?thesis
    using assms(1,4) parent
    by (auto simp: ml_duckdb_execute_prepared_def dest!: busy_settled has_prepared_weaken elim!: runs_conseq)
qed

lemma ml_duckdb_prepare_runs:
  fixes w :: "'e world"
  assumes "Prepared w v = Some p" and "quiescent a False w" and "owned p a w" and "statement_releases T"
    and "prepareds w p = Some pr" and "p_prepared pr = None" and "p_extracted pr = None" and "p_input pr = None"
  shows "runs (ml_duckdb_prepare T v sql w) (\<lambda>(r, w'). settled a {p} False w w' \<and> owned p a w')"
proof -
  from assms(3,5) have parent: "p_parent pr = a" and cache: "cache_ok pr" by (auto simp: owned_def)
  define R :: "bool \<Rightarrow> 'e world \<Rightarrow> bool" where
    "R inp = has_prepared p a False False (p_chunk pr \<noteq> None) inp (p_has_result pr) (p_vectors pr \<noteq> None) False" for inp
  have b: "busy a {p} False 0 False False 0 w (R False) w"
    by (rule quiescent_busy [OF assms(2)]) (use assms(5-) parent cache in \<open>auto simp: R_def has_prepared_def prepared_is_def\<close>)
  obtain fails w1 where m: "malloc_fails w = (fails, w1)" by force
  note b1 = malloc_busy [OF b m]
  have ends: "busy a {p} False 0 False False 0 w (R i) w' \<Longrightarrow> settled a {p} False w w' \<and> owned p a w'" for i w'
    using busy_settled [OF has_prepared_weaken] unfolding R_def by blast
  show ?thesis
  proof (cases fails)
    case True
    have "runs (on_prepared p (\<lambda>pr. pr\<lparr>p_input := None\<rparr>) w1) (busy a {p} False 0 False False 0 w (R False))"
      using set_prepared_input_busy [OF b1 [unfolded R_def], of None] by (simp add: R_def)
    then show ?thesis
      unfolding ml_duckdb_prepare_def using assms(1) m True by (auto simp: runs_bind ends elim!: runs_conseq)
  next
    case False
    have run: "runs (blocking (prepare_body T a p connection) w2)
        (\<lambda>(r, w'). settled a {p} False w w' \<and> owned p a w')"
      if "busy a {p} False 0 False False 0 w (R True) w2" for w2 connection
    proof -
      have "runs (blocking (prepare_body T a p connection) w2) (\<lambda>(r, w'). busy a {p} False 0 False False 0 w (owned p a) w' \<or>
          r = Async_exception \<and> busy a {p} False 0 False False 0 w (R True) w')"
        by (rule blocking_busy [OF that]) (unfold R_def, rule prepare_body_busy [OF _ _ assms(4)], assumption, simp)
      then show ?thesis by (rule runs_conseq) (auto dest: busy_settled ends)
    qed
    have "runs (bind (on_prepared p (\<lambda>pr. pr\<lparr>p_input := Some sql\<rparr>) w1) (\<lambda>w.
          bind (deref (prepareds w) p) (\<lambda>pr.
          bind (duckdb_ml_connection_handle (p_parent pr) w) (\<lambda>connection.
          blocking (prepare_body T (p_parent pr) p connection) (acquired w)))))
        (\<lambda>(r, w'). settled a {p} False w w' \<and> owned p a w')"
    proof (rule runs_bindI [OF set_prepared_input_busy [OF b1 [unfolded R_def]]])
      fix w2
      assume b2: "busy a {p} False 0 False False (0 - of_nat (present (Some sql))) w
        (has_prepared p a False False (p_chunk pr \<noteq> None) (Some sql \<noteq> None) (p_has_result pr) (p_vectors pr \<noteq> None) False) w2"
      then obtain pr2 where pr2: "prepareds w2 p = Some pr2" "p_parent pr2 = a" by (rule has_prepared_owner)
      obtain c where c: "connections w2 a = Some c" using busy_during [OF b2] by (rule during_connection)
      have "busy a {p} False 0 False False 0 w (R True) (acquired w2)"
        using busy_counters(1) [OF b2] by (simp add: R_def)
      from run [OF this]
      show "runs (bind (deref (prepareds w2) p) (\<lambda>pr.
          bind (duckdb_ml_connection_handle (p_parent pr) w2) (\<lambda>connection.
          blocking (prepare_body T (p_parent pr) p connection) (acquired w2))))
        (\<lambda>(r, w'). settled a {p} False w w' \<and> owned p a w')"
        using pr2 c by (simp add: duckdb_ml_connection_handle_def)
    qed simp
    then show ?thesis unfolding ml_duckdb_prepare_def using assms(1) m False by simp
  qed
qed

lemma clear_result_owned:
  assumes "busy a Y False 0 cl False 0 w0 (owned p a) w" and "p \<in> Y" and "statement_releases T" and "chunk_releases C"
  shows "runs (clear_result T C (Some p) rt w) (busy a Y False 0 cl False 0 w0 (owned p a))"
proof -
  obtain pp ex ch inp hr vc where b: "busy a Y False 0 cl False 0 w0 (has_prepared p a pp ex ch inp hr vc False) w"
    using assms(1) by (rule owned_has_prepared)
  show ?thesis
    by (rule runs_conseq [OF clear_result_busy [OF b assms(2) _ assms(3,4)]]) (auto intro: has_prepared_weaken)
qed

lemma clear_prepared_owned:
  assumes "busy a Y False 0 cl False 0 w0 (owned p a) w" and "p \<in> Y" and "statement_releases T" and "chunk_releases C"
  shows "runs (clear_prepared T C (Some p) rt w)
    (busy a Y False 0 cl False 0 w0 (has_prepared p a False False False False False False True))"
proof -
  obtain pp ex ch inp hr vc where b: "busy a Y False 0 cl False 0 w0 (has_prepared p a pp ex ch inp hr vc False) w"
    using assms(1) by (rule owned_has_prepared)
  show ?thesis
    by (rule clear_prepared_busy [OF b assms(2) _ assms(3,4)]) auto
qed

lemma ml_duckdb_close_result_runs:
  assumes "Prepared w v = Some p" and "quiescent a cl w" and "owned p a w" and "statement_releases T" and "chunk_releases C"
  shows "runs (ml_duckdb_close_result T C v w) (\<lambda>(r, w'). settled a {p} cl w w' \<and> owned p a w')"
  unfolding ml_duckdb_close_result_def assms(1)
  by (rule blocking_owned [OF quiescent_owned [OF assms(2,3)]])
    (rule runs_bindI, rule clear_result_owned, assumption, simp, rule assms, rule assms, simp)

lemma ml_duckdb_finish_result_close_runs:
  assumes "Prepared w v = Some p" and "quiescent a cl w" and "owned p a w" and "statement_releases T" and "chunk_releases C"
  shows "runs (ml_duckdb_finish_result_close T C v w) (\<lambda>w'. settled a {p} cl w w' \<and> owned p a w')"
  unfolding ml_duckdb_finish_result_close_def assms(1)
  by (rule runs_conseq [OF clear_result_owned [OF quiescent_owned [OF assms(2,3)] _ assms(4,5)]]) (auto dest: busy_settled)

lemma ml_duckdb_close_prepared_runs:
  assumes "Prepared w v = Some p" and "quiescent a cl w" and "owned p a w" and "statement_releases T" and "chunk_releases C"
  shows "runs (ml_duckdb_close_prepared T C v w) (\<lambda>(r, w'). settled a {p} cl w w' \<and> owned p a w')"
  unfolding ml_duckdb_close_prepared_def assms(1)
  by (rule blocking_owned [OF quiescent_owned [OF assms(2,3)]])
    (rule runs_bindI, rule clear_prepared_owned, assumption, simp, rule assms, rule assms, simp add: has_prepared_weaken)

lemma ml_duckdb_clear_prepared_input_runs:
  assumes "Prepared w v = Some p" and "quiescent a cl w" and "owned p a w"
  shows "runs (ml_duckdb_clear_prepared_input v w) (\<lambda>w'. settled a {p} cl w w' \<and> owned p a w')"
proof -
  obtain pp ex ch inp hr vc where b: "busy a {p} False 0 cl False 0 w (has_prepared p a pp ex ch inp hr vc False) w"
    using quiescent_owned [OF assms(2,3)] by (rule owned_has_prepared)
  show ?thesis
    unfolding ml_duckdb_clear_prepared_input_def assms(1)
    by (rule runs_conseq [OF clear_prepared_input_busy [OF b]]) (auto dest!: busy_settled has_prepared_weaken)
qed

subsection \<open>Binding\<close>

text \<open>Binding changes the status and the message of the owner only.\<close>

lemma owned_update:
  assumes "busy a Y f n cl u k w0 (owned p b) w" and "p \<in> Y"
    and "\<And>pr. p_parent (g pr) = p_parent pr \<and> prepared_resources (g pr) = prepared_resources pr \<and> (cache_ok pr \<longrightarrow> cache_ok (g pr))"
  shows "runs (on_prepared p g w) (busy a Y f n cl u k w0 (owned p b))"
proof -
  obtain pr where pr: "prepareds w p = Some pr" "p_parent pr = b" using assms(1) by (rule owned_prepared)
  have "runs (on_prepared p g w) (busy a Y f n cl u (k - 0) w0 (owned p b))"
    by (rule on_prepared_busy [OF assms(1,2) _ prepared_in_start [OF assms(1) pr(1)]])
      (use assms(3) in \<open>auto simp: owned_def\<close>)
  then show ?thesis by simp
qed

lemma set_prepared_status_owned:
  "busy a Y f n cl u k w0 (owned p b) w \<Longrightarrow> p \<in> Y \<Longrightarrow>
   runs (set_prepared_status p s w) (busy a Y f n cl u k w0 (owned p b))"
  unfolding set_prepared_status_def by (rule owned_update) (auto simp: prepared_resources_def cache_ok_def split: option.splits)

lemma set_prepared_message_owned:
  "busy a Y f n cl u k w0 (owned p b) w \<Longrightarrow> p \<in> Y \<Longrightarrow>
   runs (on_prepared p (\<lambda>pr. pr\<lparr>p_message := m\<rparr>) w) (busy a Y f n cl u k w0 (owned p b))"
  by (rule owned_update) (auto simp: prepared_resources_def cache_ok_def split: option.splits)

lemmas set_prepared_status_owned_then [steps] = runs_bindI [OF set_prepared_status_owned]

lemma read_owned [steps]:
  assumes "busy a Y f n cl u k w0 (owned p b) w" and "\<And>pr. prepareds w p = Some pr \<Longrightarrow> p_parent pr = b \<Longrightarrow> runs (g pr) Q"
  shows "runs (bind (deref (prepareds w) p) g) Q"
proof -
  obtain pr where pr: "prepareds w p = Some pr" "p_parent pr = b" using assms(1) by (rule owned_prepared)
  show ?thesis using assms(2) [OF pr] pr(1) by simp
qed

lemma bind_status_owned:
  assumes "busy a Y f n cl u k w0 (owned p b) w" and "p \<in> Y"
  shows "runs (bind_status T p state w) (busy a Y f n cl u k w0 (owned p b))"
  unfolding bind_status_def
  by (insert assms(1)) (rule steps set_prepared_message_owned | assumption | rule assms(2) | (simp; fail))+

lemma admit_binding_owned:
  assumes "busy a Y True 0 False u k w0 (owned p b) w" and "p \<in> Y"
  shows "runs (admit_binding a p w) (\<lambda>(_, w'). busy a Y True 0 False False k w0 (owned p b) w')"
  unfolding admit_binding_def
  by (insert assms(1)) (rule steps | assumption | rule assms(2) | (simp; fail))+

lemmas admit_binding_then [steps] = runs_bind_pair [OF admit_binding_owned]

lemma admitted_bind_owned:
  assumes "busy a Y True 0 False False k w0 (owned p a) w" and "p \<in> Y" and "\<not> destructor j"
  shows "runs (admitted_bind T a p j g w) (busy a Y True 0 False False k w0 (owned p a))"
  unfolding admitted_bind_def
  by (insert assms(1)) (rule steps bind_status_owned | assumption | rule assms(2) | (simp add: assms(3); fail))+

lemma working_on_owned:
  assumes "busy a Y False 0 False False k w0 (owned p a) w"
    and "\<And>w. busy a Y True 0 False False k w0 (owned p a) w \<Longrightarrow> runs (body w) (busy a Y True 0 False False k w0 (owned p a))"
  shows "runs (working_on a body w) (\<lambda>(_, w'). busy a Y False 0 False False k w0 (owned p a) w')"
  unfolding working_on_def
  by (insert assms(1)) (rule work_begin_then work_end_then runs_bindI [OF assms(2)] | assumption | (simp; fail))+

text \<open>The shape of \<open>bind_null\<close>, \<open>bind_int64\<close>, \<open>bind_float\<close> and \<open>reset\<close>.\<close>

lemma binding_runs:
  assumes "Prepared w v = Some p" and "quiescent a False w" and "owned p a w"
    and "\<And>w'. busy a {p} True 0 False False 0 w (owned p a) w' \<Longrightarrow> runs (body a p w') (busy a {p} True 0 False False 0 w (owned p a))"
  shows "runs (bind (deref (Prepared w) v) (\<lambda>p. bind (deref (prepareds w) p) (\<lambda>pr.
      blocking (working_on (p_parent pr) (body (p_parent pr) p)) w)))
    (\<lambda>(r, w'). settled a {p} False w w' \<and> owned p a w')"
proof -
  have b: "busy a {p} False 0 False False 0 w (owned p a) w" using assms(2,3) by (rule quiescent_owned)
  obtain pr where pr: "prepareds w p = Some pr" "p_parent pr = a" using b by (rule owned_prepared)
  have "runs (blocking (working_on a (body a p)) w) (\<lambda>(r, w'). settled a {p} False w w' \<and> owned p a w')"
    by (rule blocking_owned [OF b]) (rule working_on_owned, assumption, rule assms(4))
  then show ?thesis using assms(1) pr by simp
qed

lemma bind_temporal_owned:
  assumes "busy a Y True 0 False False k w0 (owned p a) w" and "p \<in> Y"
  shows "runs (bind_temporal B a p i temporal w) (\<lambda>(_, w'). busy a Y True 0 False False k w0 (owned p a) w')"
proof -
  have attempt: "runs (if admitted then bind (deref (prepareds w) p) (\<lambda>pr. call a Bind (duckdb_bind_value B (p_prepared pr) i t) w)
      else Inr (DuckDBError, w)) (\<lambda>(_, w'). busy a Y True 0 False False k w0 (owned p a) w')"
    if "busy a Y True 0 False False k w0 (owned p a) w" for admitted t w
    by (insert that) (rule steps runs_conseq [OF call_busy] | assumption | (simp; fail) | auto)+
  show ?thesis
    unfolding bind_temporal_def
    by (insert assms(1)) (rule steps runs_bind_pair [OF attempt] | assumption | rule assms(2) | (simp; fail))+
qed

lemma bind_int64_body_owned:
  assumes "busy a Y True 0 False False k w0 (owned p a) w" and "p \<in> Y"
  shows "runs (bind_int64_body T B a p i t x w) (busy a Y True 0 False False k w0 (owned p a))"
proof -
  have attempt: "runs (case attempt of Bound state \<Rightarrow> Inr (state, w) | Temporal temporal \<Rightarrow> bind_temporal B a p i temporal w)
      (\<lambda>(_, w'). busy a Y True 0 False False k w0 (owned p a) w')"
    if "busy a Y True 0 False False k w0 (owned p a) w" for attempt w
    using that bind_temporal_owned [OF that assms(2)] by (cases attempt) simp_all
  have switch: "runs (case bind_call_kind t of None \<Rightarrow> Inr (Bound DuckDBError, w) | Some j \<Rightarrow> call a j f w)
      (\<lambda>(_, w'). busy a Y True 0 False False k w0 (owned p a) w')"
    if "busy a Y True 0 False False k w0 (owned p a) w" for f w
  proof (cases "bind_call_kind t")
    case (Some j)
    then have "allowed_call 0 False False j" by (cases t) (auto simp: bind_call_kind_def)
    then show ?thesis using Some by (auto intro: runs_conseq [OF call_busy [OF that]])
  qed (use that in simp)
  show ?thesis
    unfolding bind_int64_body_def
    by (insert assms(1))
      (rule steps bind_status_owned runs_bind_pair [OF switch] runs_bind_pair [OF attempt] | assumption | rule assms(2) | (simp; fail))+
qed

lemma ml_duckdb_bind_runs:
  assumes "Prepared w v = Some p" and "quiescent a False w" and "owned p a w"
  shows "runs (ml_duckdb_bind_null T B v i w) (\<lambda>(r, w'). settled a {p} False w w' \<and> owned p a w')"
    and "runs (ml_duckdb_bind_int64 T B v i t x w) (\<lambda>(r, w'). settled a {p} False w w' \<and> owned p a w')"
    and "runs (ml_duckdb_bind_float T B narrow v i t x w) (\<lambda>(r, w'). settled a {p} False w w' \<and> owned p a w')"
    and "runs (ml_duckdb_reset T B v w) (\<lambda>(r, w'). settled a {p} False w w' \<and> owned p a w')"
  unfolding ml_duckdb_bind_null_def ml_duckdb_bind_int64_def ml_duckdb_bind_float_def ml_duckdb_reset_def
  by (rule binding_runs [OF assms], (rule admitted_bind_owned bind_int64_body_owned, assumption, simp_all))+

text \<open>Binding a string holds the input until the engine has copied it.\<close>

lemma admitted_bind_busy:
  assumes "busy a Y True 0 False False k w0 (has_prepared p a pp ex ch inp hr vc z) w" and "p \<in> Y" and "\<not> destructor j"
  shows "runs (admitted_bind T a p j g w) (busy a Y True 0 False False k w0 (has_prepared p a pp ex ch inp hr vc z))"
proof -
  have message: "runs (on_prepared p (\<lambda>pr. pr\<lparr>p_message := m\<rparr>) w) (busy a Y True 0 False False k w0 (has_prepared p a pp ex ch inp hr vc z))"
    if "busy a Y True 0 False False k w0 (has_prepared p a pp ex ch inp hr vc z) w" for m w
    by (rule keep_prepared_busy [OF that assms(2)]) (auto simp: prepared_is_def cache_ok_def)
  have status: "runs (bind_status T p state w) (busy a Y True 0 False False k w0 (has_prepared p a pp ex ch inp hr vc z))"
    if "busy a Y True 0 False False k w0 (has_prepared p a pp ex ch inp hr vc z) w" for state w
    unfolding bind_status_def
    by (insert that) (rule steps message | assumption | rule assms(2) | (simp; fail))+
  have admit: "runs (admit_binding a p w) (\<lambda>(_, w'). busy a Y True 0 False False k w0 (has_prepared p a pp ex ch inp hr vc z) w')"
    if "busy a Y True 0 False False k w0 (has_prepared p a pp ex ch inp hr vc z) w" for w
    unfolding admit_binding_def
    by (insert that) (rule steps | assumption | rule assms(2) | (simp; fail))+
  show ?thesis
    unfolding admitted_bind_def
    by (insert assms(1))
      (rule runs_bind_pair [OF admit] | rule steps status | assumption | rule assms(2) | (simp add: assms(3); fail))+
qed

lemma bind_string_body_busy:
  assumes "busy a Y False 0 False False k w0 (has_prepared p a pp ex ch True hr vc z) w" and "p \<in> Y"
  shows "runs (working_on a (\<lambda>w. bind (admitted_bind T a p Bind g w) (\<lambda>w.
      bind (on_prepared p (\<lambda>pr. pr\<lparr>p_input := None\<rparr>) w) (\<lambda>w. Inr (released w)))) w)
    (\<lambda>(_, w'). busy a Y False 0 False False k w0 (has_prepared p a pp ex ch False hr vc z) w')"
proof -
  have drop: "runs (bind (on_prepared p (\<lambda>pr. pr\<lparr>p_input := None\<rparr>) w) (\<lambda>w. Inr (released w)))
      (busy a Y True 0 False False k w0 (has_prepared p a pp ex ch False hr vc z))"
    if "busy a Y True 0 False False k w0 (has_prepared p a pp ex ch True hr vc z) w" for w
    by (rule release_step, rule hold_prepared_busy [OF that assms(2)]) (auto simp: prepared_is_def cache_ok_def)
  have body: "runs (bind (admitted_bind T a p Bind g w) (\<lambda>w.
      bind (on_prepared p (\<lambda>pr. pr\<lparr>p_input := None\<rparr>) w) (\<lambda>w. Inr (released w))))
    (busy a Y True 0 False False k w0 (has_prepared p a pp ex ch False hr vc z))"
    if "busy a Y True 0 False False k w0 (has_prepared p a pp ex ch True hr vc z) w" for w
    by (rule runs_bindI [OF admitted_bind_busy [OF that assms(2)]]) (simp, rule drop)
  show ?thesis
    unfolding working_on_def
    by (insert assms(1)) (rule work_begin_then work_end_then runs_bindI [OF body] | assumption | (simp; fail))+
qed

lemma ml_duckdb_bind_string_runs:
  fixes w :: "'e world"
  assumes "Prepared w v = Some p" and "quiescent a False w" and "owned p a w"
    and "prepareds w p = Some pr" and "p_input pr = None"
  shows "runs (ml_duckdb_bind_string T B v i t text w) (\<lambda>(r, w'). settled a {p} False w w' \<and> owned p a w')"
proof -
  from assms(3,4) have parent: "p_parent pr = a" and cache: "cache_ok pr" by (auto simp: owned_def)
  define R :: "bool \<Rightarrow> 'e world \<Rightarrow> bool" where
    "R inp = has_prepared p a (p_prepared pr \<noteq> None) (p_extracted pr \<noteq> None) (p_chunk pr \<noteq> None) inp
       (p_has_result pr) (p_vectors pr \<noteq> None) False" for inp
  have b: "busy a {p} False 0 False False 0 w (R False) w"
    by (rule quiescent_busy [OF assms(2)]) (use assms(4-) parent cache in \<open>auto simp: R_def has_prepared_def prepared_is_def\<close>)
  obtain fails w1 where m: "malloc_fails w = (fails, w1)" by force
  note b1 = malloc_busy [OF b m]
  have ends: "busy a {p} False 0 False False 0 w (R i) w' \<Longrightarrow> settled a {p} False w w' \<and> owned p a w'" for i w'
    using busy_settled [OF has_prepared_weaken] unfolding R_def by blast
  have owner: "deref (prepareds w) p = Inr pr" using assms(4) by simp
  show ?thesis
  proof (cases fails)
    case True
    have "runs (on_prepared p (\<lambda>pr. pr\<lparr>p_input := None\<rparr>) w1) (busy a {p} False 0 False False 0 w (R False))"
      using set_prepared_input_busy [OF b1 [unfolded R_def], of None] by (simp add: R_def)
    then show ?thesis
      unfolding ml_duckdb_bind_string_def using assms(1) m True owner by (auto simp: runs_bind ends elim!: runs_conseq)
  next
    case False
    define body where "body = working_on a (\<lambda>w. bind (admitted_bind T a p Bind (\<lambda>s. if t = DUCKDB_TYPE_BLOB
        then duckdb_bind_blob B s i text else duckdb_bind_varchar_length B s i text) w) (\<lambda>w.
      bind (on_prepared p (\<lambda>pr. pr\<lparr>p_input := None\<rparr>) w) (\<lambda>w. Inr (released w))))"
    have "runs (bind (on_prepared p (\<lambda>pr. pr\<lparr>p_input := Some text\<rparr>) w1) (\<lambda>w. blocking body (acquired w)))
        (\<lambda>(r, w'). settled a {p} False w w' \<and> owned p a w')"
    proof (rule runs_bindI [OF set_prepared_input_busy [OF b1 [unfolded R_def]]])
      fix w2
      assume b2: "busy a {p} False 0 False False (0 - of_nat (present (Some text))) w
        (has_prepared p a (p_prepared pr \<noteq> None) (p_extracted pr \<noteq> None) (p_chunk pr \<noteq> None) (Some text \<noteq> None)
          (p_has_result pr) (p_vectors pr \<noteq> None) False) w2"
      have "busy a {p} False 0 False False 0 w (R True) (acquired w2)"
        using busy_counters(1) [OF b2] by (simp add: R_def)
      then have "runs (blocking body (acquired w2)) (\<lambda>(r, w'). busy a {p} False 0 False False 0 w (R False) w' \<or>
          r = Async_exception \<and> busy a {p} False 0 False False 0 w (R True) w')"
        by (rule blocking_busy) (unfold R_def body_def, rule bind_string_body_busy, assumption, simp)
      then show "runs (blocking body (acquired w2)) (\<lambda>(r, w'). settled a {p} False w w' \<and> owned p a w')"
        by (rule runs_conseq) (auto dest: ends)
    qed simp
    then show ?thesis
      unfolding ml_duckdb_bind_string_def using assms(1) m False owner parent by (simp add: body_def)
  qed
qed

end
