(* ===== verification/Sessions_Safety.thy ===== *)
theory Sessions_Safety
  imports Statements_Safety
begin

text \<open>
  Opening and closing a database, connecting and closing a connection: the resource counter
  stays in step with the handles the owners hold.
\<close>

subsection \<open>Databases\<close>

definition database_is :: "bool \<Rightarrow> bool \<Rightarrow> bool \<Rightarrow> database_owner \<Rightarrow> bool" where
  "database_is h cf pa x \<longleftrightarrow> (d_database x \<noteq> None) = h \<and> (d_config x \<noteq> None) = cf \<and> (d_path x \<noteq> None) = pa"

text \<open>Working on the database at \<open>d\<close>: no connection is involved.\<close>

definition at_database :: "nat \<Rightarrow> 32 word \<Rightarrow> 'e world \<Rightarrow> bool \<Rightarrow> bool \<Rightarrow> bool \<Rightarrow> 'e world \<Rightarrow> bool" where
  "at_database d k w0 h cf pa w \<longleftrightarrow> evo {} {d} k w0 w \<and> (\<exists>x. databases w d = Some x \<and> database_is h cf pa x)"

lemma database_resources_is:
  "database_is h cf pa x \<Longrightarrow> database_resources x = 1 + of_bool h + of_bool cf + of_bool pa"
  by (cases "d_database x"; cases "d_config x"; cases "d_path x") (auto simp: database_is_def database_resources_def)

lemma read_database [steps]:
  assumes "at_database d k w0 h cf pa w" and "\<And>x. databases w d = Some x \<Longrightarrow> database_is h cf pa x \<Longrightarrow> runs (g x) Q"
  shows "runs (bind (deref (databases w) d) g) Q"
  using assms by (auto simp: at_database_def)

lemma on_database_at_database:
  assumes "at_database d k w0 h cf pa w"
    and "\<And>x. database_is h cf pa x \<Longrightarrow> database_is h' cf' pa' (g x) \<and> d_references (g x) = d_references x"
    and "of_nat (of_bool h' + of_bool cf' + of_bool pa') = of_nat (of_bool h + of_bool cf + of_bool pa) + j"
  shows "runs (on_database d g w) (at_database d (k - j) w0 h' cf' pa')"
proof -
  obtain x where x: "databases w d = Some x" "database_is h cf pa x" and e: "evo {} {d} k w0 w"
    using assms(1) by (auto simp: at_database_def)
  have "of_nat (database_resources (g x)) = of_nat (database_resources x) + j"
    using assms(2) [OF x(2)] assms(3) database_resources_is [OF x(2)]
      database_resources_is [of h' cf' pa' "g x"] by (simp add: add.assoc)
  moreover have "evo {} {d} (k + of_nat (database_resources x) - of_nat (database_resources (g x))) w0 (put_database d (g x) w)"
    by (rule evo_put_database [OF e x(1)]) (use assms(2) [OF x(2)] in simp_all)
  ultimately show ?thesis
    using x assms(2) [OF x(2)] by (simp add: on_database_def at_database_def)
qed

lemmas keep_database = on_database_at_database [where j = 0, simplified]

lemma at_database_counters:
  "at_database d k w0 h cf pa w \<Longrightarrow> at_database d (k + 1) w0 h cf pa (acquired w)"
  "at_database d k w0 h cf pa w \<Longrightarrow> at_database d (k - 1) w0 h cf pa (released w)"
  by (auto simp: at_database_def intro: evo_outside)

lemma count_at_database:
  "at_database d (k - of_nat (present y)) w0 h cf pa w \<Longrightarrow> at_database d k w0 h cf pa (if y \<noteq> None then acquired w else w)"
  using at_database_counters(1) [of d "k - of_nat (present y)" w0 h cf pa w] by (cases y) simp_all

lemma engine_at_database: "at_database d k w0 h cf pa w \<Longrightarrow> at_database d k w0 h cf pa (snd (engine f w))"
  by (auto simp: at_database_def engine_def split_beta intro: evo_outside)

lemma engine_at_database_then:
  "at_database d k w0 h cf pa w \<Longrightarrow> (\<And>r w'. at_database d k w0 h cf pa w' \<Longrightarrow> runs (g r w') Q) \<Longrightarrow>
   runs (case engine f w of (r, w) \<Rightarrow> g r w) Q"
  using engine_at_database [of d k w0 h cf pa w f] by (cases "engine f w") auto

lemma engine_at_database_then2:
  "at_database d k w0 h cf pa w \<Longrightarrow> (\<And>x y w'. at_database d k w0 h cf pa w' \<Longrightarrow> runs (g x y w') Q) \<Longrightarrow>
   runs (case engine f w of ((x, y), w) \<Rightarrow> g x y w) Q"
  using engine_at_database [of d k w0 h cf pa w f] by (cases "engine f w") auto

lemma engine_at_database_then3:
  "at_database d k w0 h cf pa w \<Longrightarrow> (\<And>x y z w'. at_database d k w0 h cf pa w' \<Longrightarrow> runs (g x y z w') Q) \<Longrightarrow>
   runs (case engine f w of ((x, y, z), w) \<Rightarrow> g x y z w) Q"
  using engine_at_database [of d k w0 h cf pa w f] by (cases "engine f w") auto

lemma release_at_database:
  assumes "runs m (at_database d (k - (- 1)) w0 h cf pa)"
  shows "runs (bind m (\<lambda>w. Inr (released w))) (at_database d k w0 h cf pa)"
  by (rule runs_bindI [OF assms]) (drule at_database_counters(2), simp)

lemma close_database_handle_at_database:
  assumes "at_database d k w0 h cf pa w" and "session_releases S"
  shows "runs (close_database_handle S d w) (at_database d k w0 False cf pa)"
proof -
  obtain x where x: "databases w d = Some x" "database_is h cf pa x" using assms(1) by (auto simp: at_database_def)
  show ?thesis
  proof (cases "d_database x")
    case None
    then have "h = False" using x(2) by (auto simp: database_is_def)
    then show ?thesis using assms(1) x None by (simp add: close_database_handle_def)
  next
    case (Some y)
    then have h: "h" using x(2) by (auto simp: database_is_def)
    obtain e where e: "engine (duckdb_close S y) w = (None, w\<lparr>w_engine := e\<rparr>)"
      using assms(2) by (auto simp: engine_def session_releases_def split_beta)
    have o: "at_database d k w0 h cf pa (w\<lparr>w_engine := e\<rparr>)"
      using engine_at_database [OF assms(1), of "duckdb_close S y"] e by simp
    show ?thesis
      by (simp add: close_database_handle_def x Some e del: minus_diff_eq diff_minus_eq_add)
        (rule release_at_database, rule on_database_at_database [OF o], use h in \<open>auto simp: database_is_def\<close>)
  qed
qed

lemma destroy_config_handle_at_database:
  assumes "at_database d k w0 h cf pa w" and "session_releases S"
  shows "runs (destroy_config_handle S d w) (at_database d k w0 h False pa)"
proof -
  obtain x where x: "databases w d = Some x" "database_is h cf pa x" using assms(1) by (auto simp: at_database_def)
  show ?thesis
  proof (cases "d_config x")
    case None
    then have "cf = False" using x(2) by (auto simp: database_is_def)
    then show ?thesis using assms(1) x None by (simp add: destroy_config_handle_def)
  next
    case (Some y)
    then have h: "cf" using x(2) by (auto simp: database_is_def)
    obtain e where e: "engine (duckdb_destroy_config S y) w = (None, w\<lparr>w_engine := e\<rparr>)"
      using assms(2) by (auto simp: engine_def session_releases_def split_beta)
    have o: "at_database d k w0 h cf pa (w\<lparr>w_engine := e\<rparr>)"
      using engine_at_database [OF assms(1), of "duckdb_destroy_config S y"] e by simp
    show ?thesis
      by (simp add: destroy_config_handle_def x Some e del: minus_diff_eq diff_minus_eq_add)
        (rule release_at_database, rule on_database_at_database [OF o], use h in \<open>auto simp: database_is_def\<close>)
  qed
qed

lemma free_path_at_database:
  assumes "at_database d k w0 h cf pa w"
  shows "runs (free_path d w) (at_database d k w0 h cf False)"
proof -
  obtain x where x: "databases w d = Some x" "database_is h cf pa x" using assms(1) by (auto simp: at_database_def)
  show ?thesis
  proof (cases "d_path x")
    case None
    then have "pa = False" using x(2) by (auto simp: database_is_def)
    then show ?thesis using assms(1) x None by (simp add: free_path_def)
  next
    case (Some y)
    then have h: "pa" using x(2) by (auto simp: database_is_def)
    show ?thesis
      by (simp add: free_path_def x Some del: minus_diff_eq diff_minus_eq_add)
        (rule release_at_database, rule on_database_at_database [OF assms], use h in \<open>auto simp: database_is_def\<close>)
  qed
qed

lemma database_clear_at_database:
  assumes "at_database d k w0 h cf pa w" and "session_releases S"
  shows "runs (database_clear S (Some d) w) (at_database d k w0 False False False)"
  unfolding database_clear_def option.case
  by (rule runs_bindI [OF close_database_handle_at_database [OF assms]],
      rule runs_bindI, rule destroy_config_handle_at_database, assumption, rule assms,
      rule runs_bindI, rule free_path_at_database, assumption,
      rule keep_database, assumption, simp add: database_is_def, simp)

lemma set_config_at_database:
  assumes "at_database d k w0 h cf pa w"
  shows "runs (set_config S d name setting state w) (\<lambda>(_, w'). at_database d k w0 h cf pa w')"
proof -
  obtain x where x: "databases w d = Some x" using assms by (auto simp: at_database_def)
  show ?thesis
  proof (cases "state = DuckDBSuccess")
    case True
    obtain r w1 where e: "engine (duckdb_set_config S (d_config x) name setting) w = (r, w1)" by force
    have "at_database d k w0 h cf pa w1"
      using engine_at_database [OF assms, of "duckdb_set_config S (d_config x) name setting"] e by simp
    then show ?thesis using x e True by (simp add: set_config_def)
  next
    case False
    then show ?thesis using assms by (simp add: set_config_def)
  qed
qed

lemma open_engine_at_database:
  assumes "at_database d k w0 False cf pa w"
  shows "runs (open_engine S d state w) (\<lambda>(_, w'). \<exists>x. databases w' d = Some x \<and>
    at_database d (k - of_nat (present (d_database x))) w0 (d_database x \<noteq> None) cf pa w')"
proof (cases "state = DuckDBSuccess")
  case False
  obtain x where x: "databases w d = Some x" "d_database x = None"
    using assms by (auto simp: at_database_def database_is_def)
  have "\<exists>x. databases w d = Some x \<and> at_database d (k - of_nat (present (d_database x))) w0 (d_database x \<noteq> None) cf pa w"
    by (rule exI [of _ x]) (use x assms in simp)
  then show ?thesis using False by (simp add: open_engine_def)
next
  case True
  obtain x where x: "databases w d = Some x" using assms by (auto simp: at_database_def)
  let ?call = "duckdb_open_ext S (case d_path x of Some p \<Rightarrow> if p = [] then None else Some (c_string p) | None \<Rightarrow> None) (d_config x)"
  obtain st h err w1 where e: "engine ?call w = ((st, h, err), w1)" using that by (cases "engine ?call w") auto
  have o1: "at_database d k w0 False cf pa w1" using engine_at_database [OF assms, of ?call] e by simp
  then obtain x1 where x1: "databases w1 d = Some x1" by (auto simp: at_database_def)
  have "runs (on_database d (\<lambda>db. db\<lparr>d_database := h, d_open_error := err\<rparr>) w1)
      (at_database d (k - of_nat (present h)) w0 (h \<noteq> None) cf pa)"
    using on_database_at_database [OF o1, where g = "\<lambda>db. db\<lparr>d_database := h, d_open_error := err\<rparr>"
      and h' = "h \<noteq> None" and cf' = cf and pa' = pa and j = "of_nat (present h)"]
    by (cases h) (simp_all add: database_is_def)
  then show ?thesis
    using True x x1 e by (simp add: open_engine_def on_database_def)
qed

lemma keep_database_then [steps]:
  assumes "at_database d k w0 h cf pa w"
    and "\<And>x. database_is h cf pa x \<Longrightarrow> database_is h cf pa (g x) \<and> d_references (g x) = d_references x"
    and "\<And>w. at_database d k w0 h cf pa w \<Longrightarrow> runs (f w) Q"
  shows "runs (bind (on_database d g w) f) Q"
  by (rule runs_bindI [OF keep_database [OF assms(1,2)] assms(3)]) auto

lemma set_config_then:
  "at_database d k w0 h cf pa w \<Longrightarrow> (\<And>r w. at_database d k w0 h cf pa w \<Longrightarrow> runs (f r w) Q) \<Longrightarrow>
   runs (bind (set_config S d name setting state w) (\<lambda>(r, w). f r w)) Q"
  by (rule runs_bind_pair [OF set_config_at_database])

lemma memory_limit_then:
  assumes "at_database d k w0 h cf pa w" and "\<And>r w. at_database d k w0 h cf pa w \<Longrightarrow> runs (f r w) Q"
  shows "runs (bind (if b then set_config S d name setting state w else Inr (state, w)) (\<lambda>(r, w). f r w)) Q"
  using assms by (cases b) (simp_all add: set_config_then)

lemma hold_config_then:
  assumes "at_database d k w0 h False pa w"
    and "\<And>w. at_database d k w0 h (config \<noteq> None) pa w \<Longrightarrow> runs (f w) Q"
  shows "runs (bind (on_database d (\<lambda>db. db\<lparr>d_config := config\<rparr>) w) (\<lambda>w.
     let w = (if config \<noteq> None then acquired w else w) in f w)) Q"
proof (rule runs_bindI)
  show "runs (on_database d (\<lambda>db. db\<lparr>d_config := config\<rparr>) w)
      (at_database d (k - of_nat (present config)) w0 h (config \<noteq> None) pa)"
    by (rule on_database_at_database [OF assms(1)]) (auto simp: database_is_def present_def split: option.splits)
  fix w
  assume "at_database d (k - of_nat (present config)) w0 h (config \<noteq> None) pa w"
  from assms(2) [OF count_at_database [OF this]]
  show "runs (let w = (if config \<noteq> None then acquired w else w) in f w) Q" by (simp only: Let_def)
qed

lemma open_engine_then:
  assumes "at_database d k w0 False cf pa w"
    and "\<And>state x h w. at_database d k w0 h cf pa w \<Longrightarrow> runs (f state x w) Q"
  shows "runs (bind (open_engine S d state w) (\<lambda>(state, w). bind (deref (databases w) d) (\<lambda>db.
     let w = (if d_database db \<noteq> None then acquired w else w) in f state db w))) Q"
proof (rule runs_bind_pair [OF open_engine_at_database [OF assms(1)]])
  fix state w
  assume "\<exists>x. databases w d = Some x \<and>
    at_database d (k - of_nat (present (d_database x))) w0 (d_database x \<noteq> None) cf pa w"
  then obtain x where x: "databases w d = Some x"
    and o1: "at_database d (k - of_nat (present (d_database x))) w0 (d_database x \<noteq> None) cf pa w" by blast
  show "runs (bind (deref (databases w) d) (\<lambda>db.
     let w = (if d_database db \<noteq> None then acquired w else w) in f state db w)) Q"
    unfolding deref_Some [where m = "databases w", OF x] bind_Inl_Inr Let_def
    by (rule assms(2) [OF count_at_database [OF o1]])
qed

lemma free_path_then:
  assumes "at_database d k w0 h cf True w" and "\<And>w. at_database d k w0 h cf False w \<Longrightarrow> runs (f w) Q"
  shows "runs (bind (on_database d (\<lambda>db. db\<lparr>d_path := None\<rparr>) w) (\<lambda>w. let w = released w in f w)) Q"
proof (rule runs_bindI)
  show "runs (on_database d (\<lambda>db. db\<lparr>d_path := None\<rparr>) w) (at_database d (k - (- 1)) w0 h cf False)"
    by (rule on_database_at_database [OF assms(1)]) (auto simp: database_is_def)
  fix w
  assume "at_database d (k - (- 1)) w0 h cf False w"
  from at_database_counters(2) [OF this] assms(2)
  show "runs (let w = released w in f w) Q" by (simp add: Let_def)
qed

lemma destroy_config_then:
  "at_database d k w0 h cf pa w \<Longrightarrow> session_releases S \<Longrightarrow>
   (\<And>w. at_database d k w0 h False pa w \<Longrightarrow> runs (f w) Q) \<Longrightarrow> runs (bind (destroy_config_handle S d w) f) Q"
  by (rule runs_bindI [OF destroy_config_handle_at_database])

lemma open_body_at_database:
  assumes "at_database d k w0 False False True w" and "session_releases S"
  shows "runs (open_body S d threads bytes ro w) (\<lambda>(_, w'). \<exists>h. at_database d k w0 h False False w')"
  unfolding open_body_def
  by (insert assms(1))
    (rule keep_database_then set_config_then memory_limit_then hold_config_then open_engine_then
        free_path_then destroy_config_then engine_at_database_then2
      | assumption | rule assms(2) | (simp add: database_is_def; fail) | (simp only: runs_simps prod.case, rule exI))+

subsection \<open>Entry points of a database\<close>

definition database_settled :: "nat \<Rightarrow> 'e world \<Rightarrow> 'e world \<Rightarrow> bool" where
  "database_settled d w0 w \<longleftrightarrow> evo {} {d} 0 w0 w"

lemma at_database_settled: "at_database d 0 w0 h cf pa w \<Longrightarrow> database_settled d w0 w"
  by (auto simp: at_database_def database_settled_def)

lemma at_database_outside:
  "at_database d k w0 h cf pa w \<Longrightarrow> at_database d k w0 h cf pa (w\<lparr>w_pending := ps\<rparr>)"
  "at_database d k w0 h cf pa w \<Longrightarrow> at_database d k w0 h cf pa (w\<lparr>w_oom := os\<rparr>)"
  by (auto simp: at_database_def intro: evo_outside)

lemma blocking_at_database:
  assumes "at_database d k w0 h cf pa w"
    and "\<And>w. at_database d k w0 h cf pa w \<Longrightarrow> runs (body w) (\<lambda>(_, w'). \<exists>h. at_database d k w0 h False False w')"
  shows "runs (blocking body w) (\<lambda>(r, w'). (\<exists>h. at_database d k w0 h False False w') \<or>
    r = Async_exception \<and> at_database d k w0 h cf pa w')"
proof (rule blocking_runs)
  have "at_database d k w0 h cf pa (snd (pending_raises w))"
    using at_database_outside(1) [OF assms(1)] assms(1) by (auto simp: pending_raises_def split: list.splits)
  from assms(2) [OF this]
  show "runs (body (snd (pending_raises w))) (\<lambda>(x, w'). ((\<exists>h. at_database d k w0 h False False w') \<or>
      Returned x = Async_exception \<and> at_database d k w0 h cf pa w') \<and>
      (\<forall>ps. ((\<exists>h. at_database d k w0 h False False (w'\<lparr>w_pending := ps\<rparr>)) \<or>
          Returned x = Async_exception \<and> at_database d k w0 h cf pa (w'\<lparr>w_pending := ps\<rparr>)) \<and>
        ((\<exists>h. at_database d k w0 h False False (w'\<lparr>w_pending := ps\<rparr>)) \<or>
          Async_exception = Async_exception \<and> at_database d k w0 h cf pa (w'\<lparr>w_pending := ps\<rparr>))))"
    by (rule runs_conseq) (auto intro: at_database_outside)
qed (use at_database_outside(1) [OF assms(1)] in simp)

lemma ml_duckdb_open_runs:
  assumes "Database w v = Some d" and "databases w d = Some x" and "database_is False False False x"
    and "heaps_below w" and "session_releases S"
  shows "runs (ml_duckdb_open S v path threads bytes ro w) (\<lambda>(r, w'). database_settled d w w')"
proof -
  have s: "at_database d 0 w False False False w"
    using assms(2-4) by (auto simp: at_database_def intro: evo_refl)
  obtain fails w1 where m: "malloc_fails w = (fails, w1)" by (cases "malloc_fails w") blast
  have s1: "at_database d 0 w False False False w1"
    using s m by (auto simp: malloc_fails_def split: list.splits intro: at_database_outside)
  have refused: "runs (bind (on_database d g u) (\<lambda>w. Inr (r, w))) (\<lambda>(r, w'). database_settled d w w')"
    if "at_database d 0 w False False False u"
      and "\<And>x. database_is False False False x \<Longrightarrow> database_is False False False (g x) \<and> d_references (g x) = d_references x"
    for g u and r :: "unit reply"
    by (rule keep_database_then [OF that]) (auto simp: at_database_settled)
  show ?thesis
  proof (cases "duckdb_library_version S = ''v1.5.5''")
    case False
    then show ?thesis
      using refused [OF s, of "\<lambda>db. db\<lparr>d_status := DUCKDB_ML_STATUS_ERROR, d_message := message (Some ''duckdb-ffi requires DuckDB v1.5.5'')\<rparr>"]
      by (simp add: ml_duckdb_open_def assms(1) database_is_def)
  next
    case version: True
    show ?thesis
    proof (cases fails)
      case True
      then show ?thesis
        using refused [OF s1, of "\<lambda>db. db\<lparr>d_path := None\<rparr>"] version m
        by (simp add: ml_duckdb_open_def assms(1) database_is_def)
    next
      case False
      have "runs (bind (on_database d (\<lambda>db. db\<lparr>d_path := Some path\<rparr>) w1) (\<lambda>w.
          blocking (open_body S d threads bytes ro) (acquired w))) (\<lambda>(r, w'). database_settled d w w')"
      proof (rule runs_bindI)
        show "runs (on_database d (\<lambda>db. db\<lparr>d_path := Some path\<rparr>) w1) (at_database d (0 - 1) w False False True)"
          by (rule on_database_at_database [OF s1]) (auto simp: database_is_def)
        fix u
        assume "at_database d (0 - 1) w False False True u"
        then have "at_database d 0 w False False True (acquired u)"
          using at_database_counters(1) [of d "0 - 1" w False False True u] by simp
        from blocking_at_database [OF this open_body_at_database [OF _ assms(5)]]
        show "runs (blocking (open_body S d threads bytes ro) (acquired u)) (\<lambda>(r, w'). database_settled d w w')"
          by (rule runs_conseq) (auto intro: at_database_settled)
      qed
      then show ?thesis using False version m by (simp add: ml_duckdb_open_def assms(1))
    qed
  qed
qed

lemma ml_duckdb_close_database_runs:
  assumes "Database w v = Some d" and "databases w d = Some x" and "heaps_below w" and "session_releases S"
  shows "runs (ml_duckdb_close_database S v w) (\<lambda>(r, w'). database_settled d w w')"
proof -
  have s: "at_database d 0 w (d_database x \<noteq> None) (d_config x \<noteq> None) (d_path x \<noteq> None) w"
    using assms(2,3) by (auto simp: at_database_def database_is_def intro: evo_refl)
  have "runs (blocking (\<lambda>w1. bind (database_clear S (Some d) w1) (\<lambda>w. Inr ((), w))) w) (\<lambda>(r, w').
      (\<exists>h. at_database d 0 w h False False w') \<or> r = Async_exception \<and>
      at_database d 0 w (d_database x \<noteq> None) (d_config x \<noteq> None) (d_path x \<noteq> None) w')"
    by (rule blocking_at_database [OF s], rule runs_bindI, rule database_clear_at_database, assumption,
      rule assms(4)) auto
  then show ?thesis
    unfolding ml_duckdb_close_database_def assms(1)
    by (rule runs_conseq) (auto intro: at_database_settled)
qed

subsection \<open>Entry points of a connection\<close>

text \<open>The connection at \<open>a\<close> is linked to a database and holds no engine connection.\<close>

definition unconnected :: "nat \<Rightarrow> 'e world \<Rightarrow> bool" where
  "unconnected a w \<longleftrightarrow> (\<exists>c. connections w a = Some c \<and> c_connection c = None \<and> databases w (c_parent c) \<noteq> None)"

lemma stable_unconnected [simp]: "stable (unconnected a)"
proof -
  have "unconnected a w'" if e: "evo {b} {} k w w'" and u: "unconnected a w" for b k and w w' :: "'e world"
  proof -
    obtain c where c: "connections w a = Some c" "c_connection c = None" "databases w (c_parent c) \<noteq> None"
      using u by (auto simp: unconnected_def)
    obtain c' where c': "connections w' a = Some c'" "evo_connection {b} {} a c c'"
      using e c(1) by (auto simp: evo_def elim: heap_rel_Some)
    have "databases w' (c_parent c) \<noteq> None"
      using e c(3) heap_rel_None [of "evo_database {}" "databases w" "databases w'" "c_parent c"] by (simp add: evo_def)
    then show ?thesis
      using c c' by (auto simp: unconnected_def evo_connection_def same_links_def same_contents_def)
  qed
  then show ?thesis by (auto simp: stable_def)
qed

lemma ml_duckdb_connect_runs:
  assumes "Connection w v = Some a" and "quiescent a False w" and "unconnected a w"
  shows "runs (ml_duckdb_connect S v w) (\<lambda>(r, w'). settled a {a} False w w')"
proof -
  have b: "busy a {a} False 0 False False 0 w (unconnected a) w"
    using assms(2,3) by (rule quiescent_busy) simp
  have read: "runs (bind (deref (connections u) a) (\<lambda>c. bind (deref (databases u) (c_parent c)) (\<lambda>d. g c d))) Q"
    if "busy a {a} f n cl v k w0 (unconnected a) u" and "\<And>c d. runs (g c d) Q" for f n cl v k w0 u g and Q :: "'z \<Rightarrow> bool"
    using that by (auto simp: busy_def unconnected_def)
  have hold: "runs (bind (on_connection a (\<lambda>c. c\<lparr>c_connection := h, c_status := st\<rparr>) u) (\<lambda>w.
      let w = (if h \<noteq> None then acquired w else w) in g w)) Q"
    if u: "busy a {a} f n cl v k w0 (unconnected a) u"
      and g: "\<And>w. busy a {a} f n cl v k w0 (\<lambda>_. True) w \<Longrightarrow> runs (g w) Q" for f n cl v k w0 u h st g and Q :: "'z \<Rightarrow> bool"
  proof (rule runs_bindI)
    show "runs (on_connection a (\<lambda>c. c\<lparr>c_connection := h, c_status := st\<rparr>) u)
        (busy a {a} f n cl v (k - of_nat (present h)) w0 (\<lambda>_. True))"
      by (rule on_connection_busy [OF u]) (auto simp: same_defs unconnected_def)
    fix w
    assume "busy a {a} f n cl v (k - of_nat (present h)) w0 (\<lambda>_. True) w"
    then have "busy a {a} f n cl v k w0 (\<lambda>_. True) (if h \<noteq> None then acquired w else w)"
      using busy_counters(1) [of a "{a}" f n cl v "k - of_nat (present h)" w0 "\<lambda>_. True" w] by (cases h) simp_all
    then show "runs (let w = (if h \<noteq> None then acquired w else w) in g w) Q" by (simp add: Let_def g)
  qed
  have note_failure: "runs (bind (on_connection a (\<lambda>c. if c_status c \<noteq> DUCKDB_ML_STATUS_OK
      then c\<lparr>c_message := m\<rparr> else c) u) g) Q"
    if u: "busy a {a} f n cl v k w0 (\<lambda>_. True) u"
      and g: "\<And>w. busy a {a} f n cl v k w0 (\<lambda>_. True) w \<Longrightarrow> runs (g w) Q" for f n cl v k w0 u m g and Q :: "'z \<Rightarrow> bool"
    by (rule runs_bindI [OF on_connection_busy [OF u, where d = 0 and R' = "\<lambda>_. True"]])
      (use g in \<open>auto simp: same_defs\<close>)
  let ?body = "\<lambda>w. bind (duckdb_ml_native_work_begin a w) (\<lambda>w.
     bind (deref (connections w) a) (\<lambda>c.
     bind (deref (databases w) (c_parent c)) (\<lambda>d.
     bind (call a Connect (duckdb_connect S (d_database d)) w) (\<lambda>((state, h), w).
     bind (on_connection a (\<lambda>c. c\<lparr>c_connection := h, c_status :=
            (if state = DuckDBSuccess then DUCKDB_ML_STATUS_OK else DUCKDB_ML_STATUS_ERROR)\<rparr>) w) (\<lambda>w.
     let w = (if h \<noteq> None then acquired w else w) in
     bind (on_connection a (\<lambda>c. if c_status c \<noteq> DUCKDB_ML_STATUS_OK
            then c\<lparr>c_message := message (Some ''DuckDB connection failed'')\<rparr> else c) w) (\<lambda>w.
     bind (duckdb_ml_native_work_end a w) (\<lambda>w.
     Inr ((), w))))))))"
  have "runs (?body u) (\<lambda>(_, w'). busy a {a} False 0 False False 0 w (\<lambda>_. True) w')"
    if "busy a {a} False 0 False False 0 w (unconnected a) u" for u
    by (insert that)
      (rule work_begin_then work_end_then call_then2 read hold note_failure | assumption
        | (simp; fail) | (simp only: runs_simps prod.case))+
  then have "runs (blocking ?body w) (\<lambda>(r, w'). busy a {a} False 0 False False 0 w (\<lambda>_. True) w' \<or>
      r = Async_exception \<and> busy a {a} False 0 False False 0 w (unconnected a) w')"
    by (rule blocking_busy [OF b])
  then show ?thesis
    unfolding ml_duckdb_connect_def deref_Some [where m = "Connection w", OF assms(1)] bind_Inl_Inr
    by (rule runs_conseq) (auto dest!: busy_settled)
qed

text \<open>Closing needs no installed request, and may be repeated.\<close>

lemma ml_duckdb_close_connection_runs:
  assumes "Connection w v = Some a" and "quiescent a cl w" and "connections w a = Some c" and "c_active_request c = None"
    and "session_releases S" and "statement_releases T"
  shows "runs (ml_duckdb_close_connection S T v w) (\<lambda>(r, w'). settled a {a} True w w' \<or> r = Async_exception \<and> settled a {a} cl w w')"
proof -
  have b: "busy a {a} False 0 cl False 0 w (\<lambda>_. True) w"
    using assms(2) by (rule quiescent_busy) simp_all
  have "runs (blocking (\<lambda>w1. bind (connection_clear S T (Some a) DUCKDB_ML_RUNTIME_RELEASED w1) (\<lambda>w. Inr ((), w))) w)
      (\<lambda>(r, w'). busy a {a} False 0 True False 0 w (\<lambda>_. True) w' \<or> r = Async_exception \<and> busy a {a} False 0 cl False 0 w (\<lambda>_. True) w')"
    by (rule blocking_busy [OF b])
      (auto simp: busy_def intro: runs_bindI [OF connection_clear_runs [OF _ _ assms(3-)]])
  then show ?thesis
    unfolding ml_duckdb_close_connection_def assms(1) by (auto dest!: busy_settled elim!: runs_conseq)
qed

subsection \<open>What closing leaves\<close>

text \<open>The connection owner at \<open>a\<close> holds nothing but itself.\<close>

definition bare :: "nat \<Rightarrow> 'e world \<Rightarrow> bool" where
  "bare a w \<longleftrightarrow> (\<exists>c. connections w a = Some c \<and> connection_resources c = 1)"

lemma stable_bare [simp]: "stable (bare a)"
proof (unfold stable_def, intro allI impI)
  fix b k and w w' :: "'e world"
  assume e: "evo {b} {} k w w'" and h: "bare a w"
  then obtain c where c: "connections w a = Some c" "connection_resources c = 1" by (auto simp: bare_def)
  then obtain c' where "connections w' a = Some c'" "same_contents c c'"
    using e by (auto simp: evo_def evo_connection_def elim: heap_rel_Some)
  with c show "bare a w'" by (auto simp: bare_def same_contents_def connection_resources_def)
qed

lemma disconnect_handle_busy:
  assumes "busy a Y f n cl u k w0 (has_work a False False False False) w" and "a \<in> Y" and "allowed_call n cl u Disconnect"
    and "session_releases S"
  shows "runs (disconnect_handle S a w) (busy a Y f n cl u k w0 (bare a))"
proof -
  obtain c where c: "connections w a = Some c" and idle: "c_sql c = None" "c_extracted c = None" "c_prepared c = None" "\<not> c_has_result c"
    using assms(1) by (auto simp: busy_def has_work_def)
  show ?thesis
  proof (cases "c_connection c")
    case None
    then have "bare a w" using c idle by (simp add: bare_def connection_resources_def)
    then show ?thesis using assms(1) None c by (simp add: disconnect_handle_def busy_def)
  next
    case (Some h)
    let ?w = "w\<lparr>w_engine := snd (duckdb_disconnect S h (w_engine w)), w_log := Engine a (c_native_phase c) Disconnect # w_log w\<rparr>"
    have d: "during a Y f n cl u k w0 ?w"
      by (rule during_call [OF busy_during [OF assms(1)] c assms(3)])
    have "fst (duckdb_disconnect S h (w_engine w)) = None" using assms(4) by (simp add: session_releases_def)
    moreover have "during a Y f n cl u k w0 (released (put_connection a (c\<lparr>c_connection := None\<rparr>) ?w))"
      using during_counters(2) [OF during_put_connection [OF d, of c "c\<lparr>c_connection := None\<rparr>"]] c assms(2) Some
      by (simp add: same_defs)
    moreover have "bare a (released (put_connection a (c\<lparr>c_connection := None\<rparr>) ?w))"
      using idle by (simp add: bare_def connection_resources_def)
    ultimately show ?thesis
      using c Some by (simp add: disconnect_handle_def call_eq on_connection_def busy_def)
  qed
qed

lemma connection_clear_bare:
  assumes "during a Y False 0 cl u k w0 w" and "a \<in> Y" and "connections w0 a = Some c0" and "c_active_request c0 = None"
    and "session_releases S" and "statement_releases T"
  shows "runs (connection_clear S T (Some a) rt w) (busy a Y False 0 True False k w0 (bare a))"
proof -
  have enter: "runs (native_close_begin a rt w) (busy a Y False 0 True False k w0 (\<lambda>_. True))"
    by (rule runs_conseq [OF close_begin_runs [OF assms(1,3,4)]]) (simp add: busy_def)
  show ?thesis
    unfolding connection_clear_def option.case
    by (rule runs_bindI [OF enter],
        rule runs_bindI, rule cleanup_begin_busy, assumption, simp,
        rule runs_bindI, rule clear_work_busy, assumption, rule assms, simp, rule assms, simp,
        rule runs_bindI, rule disconnect_handle_busy, assumption, rule assms, simp add: allowed_call_def, rule assms,
        rule cleanup_end_busy, assumption, simp)
qed

end
