(* ===== verification/Well_Formed.thy ===== *)
theory Well_Formed
  imports Prepared_Calls Sessions_Safety
begin

text \<open>
  The global invariant of the native layer between two stubs. Every slot points to a live
  owner, every prepared statement, appender, file work and request has exactly one slot,
  reference counts are the number of holders, requests and connections point at each other,
  every connection is quiescent, the resource counter is what the owners hold, and the
  history obeys the phase discipline. \<open>well_formed K ed ea k\<close> is the invariant in the middle of
  a deletion: one reference of database \<open>ed\<close> and of connection \<open>ea\<close> has lost its holder, and
  the counter is \<open>k\<close> ahead.
\<close>

subsection \<open>Holders\<close>

definition database_holders :: "nat \<Rightarrow> 'e world \<Rightarrow> nat" where
  "database_holders d w = msum (Database w) (\<lambda>x. points d (Some x)) +
     msum (connections w) (\<lambda>c. points d (Some (c_parent c)))"

definition connection_holders :: "nat \<Rightarrow> 'e world \<Rightarrow> nat" where
  "connection_holders a w = msum (Connection w) (\<lambda>x. points a (Some x)) +
     msum (requests w) (\<lambda>q. points a (r_owner q)) +
     msum (prepareds w) (\<lambda>pr. points a (Some (p_parent pr))) +
     msum (appenders w) (\<lambda>x. points a (Some (a_parent x))) +
     msum (works w) (\<lambda>x. points a (f_parent x))"

subsection \<open>The invariant\<close>

definition slots_ok :: "nat \<Rightarrow> (nat \<rightharpoonup> nat) \<Rightarrow> (nat \<rightharpoonup> 'v) \<Rightarrow> bool" where
  "slots_ok n m h \<longleftrightarrow> dom m \<subseteq> {..<n} \<and> ran m \<subseteq> dom h"

definition sole :: "nat \<Rightarrow> (nat \<rightharpoonup> nat) \<Rightarrow> (nat \<rightharpoonup> 'v) \<Rightarrow> bool" where
  "sole n m h \<longleftrightarrow> dom m \<subseteq> {..<n} \<and> ran m = dom h \<and> inj_on m (dom m)"

definition disjoint_owners :: "'e world \<Rightarrow> bool" where
  "disjoint_owners w \<longleftrightarrow> dom (databases w) \<inter> dom (connections w) = {} \<and> dom (databases w) \<inter> dom (prepareds w) = {} \<and>
     dom (databases w) \<inter> dom (appenders w) = {} \<and> dom (databases w) \<inter> dom (works w) = {} \<and>
     dom (connections w) \<inter> dom (prepareds w) = {} \<and> dom (connections w) \<inter> dom (appenders w) = {} \<and>
     dom (connections w) \<inter> dom (works w) = {} \<and> dom (prepareds w) \<inter> dom (appenders w) = {} \<and>
     dom (prepareds w) \<inter> dom (works w) = {} \<and> dom (appenders w) \<inter> dom (works w) = {}"

definition base :: "'e world \<Rightarrow> bool" where
  "base w \<longleftrightarrow> heaps_below w \<and> disjoint_owners w"

definition slots_valid :: "'e world \<Rightarrow> bool" where
  "slots_valid w \<longleftrightarrow> slots_ok (w_next w) (Database w) (databases w) \<and>
     slots_ok (w_next w) (Connection w) (connections w) \<and>
     sole (w_next w) (Native_request w) (requests w) \<and> sole (w_next w) (Prepared w) (prepareds w) \<and>
     sole (w_next w) (Appender w) (appenders w) \<and> sole (w_next w) (Work w) (works w)"

definition counted :: "nat option \<Rightarrow> nat option \<Rightarrow> 'e world \<Rightarrow> bool" where
  "counted ed ea w \<longleftrightarrow>
     (\<forall>d x. databases w d = Some x \<longrightarrow> 0 < database_holders d w + points d ed \<and>
        d_references x = of_nat (database_holders d w + points d ed)) \<and>
     (\<forall>a c. connections w a = Some c \<longrightarrow> 0 < connection_holders a w + points a ea \<and>
        c_references c = of_nat (connection_holders a w + points a ea))"

definition connection_ok :: "nat \<Rightarrow> connection_owner \<Rightarrow> 'e world \<Rightarrow> bool" where
  "connection_ok a c w \<longleftrightarrow> databases w (c_parent c) \<noteq> None \<and>
     \<not> c_native_guard c \<and> \<not> c_foreign_active c \<and> c_cleanup_depth c = 0 \<and> c_native_phase c = phase_of c \<and>
     (\<forall>r. c_active_request c = Some r \<longrightarrow> (\<exists>q. requests w r = Some q \<and> r_owner q = Some a))"

definition request_ok :: "nat \<Rightarrow> duckdb_ml_native_request \<Rightarrow> 'e world \<Rightarrow> bool" where
  "request_ok r q w \<longleftrightarrow> (r_state q = DUCKDB_ML_REQUEST_INSTALLED \<longleftrightarrow> r_owner q \<noteq> None) \<and>
     (\<forall>a. r_owner q = Some a \<longrightarrow> (\<exists>c. connections w a = Some c \<and> c_active_request c = Some r))"

text \<open>\<open>K\<close> is what every appender satisfies between two stubs.\<close>

definition linked :: "(appender_owner \<Rightarrow> bool) \<Rightarrow> 'e world \<Rightarrow> bool" where
  "linked K w \<longleftrightarrow> (\<forall>a c. connections w a = Some c \<longrightarrow> connection_ok a c w) \<and>
     (\<forall>r q. requests w r = Some q \<longrightarrow> request_ok r q w) \<and>
     (\<forall>p pr. prepareds w p = Some pr \<longrightarrow> cache_ok pr \<and> connections w (p_parent pr) \<noteq> None) \<and>
     (\<forall>p x. appenders w p = Some x \<longrightarrow> K x \<and> connections w (a_parent x) \<noteq> None) \<and>
     (\<forall>k x a. works w k = Some x \<longrightarrow> f_parent x = Some a \<longrightarrow> connections w a \<noteq> None)"

definition well_formed :: "(appender_owner \<Rightarrow> bool) \<Rightarrow> nat option \<Rightarrow> nat option \<Rightarrow> 32 word \<Rightarrow> 'e world \<Rightarrow> bool" where
  "well_formed K ed ea k w \<longleftrightarrow> base w \<and> slots_valid w \<and> counted ed ea w \<and> linked K w \<and> slack w = k \<and> log_disciplined w"

abbreviation wf :: "(appender_owner \<Rightarrow> bool) \<Rightarrow> 'e world \<Rightarrow> bool" where
  "wf K \<equiv> well_formed K None None 0"

subsection \<open>Evolution keeps it\<close>

lemma msum_heap_rel:
  assumes "heap_rel R m m'" and "\<And>k x y. R k x y \<Longrightarrow> g y = g x"
  shows "msum m' g = msum m g"
  unfolding msum_def heap_rel_dom [OF assms(1)]
proof (rule sum.cong)
  fix k
  assume "k \<in> dom m"
  then obtain x where "m k = Some x" by auto
  with assms show "g (the (m' k)) = g (the (m k))" by (auto elim: heap_rel_Some)
qed simp

lemma evo_holders:
  assumes "evo X Y k w0 w"
  shows "database_holders d w = database_holders d w0" and "connection_holders a w = connection_holders a w0"
proof -
  note e = assms [unfolded evo_def]
  have "msum (connections w) (\<lambda>c. points d (Some (c_parent c))) = msum (connections w0) (\<lambda>c. points d (Some (c_parent c)))"
    by (rule msum_heap_rel [of "evo_connection X Y"]) (use e in \<open>auto simp: evo_connection_def same_links_def\<close>)
  moreover have "msum (prepareds w) (\<lambda>pr. points a (Some (p_parent pr))) = msum (prepareds w0) (\<lambda>pr. points a (Some (p_parent pr)))"
    by (rule msum_heap_rel [of "evo_prepared Y"]) (use e in \<open>auto simp: evo_prepared_def\<close>)
  moreover have "msum (appenders w) (\<lambda>x. points a (Some (a_parent x))) = msum (appenders w0) (\<lambda>x. points a (Some (a_parent x)))"
    by (rule msum_heap_rel [of "evo_appender Y"]) (use e in \<open>auto simp: evo_appender_def\<close>)
  moreover have "msum (works w) (\<lambda>x. points a (f_parent x)) = msum (works w0) (\<lambda>x. points a (f_parent x))"
    by (rule msum_heap_rel [of "evo_work Y"]) (use e in \<open>auto simp: evo_work_def\<close>)
  ultimately show "database_holders d w = database_holders d w0" and "connection_holders a w = connection_holders a w0"
    using e by (simp_all add: database_holders_def connection_holders_def same_slots_def)
qed

lemma evo_heaps:
  assumes "evo X Y k w0 w"
  shows "heap_rel (evo_database Y) (databases w0) (databases w)" "heap_rel (evo_connection X Y) (connections w0) (connections w)"
    "heap_rel (evo_prepared Y) (prepareds w0) (prepareds w)" "heap_rel (evo_appender Y) (appenders w0) (appenders w)"
    "heap_rel (evo_work Y) (works w0) (works w)"
  using assms by (simp_all add: evo_def)

lemma evo_doms:
  assumes "evo X Y k w0 w"
  shows "dom (databases w) = dom (databases w0)" "dom (connections w) = dom (connections w0)"
    "dom (prepareds w) = dom (prepareds w0)" "dom (appenders w) = dom (appenders w0)" "dom (works w) = dom (works w0)"
  using evo_heaps [OF assms, THEN heap_rel_dom] by simp_all

lemma evo_none:
  assumes "evo X Y k w0 w"
  shows "databases w d = None \<longleftrightarrow> databases w0 d = None" "connections w d = None \<longleftrightarrow> connections w0 d = None"
  using assms by (auto simp: evo_def heap_rel_None)

lemma evo_base: "evo X Y k w0 w \<Longrightarrow> base w0 \<Longrightarrow> base w"
  using evo_doms [of X Y k w0 w] by (simp add: base_def disjoint_owners_def evo_below)

lemma evo_slots_valid: "evo X Y k w0 w \<Longrightarrow> slots_valid w0 \<Longrightarrow> slots_valid w"
  using evo_doms [of X Y k w0 w] by (auto simp: slots_valid_def slots_ok_def sole_def evo_def same_slots_def)

lemma evo_counted:
  assumes "evo X Y k w0 w" and "counted ed ea w0"
  shows "counted ed ea w"
proof -
  note e = assms(1) [unfolded evo_def]
  have "\<exists>x0. databases w0 d = Some x0 \<and> d_references x0 = d_references x" if "databases w d = Some x" for d x
    using e that by (auto simp: evo_database_def elim!: heap_rel_Some' [of "evo_database Y"])
  moreover have "\<exists>c0. connections w0 a = Some c0 \<and> c_references c0 = c_references c" if "connections w a = Some c" for a c
    using e that by (auto simp: evo_connection_def same_links_def elim!: heap_rel_Some' [of "evo_connection X Y"])
  ultimately show ?thesis
    using assms(2) unfolding counted_def evo_holders [OF assms(1)] by metis
qed

lemma native_connection_ok:
  "native a False 0 cl False w \<Longrightarrow> connections w a = Some c \<Longrightarrow>
   \<not> c_native_guard c \<and> \<not> c_foreign_active c \<and> c_cleanup_depth c = 0 \<and> c_native_phase c = phase_of c"
  by (auto simp: native_def)

lemma evo_cell:
  assumes "evo X Y k w0 w"
  shows "connections w a = Some c \<Longrightarrow> \<exists>c0. connections w0 a = Some c0 \<and> evo_connection X Y a c0 c"
    and "connections w0 a = Some c \<Longrightarrow> \<exists>c1. connections w a = Some c1 \<and> evo_connection X Y a c c1"
    and "prepareds w p = Some pr \<Longrightarrow> \<exists>pr0. prepareds w0 p = Some pr0 \<and> evo_prepared Y p pr0 pr"
    and "appenders w p = Some x \<Longrightarrow> \<exists>x0. appenders w0 p = Some x0 \<and> evo_appender Y p x0 x"
    and "works w p = Some y \<Longrightarrow> \<exists>y0. works w0 p = Some y0 \<and> evo_work Y p y0 y"
  using assms unfolding evo_def by - (blast elim: heap_rel_Some' heap_rel_Some)+

lemma evo_connection_ok:
  assumes "evo X Y k w0 w" and "connection_ok a c0 w0" and "evo_connection X Y a c0 c" and "connections w a = Some c"
    and "a \<in> X \<Longrightarrow> \<exists>cl. native a False 0 cl False w"
  shows "connection_ok a c w"
proof -
  have "\<not> c_native_guard c \<and> \<not> c_foreign_active c \<and> c_cleanup_depth c = 0 \<and> c_native_phase c = phase_of c"
  proof (cases "a \<in> X")
    case True
    then show ?thesis using assms(5) native_connection_ok [OF _ assms(4)] by blast
  next
    case False
    then show ?thesis using assms(2,3) by (simp add: evo_connection_def connection_ok_def)
  qed
  moreover have "c_parent c = c_parent c0" "c_active_request c = c_active_request c0"
    using assms(3) by (simp_all add: evo_connection_def same_links_def)
  moreover have "requests w = requests w0" using assms(1) by (simp add: evo_def)
  ultimately show ?thesis using assms(2) evo_none(1) [OF assms(1)] by (simp add: connection_ok_def)
qed

lemma evo_request_ok:
  assumes "evo X Y k w0 w" and "request_ok r q w0"
  shows "request_ok r q w"
  unfolding request_ok_def
proof (intro conjI allI impI)
  show "(r_state q = DUCKDB_ML_REQUEST_INSTALLED) = (r_owner q \<noteq> None)" using assms(2) by (simp add: request_ok_def)
  fix a
  assume "r_owner q = Some a"
  then obtain c where c: "connections w0 a = Some c" "c_active_request c = Some r" using assms(2) by (auto simp: request_ok_def)
  from evo_cell(2) [OF assms(1) c(1)] c(2)
  show "\<exists>c. connections w a = Some c \<and> c_active_request c = Some r"
    by (auto simp: evo_connection_def same_links_def)
qed

lemma evo_linked:
  assumes "evo X Y k w0 w" and "linked K w0" and "\<And>a. a \<in> X \<Longrightarrow> \<exists>cl. native a False 0 cl False w"
    and "\<And>p pr. p \<in> Y \<Longrightarrow> prepareds w p = Some pr \<Longrightarrow> cache_ok pr" and "\<And>p x. p \<in> Y \<Longrightarrow> appenders w p = Some x \<Longrightarrow> K x"
  shows "linked K w"
  unfolding linked_def
proof (intro conjI allI impI)
  note l = assms(2) [unfolded linked_def] and cell = evo_cell [OF assms(1)] and none = evo_none(2) [OF assms(1)]
  show "connection_ok a c w" if c: "connections w a = Some c" for a c
    using cell(1) [OF c] evo_connection_ok [OF assms(1) _ _ c assms(3)] l by blast
  show "request_ok r q w" if q: "requests w r = Some q" for r q
  proof (rule evo_request_ok [OF assms(1)])
    have "requests w0 r = Some q" using assms(1) q by (simp add: evo_def)
    then show "request_ok r q w0" using l by blast
  qed
  fix p pr
  assume p: "prepareds w p = Some pr"
  then obtain pr0 where pr0: "prepareds w0 p = Some pr0" "evo_prepared Y p pr0 pr" using cell(3) by blast
  then have ok: "cache_ok pr0" "connections w0 (p_parent pr0) \<noteq> None" using l by blast+
  show "cache_ok pr"
    using assms(4) [OF _ p] pr0(2) ok(1) by (cases "p \<in> Y") (simp_all add: evo_prepared_def)
  show "connections w (p_parent pr) \<noteq> None" using pr0(2) ok(2) none by (simp add: evo_prepared_def)
next
  note l = assms(2) [unfolded linked_def] and cell = evo_cell [OF assms(1)] and none = evo_none(2) [OF assms(1)]
  fix p x
  assume x: "appenders w p = Some x"
  then obtain x0 where x0: "appenders w0 p = Some x0" "evo_appender Y p x0 x" using cell(4) by blast
  then have ok: "K x0" "connections w0 (a_parent x0) \<noteq> None" using l by blast+
  show "K x" using assms(5) [OF _ x] x0(2) ok(1) by (cases "p \<in> Y") (simp_all add: evo_appender_def)
  show "connections w (a_parent x) \<noteq> None" using x0(2) ok(2) none by (simp add: evo_appender_def)
next
  note l = assms(2) [unfolded linked_def] and cell = evo_cell [OF assms(1)] and none = evo_none(2) [OF assms(1)]
  fix j x a
  assume "works w j = Some x" and parent: "f_parent x = Some a"
  then obtain x0 where x0: "works w0 j = Some x0" "evo_work Y j x0 x" using cell(5) by blast
  then have "f_parent x0 = Some a" using parent by (simp add: evo_work_def)
  then have "connections w0 a \<noteq> None" using l x0(1) by blast
  then show "connections w a \<noteq> None" using none by simp
qed

lemma evo_well_formed:
  assumes "evo X Y j w0 w" and "well_formed K ed ea k w0" and "\<And>a. a \<in> X \<Longrightarrow> \<exists>cl. native a False 0 cl False w"
    and "\<And>p pr. p \<in> Y \<Longrightarrow> prepareds w p = Some pr \<Longrightarrow> cache_ok pr" and "\<And>p x. p \<in> Y \<Longrightarrow> appenders w p = Some x \<Longrightarrow> K x"
  shows "well_formed K ed ea (k + j) w"
  using assms(2) evo_base [OF assms(1)] evo_slots_valid [OF assms(1)] evo_counted [OF assms(1)]
    evo_linked [OF assms(1) _ assms(3-5)] assms(1)
  by (auto simp: well_formed_def evo_def)

end
