(* ===== verification/Deletion.thy ===== *)
theory Deletion
  imports Well_Formed
begin

text \<open>
  Giving up a reference: \<open>database_unref\<close> and \<open>connection_delete\<close>. A stub that deletes an
  owner first drops the references the owner holds and frees it afterwards, so in between
  the invariant holds of the world without the doomed owner. A \<open>database_view\<close> is such a
  look at the world: it forgets cells or slots that the deletion of a database does not
  touch; a \<open>connection_view\<close> also keeps what the deletion of a connection needs.
\<close>

subsection \<open>Bounds on the number of holders\<close>

lemma msum_points_le:
  assumes "dom m \<subseteq> {..<n :: nat}"
  shows "msum m (\<lambda>x. points a (f x)) \<le> n"
proof -
  have "msum m (\<lambda>x. points a (f x)) \<le> (\<Sum>k\<in>dom m. 1)"
    unfolding msum_def by (rule sum_mono) (simp add: points_def)
  also have "\<dots> = card (dom m)" by simp
  also have "\<dots> \<le> card {..<n}" by (rule card_mono) (use assms in auto)
  finally show ?thesis by simp
qed

lemma holders_bounded:
  assumes "well_formed K ed ea k w"
  shows "database_holders d w \<le> 2 * w_next w" and "connection_holders a w \<le> 5 * w_next w"
proof -
  have below: "dom (Database w) \<subseteq> {..<w_next w}" "dom (Connection w) \<subseteq> {..<w_next w}"
    "dom (connections w) \<subseteq> {..<w_next w}" "dom (requests w) \<subseteq> {..<w_next w}"
    "dom (prepareds w) \<subseteq> {..<w_next w}" "dom (appenders w) \<subseteq> {..<w_next w}" "dom (works w) \<subseteq> {..<w_next w}"
    using assms by (simp_all add: well_formed_def base_def heaps_below_def slots_valid_def slots_ok_def)
  note le = below [THEN msum_points_le]
  show "database_holders d w \<le> 2 * w_next w"
    unfolding database_holders_def using le(1) [of d Some] le(3) [of d "\<lambda>c. Some (c_parent c)"] by linarith
  show "connection_holders a w \<le> 5 * w_next w"
    unfolding connection_holders_def
    using le(2) [of a Some] le(4) [of a r_owner] le(5) [of a "\<lambda>pr. Some (p_parent pr)"]
      le(6) [of a "\<lambda>x. Some (a_parent x)"] le(7) [of a f_parent] by linarith
qed

text \<open>The address bound keeps the 32-bit reference counts exact.\<close>

definition small :: "'e world \<Rightarrow> bool" where
  "small w \<longleftrightarrow> w_next w < 2 ^ 29"

lemma last_reference:
  assumes "n < 2 ^ 32 - 1" and "x = (of_nat (Suc n) :: 32 word)"
  shows "x = 1 \<longleftrightarrow> n = 0" and "x - 1 = of_nat n"
proof -
  have "unat x = Suc n" using assms by (simp add: unat_of_nat del: of_nat_Suc)
  then show "x = 1 \<longleftrightarrow> n = 0" by (metis Suc_inject of_nat_1 One_nat_def assms(2) unat_1)
  show "x - 1 = of_nat n" using assms(2) by simp
qed

subsection \<open>Views\<close>

text \<open>Forgetting a cell that an evolution does not touch.\<close>

locale database_view =
  fixes V :: "'e world \<Rightarrow> 'e world"
  assumes databases: "databases (V w) = databases w"
    and next_view: "w_next (V w) = w_next w"
    and put_databases: "V (w\<lparr>databases := m\<rparr>) = (V w)\<lparr>databases := m\<rparr>"
    and released_view: "V (released w) = released (V w)"
    and base_view: "base w \<Longrightarrow> base (V w)"
    and evo_database_view: "base w \<Longrightarrow> databases w d \<noteq> None \<Longrightarrow> evo {} {d} 0 w w' \<Longrightarrow> evo {} {d} 0 (V w) (V w')"

locale connection_view = database_view +
  assumes connections: "connections (V w) = connections w"
    and put_connections: "V (w\<lparr>connections := m\<rparr>) = (V w)\<lparr>connections := m\<rparr>"
    and evo_connection_view: "base w \<Longrightarrow> connections w a \<noteq> None \<Longrightarrow> evo {a} {a} 0 w w' \<Longrightarrow> evo {a} {a} 0 (V w) (V w')"

text \<open>An owner that is not among the touched ones does not change.\<close>

lemma slack_delete:
  assumes "heaps_below w"
  shows "connections w a = Some c \<Longrightarrow>
      slack (w\<lparr>connections := (connections w)(a := None)\<rparr>) = slack w + of_nat (connection_resources c)"
    and "databases w d = Some x \<Longrightarrow>
      slack (w\<lparr>databases := (databases w)(d := None)\<rparr>) = slack w + of_nat (database_resources x)"
    and "prepareds w p = Some pr \<Longrightarrow>
      slack (w\<lparr>prepareds := (prepareds w)(p := None)\<rparr>) = slack w + of_nat (prepared_resources pr)"
    and "appenders w p = Some y \<Longrightarrow>
      slack (w\<lparr>appenders := (appenders w)(p := None)\<rparr>) = slack w + of_nat (appender_resources y)"
    and "works w p = Some z \<Longrightarrow>
      slack (w\<lparr>works := (works w)(p := None)\<rparr>) = slack w + of_nat (work_resources z)"
proof -
  note fin = heaps_below_finite [OF assms]
  show "connections w a = Some c \<Longrightarrow>
      slack (w\<lparr>connections := (connections w)(a := None)\<rparr>) = slack w + of_nat (connection_resources c)"
    using msum_delete [OF fin(2), of a c connection_resources] by (simp add: slack_def resources_def)
  show "databases w d = Some x \<Longrightarrow>
      slack (w\<lparr>databases := (databases w)(d := None)\<rparr>) = slack w + of_nat (database_resources x)"
    using msum_delete [OF fin(1), of d x database_resources] by (simp add: slack_def resources_def)
  show "prepareds w p = Some pr \<Longrightarrow>
      slack (w\<lparr>prepareds := (prepareds w)(p := None)\<rparr>) = slack w + of_nat (prepared_resources pr)"
    using msum_delete [OF fin(4), of p pr prepared_resources] by (simp add: slack_def resources_def)
  show "appenders w p = Some y \<Longrightarrow>
      slack (w\<lparr>appenders := (appenders w)(p := None)\<rparr>) = slack w + of_nat (appender_resources y)"
    using msum_delete [OF fin(5), of p y appender_resources] by (simp add: slack_def resources_def)
  show "works w p = Some z \<Longrightarrow>
      slack (w\<lparr>works := (works w)(p := None)\<rparr>) = slack w + of_nat (work_resources z)"
    using msum_delete [OF fin(6), of p z work_resources] by (simp add: slack_def resources_def)
qed

lemma heap_rel_delete: "heap_rel R m m' \<Longrightarrow> heap_rel R (m(k := None)) (m'(k := None))"
  by (simp add: heap_rel_def)

lemma heaps_below_delete:
  assumes "heaps_below w"
  shows "heaps_below (w\<lparr>connections := (connections w)(a := None)\<rparr>)" "heaps_below (w\<lparr>databases := (databases w)(a := None)\<rparr>)"
    "heaps_below (w\<lparr>prepareds := (prepareds w)(a := None)\<rparr>)" "heaps_below (w\<lparr>appenders := (appenders w)(a := None)\<rparr>)"
    "heaps_below (w\<lparr>works := (works w)(a := None)\<rparr>)"
  using assms by (auto simp: heaps_below_def)

lemma base_delete:
  assumes "base w"
  shows "base (w\<lparr>connections := (connections w)(a := None)\<rparr>)" "base (w\<lparr>databases := (databases w)(a := None)\<rparr>)"
    "base (w\<lparr>prepareds := (prepareds w)(a := None)\<rparr>)" "base (w\<lparr>appenders := (appenders w)(a := None)\<rparr>)"
    "base (w\<lparr>works := (works w)(a := None)\<rparr>)"
  using assms by (auto simp: base_def disjoint_owners_def intro: heaps_below_delete)

lemma slack_forget:
  assumes "heaps_below w" and "heaps_below w'"
  shows "connections w' a = connections w a \<Longrightarrow>
      slack (w'\<lparr>connections := (connections w')(a := None)\<rparr>) - slack (w\<lparr>connections := (connections w)(a := None)\<rparr>) = slack w' - slack w"
    and "prepareds w' a = prepareds w a \<Longrightarrow>
      slack (w'\<lparr>prepareds := (prepareds w')(a := None)\<rparr>) - slack (w\<lparr>prepareds := (prepareds w)(a := None)\<rparr>) = slack w' - slack w"
    and "appenders w' a = appenders w a \<Longrightarrow>
      slack (w'\<lparr>appenders := (appenders w')(a := None)\<rparr>) - slack (w\<lparr>appenders := (appenders w)(a := None)\<rparr>) = slack w' - slack w"
    and "works w' a = works w a \<Longrightarrow>
      slack (w'\<lparr>works := (works w')(a := None)\<rparr>) - slack (w\<lparr>works := (works w)(a := None)\<rparr>) = slack w' - slack w"
proof -
  note d = slack_delete [OF assms(1)] and d' = slack_delete [OF assms(2)]
  show "connections w' a = connections w a \<Longrightarrow>
      slack (w'\<lparr>connections := (connections w')(a := None)\<rparr>) - slack (w\<lparr>connections := (connections w)(a := None)\<rparr>) = slack w' - slack w"
    by (cases "connections w a") (simp_all add: d d' fun_upd_idem)
  show "prepareds w' a = prepareds w a \<Longrightarrow>
      slack (w'\<lparr>prepareds := (prepareds w')(a := None)\<rparr>) - slack (w\<lparr>prepareds := (prepareds w)(a := None)\<rparr>) = slack w' - slack w"
    by (cases "prepareds w a") (simp_all add: d d' fun_upd_idem)
  show "appenders w' a = appenders w a \<Longrightarrow>
      slack (w'\<lparr>appenders := (appenders w')(a := None)\<rparr>) - slack (w\<lparr>appenders := (appenders w)(a := None)\<rparr>) = slack w' - slack w"
    by (cases "appenders w a") (simp_all add: d d' fun_upd_idem)
  show "works w' a = works w a \<Longrightarrow>
      slack (w'\<lparr>works := (works w')(a := None)\<rparr>) - slack (w\<lparr>works := (works w)(a := None)\<rparr>) = slack w' - slack w"
    by (cases "works w a") (simp_all add: d d' fun_upd_idem)
qed

lemma heap_rel_kept: "heap_rel R m m' \<Longrightarrow> (\<And>x y. R k x y \<Longrightarrow> y = x) \<Longrightarrow> m' k = m k"
  unfolding heap_rel_def by (metis option.rel_cases)

lemma evo_delete:
  assumes "evo X Y k w w'" and "heaps_below w"
  shows "a \<notin> X \<Longrightarrow> evo X Y k (w\<lparr>connections := (connections w)(a := None)\<rparr>) (w'\<lparr>connections := (connections w')(a := None)\<rparr>)"
    and "a \<notin> Y \<Longrightarrow> evo X Y k (w\<lparr>prepareds := (prepareds w)(a := None)\<rparr>) (w'\<lparr>prepareds := (prepareds w')(a := None)\<rparr>)"
    and "a \<notin> Y \<Longrightarrow> evo X Y k (w\<lparr>appenders := (appenders w)(a := None)\<rparr>) (w'\<lparr>appenders := (appenders w')(a := None)\<rparr>)"
    and "a \<notin> Y \<Longrightarrow> evo X Y k (w\<lparr>works := (works w)(a := None)\<rparr>) (w'\<lparr>works := (works w')(a := None)\<rparr>)"
proof -
  note e = assms(1) [unfolded evo_def] and h = evo_heaps [OF assms(1)]
  have below: "heaps_below w'" using e by simp
  note forget = slack_forget [OF assms(2) below, where a = a]
  have slack: "slack w' - slack w = k" using e by simp
  have kept: "a \<notin> X \<Longrightarrow> connections w' a = connections w a" "a \<notin> Y \<Longrightarrow> prepareds w' a = prepareds w a"
    "a \<notin> Y \<Longrightarrow> appenders w' a = appenders w a" "a \<notin> Y \<Longrightarrow> works w' a = works w a"
    using heap_rel_kept [OF h(2)] heap_rel_kept [OF h(3)] heap_rel_kept [OF h(4)] heap_rel_kept [OF h(5)]
    by (auto simp: evo_connection_def evo_prepared_def evo_appender_def evo_work_def)
  show "evo X Y k (w\<lparr>connections := (connections w)(a := None)\<rparr>) (w'\<lparr>connections := (connections w')(a := None)\<rparr>)" if "a \<notin> X"
    using e heap_rel_delete [OF h(2), of a] heaps_below_delete(1) [OF below] forget(1) [OF kept(1) [OF that]] slack
    by (simp add: evo_def same_slots_def log_disciplined_def algebra_simps)
  show "evo X Y k (w\<lparr>prepareds := (prepareds w)(a := None)\<rparr>) (w'\<lparr>prepareds := (prepareds w')(a := None)\<rparr>)" if "a \<notin> Y"
    using e heap_rel_delete [OF h(3), of a] heaps_below_delete(3) [OF below] forget(2) [OF kept(2) [OF that]] slack
    by (simp add: evo_def same_slots_def log_disciplined_def algebra_simps)
  show "evo X Y k (w\<lparr>appenders := (appenders w)(a := None)\<rparr>) (w'\<lparr>appenders := (appenders w')(a := None)\<rparr>)" if "a \<notin> Y"
    using e heap_rel_delete [OF h(4), of a] heaps_below_delete(4) [OF below] forget(3) [OF kept(3) [OF that]] slack
    by (simp add: evo_def same_slots_def log_disciplined_def algebra_simps)
  show "evo X Y k (w\<lparr>works := (works w)(a := None)\<rparr>) (w'\<lparr>works := (works w')(a := None)\<rparr>)" if "a \<notin> Y"
    using e heap_rel_delete [OF h(5), of a] heaps_below_delete(5) [OF below] forget(4) [OF kept(4) [OF that]] slack
    by (simp add: evo_def same_slots_def log_disciplined_def algebra_simps)
qed

lemma slot_frame [simp]:
  "slack (w\<lparr>Database := s\<rparr>) = slack w" "slack (w\<lparr>Connection := s\<rparr>) = slack w" "slack (w\<lparr>Native_request := s\<rparr>) = slack w"
  "slack (w\<lparr>Prepared := s\<rparr>) = slack w" "slack (w\<lparr>Appender := s\<rparr>) = slack w" "slack (w\<lparr>Work := s\<rparr>) = slack w"
  "heaps_below (w\<lparr>Database := s\<rparr>) = heaps_below w" "heaps_below (w\<lparr>Connection := s\<rparr>) = heaps_below w"
  "heaps_below (w\<lparr>Native_request := s\<rparr>) = heaps_below w" "heaps_below (w\<lparr>Prepared := s\<rparr>) = heaps_below w"
  "heaps_below (w\<lparr>Appender := s\<rparr>) = heaps_below w" "heaps_below (w\<lparr>Work := s\<rparr>) = heaps_below w"
  "log_disciplined (w\<lparr>Database := s\<rparr>) = log_disciplined w" "log_disciplined (w\<lparr>Connection := s\<rparr>) = log_disciplined w"
  "log_disciplined (w\<lparr>Native_request := s\<rparr>) = log_disciplined w" "log_disciplined (w\<lparr>Prepared := s\<rparr>) = log_disciplined w"
  "log_disciplined (w\<lparr>Appender := s\<rparr>) = log_disciplined w" "log_disciplined (w\<lparr>Work := s\<rparr>) = log_disciplined w"
  by (simp_all add: slack_def resources_def heaps_below_def log_disciplined_def)

lemma evo_forget_slot:
  assumes "evo X Y k w w'"
  shows "evo X Y k (w\<lparr>Database := (Database w)(v := None)\<rparr>) (w'\<lparr>Database := (Database w')(v := None)\<rparr>)"
    and "evo X Y k (w\<lparr>Connection := (Connection w)(v := None)\<rparr>) (w'\<lparr>Connection := (Connection w')(v := None)\<rparr>)"
    and "evo X Y k (w\<lparr>Prepared := (Prepared w)(v := None)\<rparr>) (w'\<lparr>Prepared := (Prepared w')(v := None)\<rparr>)"
    and "evo X Y k (w\<lparr>Appender := (Appender w)(v := None)\<rparr>) (w'\<lparr>Appender := (Appender w')(v := None)\<rparr>)"
    and "evo X Y k (w\<lparr>Work := (Work w)(v := None)\<rparr>) (w'\<lparr>Work := (Work w')(v := None)\<rparr>)"
  using assms
  by (simp_all add: evo_def same_slots_def)

lemma base_forget_slot:
  assumes "base w"
  shows "base (w\<lparr>Database := s\<rparr>)" "base (w\<lparr>Connection := s\<rparr>)" "base (w\<lparr>Prepared := s\<rparr>)"
    "base (w\<lparr>Appender := s\<rparr>)" "base (w\<lparr>Work := s\<rparr>)"
  using assms by (simp_all add: base_def heaps_below_def disjoint_owners_def)

lemma base_counters [simp]: "base (released w) = base w" "base (acquired w) = base w" "base (count_fallback w) = base w"
  by (simp_all add: base_def heaps_below_def disjoint_owners_def count_fallback_def)

lemma slack_counters:
  "slack (released w) = slack w - 1" "slack (acquired w) = slack w + 1" "slack (count_fallback w) = slack w"
  by (simp_all add: slack_def resources_def acquired_def released_def count_fallback_def)

subsection \<open>What deleting an owner leaves alone\<close>

lemma evo_database_frame:
  assumes "evo {} {d} k w w'" and "base w" and "databases w d \<noteq> None"
  shows "connections w' = connections w" and "prepareds w' = prepareds w" and "appenders w' = appenders w"
    and "works w' = works w" and "(databases w')(d := None) = (databases w)(d := None)"
proof -
  note h = evo_heaps [OF assms(1)] and kept = heap_rel_kept [OF h(2)] heap_rel_kept [OF h(3)] heap_rel_kept [OF h(4)]
    heap_rel_kept [OF h(5)] heap_rel_kept [OF h(1)]
  have none: "prepareds w d = None" "appenders w d = None" "works w d = None"
    using assms(2,3) by (auto simp: base_def disjoint_owners_def)
  have none': "prepareds w' d = None" "appenders w' d = None" "works w' d = None"
    using none heap_rel_None [OF h(3)] heap_rel_None [OF h(4)] heap_rel_None [OF h(5)] by simp_all
  show "connections w' = connections w" by (rule ext, rule kept(1)) (simp add: evo_connection_def)
  show "prepareds w' = prepareds w"
    using kept(2) none none' by (intro ext) (metis evo_prepared_def singletonD)
  show "appenders w' = appenders w"
    using kept(3) none none' by (intro ext) (metis evo_appender_def singletonD)
  show "works w' = works w"
    using kept(4) none none' by (intro ext) (metis evo_work_def singletonD)
  show "(databases w')(d := None) = (databases w)(d := None)"
    using kept(5) by (auto simp: fun_eq_iff evo_database_def)
qed

lemma evo_connection_frame:
  assumes "evo {a} {a} k w w'" and "base w" and "connections w a \<noteq> None"
  shows "databases w' = databases w" and "prepareds w' = prepareds w" and "appenders w' = appenders w"
    and "works w' = works w" and "(connections w')(a := None) = (connections w)(a := None)"
proof -
  note h = evo_heaps [OF assms(1)] and kept = heap_rel_kept [OF h(1)] heap_rel_kept [OF h(3)] heap_rel_kept [OF h(4)]
    heap_rel_kept [OF h(5)] heap_rel_kept [OF h(2)]
  have none: "databases w a = None" "prepareds w a = None" "appenders w a = None" "works w a = None"
    using assms(2,3) by (auto simp: base_def disjoint_owners_def)
  have none': "databases w' a = None" "prepareds w' a = None" "appenders w' a = None" "works w' a = None"
    using none heap_rel_None [OF h(1)] heap_rel_None [OF h(3)] heap_rel_None [OF h(4)] heap_rel_None [OF h(5)] by simp_all
  show "databases w' = databases w"
    using kept(1) none none' by (intro ext) (metis evo_database_def singletonD)
  show "prepareds w' = prepareds w"
    using kept(2) none none' by (intro ext) (metis evo_prepared_def singletonD)
  show "appenders w' = appenders w"
    using kept(3) none none' by (intro ext) (metis evo_appender_def singletonD)
  show "works w' = works w"
    using kept(4) none none' by (intro ext) (metis evo_work_def singletonD)
  show "(connections w')(a := None) = (connections w)(a := None)"
    using kept(5) by (auto simp: fun_eq_iff evo_connection_def)
qed

lemma evo_same:
  assumes "evo X Y k w w'"
  shows "requests w' = requests w" "Database w' = Database w" "Connection w' = Connection w"
    "Native_request w' = Native_request w" "Prepared w' = Prepared w" "Appender w' = Appender w" "Work w' = Work w"
    "w_next w' = w_next w" "slack w' = slack w + k" "log_disciplined w \<Longrightarrow> log_disciplined w'"
  using assms by (simp_all add: evo_def same_slots_def)

lemma no_holder:
  assumes "well_formed K ed ea k w"
  shows "database_holders d w = 0 \<Longrightarrow> (\<forall>v. Database w v \<noteq> Some d) \<and> (\<forall>a c. connections w a = Some c \<longrightarrow> c_parent c \<noteq> d)"
    and "connection_holders a w = 0 \<Longrightarrow> (\<forall>v. Connection w v \<noteq> Some a) \<and>
      (\<forall>r q. requests w r = Some q \<longrightarrow> r_owner q \<noteq> Some a) \<and> (\<forall>p pr. prepareds w p = Some pr \<longrightarrow> p_parent pr \<noteq> a) \<and>
      (\<forall>p x. appenders w p = Some x \<longrightarrow> a_parent x \<noteq> a) \<and> (\<forall>p x. works w p = Some x \<longrightarrow> f_parent x \<noteq> Some a)"
proof -
  have "heaps_below w" and below: "dom (Database w) \<subseteq> {..<w_next w}" "dom (Connection w) \<subseteq> {..<w_next w}"
    using assms by (simp_all add: well_formed_def base_def slots_valid_def slots_ok_def)
  note fin = heaps_below_finite [OF \<open>heaps_below w\<close>] below [THEN finite_below]
  have zero: "points b p = 0 \<longleftrightarrow> p \<noteq> Some b" for b :: nat and p by (auto simp: points_def)
  show "database_holders d w = 0 \<Longrightarrow> (\<forall>v. Database w v \<noteq> Some d) \<and> (\<forall>a c. connections w a = Some c \<longrightarrow> c_parent c \<noteq> d)"
    by (auto simp: database_holders_def msum_zero_iff fin zero)
  show "connection_holders a w = 0 \<Longrightarrow> (\<forall>v. Connection w v \<noteq> Some a) \<and>
      (\<forall>r q. requests w r = Some q \<longrightarrow> r_owner q \<noteq> Some a) \<and> (\<forall>p pr. prepareds w p = Some pr \<longrightarrow> p_parent pr \<noteq> a) \<and>
      (\<forall>p x. appenders w p = Some x \<longrightarrow> a_parent x \<noteq> a) \<and> (\<forall>p x. works w p = Some x \<longrightarrow> f_parent x \<noteq> Some a)"
    by (auto simp: connection_holders_def msum_zero_iff fin zero)
qed

subsection \<open>One holder less\<close>

lemma well_formed_base: "well_formed K ed ea k w \<Longrightarrow> base w"
  by (simp add: well_formed_def)

lemma holders_put_references [simp]:
  assumes "heaps_below w"
  shows "databases w d = Some x \<Longrightarrow> database_holders e (put_database d x' w) = database_holders e w"
    and "connections w a = Some c \<Longrightarrow> c_parent c' = c_parent c \<Longrightarrow> database_holders e (put_connection a c' w) = database_holders e w"
    and "connections w a = Some c \<Longrightarrow> connection_holders b (put_connection a c' w) = connection_holders b w"
    and "connection_holders b (put_database d x' w) = connection_holders b w"
  using heaps_below_finite(2) [OF assms]
  by (simp_all add: database_holders_def connection_holders_def msum_update_same del: fun_upd_apply)

lemma database_unreferenced:
  assumes wf: "well_formed K (Some d) ea k u" and x: "databases u d = Some x" and "0 < database_holders d u"
  shows "well_formed K None ea k (put_database d (x\<lparr>d_references := d_references x - 1\<rparr>) u)"
proof -
  have b: "heaps_below u" and base: "base u" using wf by (simp_all add: well_formed_def base_def)
  let ?u = "put_database d (x\<lparr>d_references := d_references x - 1\<rparr>) u"
  have "base ?u" using base x by (auto simp: base_def disjoint_owners_def intro: heaps_below_put)
  moreover have "slots_valid ?u"
    using wf x by (auto simp: well_formed_def slots_valid_def slots_ok_def sole_def)
  moreover have "counted None ea ?u"
    using wf x assms(3) by (auto simp: well_formed_def counted_def b points_def split: if_splits)
  moreover have "linked K ?u"
    using wf by (auto simp: well_formed_def linked_def connection_ok_def request_ok_def)
  moreover have "slack ?u = k"
    using slack_put(1) [OF b x, of "x\<lparr>d_references := d_references x - 1\<rparr>"] wf
    by (simp add: database_resources_def well_formed_def)
  ultimately show ?thesis using wf by (simp add: well_formed_def)
qed

lemma linked_put_connection:
  assumes "linked K u" and "connections u a = Some c" and "connection_ok a c' u" and "c_active_request c' = c_active_request c"
  shows "linked K (put_connection a c' u)"
proof -
  have "connection_ok b x (put_connection a c' u) = connection_ok b x u" for b x by (simp add: connection_ok_def)
  moreover have "request_ok r q (put_connection a c' u)" if "request_ok r q u" for r q
    using that assms(2,4) by (auto simp: request_ok_def)
  ultimately show ?thesis using assms(1-3) by (auto simp: linked_def)
qed

lemma connection_unreferenced:
  assumes wf: "well_formed K ed (Some a) k u" and c: "connections u a = Some c" and "0 < connection_holders a u"
  shows "well_formed K ed None k (put_connection a (c\<lparr>c_references := c_references c - 1\<rparr>) u)"
proof -
  have b: "heaps_below u" and base: "base u" using wf by (simp_all add: well_formed_def base_def)
  let ?c = "c\<lparr>c_references := c_references c - 1\<rparr>"
  let ?u = "put_connection a ?c u"
  have "base ?u" using base c by (auto simp: base_def disjoint_owners_def intro: heaps_below_put)
  moreover have "slots_valid ?u"
    using wf c by (auto simp: well_formed_def slots_valid_def slots_ok_def sole_def)
  moreover have "counted ed None ?u"
    using wf c assms(3) by (auto simp: well_formed_def counted_def b points_def split: if_splits)
  moreover have "linked K ?u"
  proof -
    have l: "linked K u" using wf by (simp add: well_formed_def)
    then have "connection_ok a ?c u" using c by (auto simp: linked_def connection_ok_def phase_of_def)
    then show ?thesis by (intro linked_put_connection [OF l c]) simp_all
  qed
  moreover have "slack ?u = k"
    using slack_put(2) [OF b c, of ?c] wf by (simp add: connection_resources_def well_formed_def)
  ultimately show ?thesis using wf by (simp add: well_formed_def)
qed

subsection \<open>The last holder\<close>

lemma database_gone:
  assumes wf: "well_formed K (Some d) ea k u" and x: "databases u d = Some x" and none: "database_holders d u = 0"
    and e: "evo {} {d} 0 (put_database d x1 u) u2" and refs: "database_resources x1 = database_resources x"
    and y: "databases u2 d = Some y" "database_resources y = 1"
  shows "well_formed K None ea k (released (u2\<lparr>databases := (databases u2)(d := None)\<rparr>))"
proof -
  have b: "heaps_below u" and base: "base u" using wf by (simp_all add: well_formed_def base_def)
  have base1: "base (put_database d x1 u)" using base x by (auto simp: base_def disjoint_owners_def intro: heaps_below_put)
  note frame = evo_database_frame [OF e base1, simplified] and same = evo_same [OF e, simplified]
  let ?f = "released (u2\<lparr>databases := (databases u2)(d := None)\<rparr>)"
  have base2: "base u2" by (rule evo_base [OF e base1])
  then have "base ?f" using base_delete(2) by simp
  have data: "databases ?f = (databases u)(d := None)" using frame(5) by simp
  have heaps: "connections ?f = connections u" "prepareds ?f = prepareds u" "appenders ?f = appenders u" "works ?f = works u"
    "requests ?f = requests u" "Database ?f = Database u" "Connection ?f = Connection u" "Native_request ?f = Native_request u"
    "Prepared ?f = Prepared u" "Appender ?f = Appender u" "Work ?f = Work u" "w_next ?f = w_next u"
    using frame(1-4) same(1-8) by simp_all
  have holders: "database_holders e ?f = database_holders e u" "connection_holders a ?f = connection_holders a u" for e a
    unfolding database_holders_def connection_holders_def heaps by simp_all
  note gone = no_holder(1) [OF wf none]
  have "slots_valid ?f"
    using wf gone unfolding slots_valid_def well_formed_def heaps data slots_ok_def
    by (auto simp: ran_def dom_def)
  moreover have "counted None ea ?f"
    using wf unfolding counted_def holders heaps data well_formed_def by (auto simp: points_def split: if_splits)
  moreover have "linked K ?f"
    using wf gone unfolding linked_def well_formed_def connection_ok_def request_ok_def heaps data by auto
  moreover have "slack ?f = k"
  proof -
    have "heaps_below u2" using base2 by (simp add: base_def)
    then have "slack ?f = slack u2 + of_nat 1 - 1" using slack_delete(2) [of u2 d y] y by (simp add: slack_counters)
    also have "\<dots> = slack u2" by simp
    also have "\<dots> = slack (put_database d x1 u)" using same(9) by simp
    also have "\<dots> = slack u" using slack_put(1) [OF b x, of x1] refs by simp
    finally show ?thesis using wf by (simp add: well_formed_def)
  qed
  moreover have "log_disciplined ?f" using same(10) wf by (simp add: well_formed_def log_disciplined_def released_def)
  ultimately show ?thesis using \<open>base ?f\<close> by (simp add: well_formed_def)
qed

lemma connection_gone:
  assumes wf: "well_formed K None (Some a) k u" and c: "connections u a = Some c" and none: "connection_holders a u = 0"
    and e: "evo {a} {a} 0 (put_connection a c1 u) u2"
    and refs: "connection_resources c1 = connection_resources c" "c_parent c1 = c_parent c"
    and y: "bare a u2"
  shows "well_formed K (Some (c_parent c)) None (k + 1) (u2\<lparr>connections := (connections u2)(a := None)\<rparr>)"
proof -
  have b: "heaps_below u" and base: "base u" using wf by (simp_all add: well_formed_def base_def)
  have base1: "base (put_connection a c1 u)" using base c by (auto simp: base_def disjoint_owners_def intro: heaps_below_put)
  note frame = evo_connection_frame [OF e base1, simplified] and same = evo_same [OF e, simplified]
  let ?f = "u2\<lparr>connections := (connections u2)(a := None)\<rparr>"
  have base2: "base u2" by (rule evo_base [OF e base1])
  have "base ?f" using base_delete(1) [OF base2] .
  have conn: "connections ?f = (connections u)(a := None)" using frame(5) by simp
  have heaps: "databases ?f = databases u" "prepareds ?f = prepareds u" "appenders ?f = appenders u" "works ?f = works u"
    "requests ?f = requests u" "Database ?f = Database u" "Connection ?f = Connection u" "Native_request ?f = Native_request u"
    "Prepared ?f = Prepared u" "Appender ?f = Appender u" "Work ?f = Work u" "w_next ?f = w_next u"
    using frame(1-4) same(1-8) by simp_all
  have databases: "database_holders d u = database_holders d ?f + points d (Some (c_parent c))" for d
    using msum_delete [OF heaps_below_finite(2) [OF b] c, of "\<lambda>c. points d (Some (c_parent c))"]
    unfolding database_holders_def heaps conn by simp
  have holders: "connection_holders e ?f = connection_holders e u" for e
    unfolding connection_holders_def heaps by simp
  note gone = no_holder(2) [OF wf none]
  have "slots_valid ?f"
    using wf gone unfolding slots_valid_def well_formed_def heaps conn slots_ok_def
    by (auto simp: ran_def dom_def)
  moreover have "counted (Some (c_parent c)) None ?f"
    using wf unfolding counted_def holders heaps conn well_formed_def databases by (auto simp: points_def split: if_splits)
  moreover have "linked K ?f"
  proof -
    have l: "linked K u" using wf by (simp add: well_formed_def)
    then show ?thesis using gone unfolding linked_def connection_ok_def request_ok_def heaps conn by auto
  qed
  moreover have "slack ?f = k + 1"
  proof -
    obtain c' where "connections u2 a = Some c'" "connection_resources c' = 1" using y by (auto simp: bare_def)
    then have "slack ?f = slack u2 + 1" using slack_delete(1) [of u2 a c'] base2 by (simp add: base_def)
    also have "slack u2 = slack (put_connection a c1 u)" using same(9) by simp
    also have "\<dots> = slack u" using slack_put(2) [OF b c, of c1] refs by simp
    also have "\<dots> = k" using wf by (simp add: well_formed_def)
    finally show ?thesis .
  qed
  moreover have "log_disciplined ?f" using same(10) wf by (simp add: well_formed_def log_disciplined_def)
  ultimately show ?thesis using \<open>base ?f\<close> by (simp add: well_formed_def)
qed

lemma well_formed_released: "well_formed K ed ea (k + 1) w \<Longrightarrow> well_formed K ed ea k (released w)"
  by (auto simp: well_formed_def slots_valid_def counted_def linked_def connection_ok_def request_ok_def slack_counters
      database_holders_def connection_holders_def log_disciplined_def)

lemma well_formed_acquired: "well_formed K ed ea k w \<Longrightarrow> well_formed K ed ea (k + 1) (acquired w)"
  by (auto simp: well_formed_def slots_valid_def counted_def linked_def connection_ok_def request_ok_def slack_counters
      database_holders_def connection_holders_def log_disciplined_def)

subsection \<open>Deleting through a view\<close>

context database_view
begin

lemma unref:
  assumes wf: "well_formed K (Some d) ea k (V w)" and base: "base w" and small: "small w" and d: "databases w d \<noteq> None"
    and S: "session_releases S"
  shows "runs (database_unref S (Some d) w) (\<lambda>w'. base w' \<and> w_next w' = w_next w \<and> well_formed K None ea k (V w'))"
proof -
  obtain x where x: "databases w d = Some x" using d by blast
  then have xV: "databases (V w) d = Some x" by (simp add: databases)
  let ?n = "database_holders d (V w)" and ?x = "x\<lparr>d_references := d_references x - 1\<rparr>"
  let ?w = "put_database d ?x w"
  have V: "V ?w = put_database d ?x (V w)" by (simp add: put_databases databases)
  have bound: "?n < 2 ^ 32 - 1"
    using holders_bounded(1) [OF wf, of d] small by (simp add: small_def next_view)
  have refs: "d_references x = of_nat (Suc ?n)"
    using wf xV by (auto simp: well_formed_def counted_def points_def add.commute)
  note last = last_reference [OF bound refs]
  have base1: "base ?w" using base x by (auto simp: base_def disjoint_owners_def intro: heaps_below_put)
  have unref: "database_unref S (Some d) w = (if d_references x = 1
      then bind (database_clear S (Some d) ?w) (\<lambda>w. Inr (released (w\<lparr>databases := (databases w)(d := None)\<rparr>))) else Inr ?w)"
    using x by (simp add: database_unref_def on_database_def)
  show ?thesis
  proof (cases "?n = 0")
    case False
    then show ?thesis
      using unref last(1) base1 database_unreferenced [OF wf xV] by (simp add: V)
  next
    case True
    have "at_database d 0 ?w (d_database x \<noteq> None) (d_config x \<noteq> None) (d_path x \<noteq> None) ?w"
      using base1 by (auto simp: at_database_def database_is_def base_def intro: evo_refl)
    from database_clear_at_database [OF this S]
    have "runs (database_clear S (Some d) ?w) (at_database d 0 ?w False False False)" .
    then have "runs (bind (database_clear S (Some d) ?w) (\<lambda>w. Inr (released (w\<lparr>databases := (databases w)(d := None)\<rparr>))))
        (\<lambda>w'. base w' \<and> w_next w' = w_next w \<and> well_formed K None ea k (V w'))"
    proof (rule runs_bindI)
      fix w2
      assume "at_database d 0 ?w False False False w2"
      then obtain y where e: "evo {} {d} 0 ?w w2" and y: "databases w2 d = Some y" "database_resources y = 1"
        using database_resources_is [of False False False] by (auto simp: at_database_def)
      have eV: "evo {} {d} 0 (put_database d ?x (V w)) (V w2)"
        using evo_database_view [OF base1 _ e] by (simp add: V)
      have "well_formed K None ea k (released ((V w2)\<lparr>databases := (databases (V w2))(d := None)\<rparr>))"
        by (rule database_gone [OF wf xV True eV]) (use y in \<open>simp_all add: database_resources_def databases\<close>)
      moreover have "base (w2\<lparr>databases := (databases w2)(d := None)\<rparr>)" by (rule base_delete(2) [OF evo_base [OF e base1]])
      ultimately show "runs (Inr (released (w2\<lparr>databases := (databases w2)(d := None)\<rparr>)))
          (\<lambda>w'. base w' \<and> w_next w' = w_next w \<and> well_formed K None ea k (V w'))"
        using evo_same(8) [OF e] by (simp add: released_view put_databases databases)
    qed
    then show ?thesis using unref last(1) True by simp
  qed
qed

end

context connection_view
begin

lemma forget: "database_view (\<lambda>w. V (w\<lparr>connections := (connections w)(a := None)\<rparr>))"
proof unfold_locales
  show "base w \<Longrightarrow> base (V (w\<lparr>connections := (connections w)(a := None)\<rparr>))" for w
    by (intro base_view base_delete)
  show "V ((w\<lparr>databases := m\<rparr>)\<lparr>connections := (connections (w\<lparr>databases := m\<rparr>))(a := None)\<rparr>) =
      V (w\<lparr>connections := (connections w)(a := None)\<rparr>)\<lparr>databases := m\<rparr>" for w m
    by (simp add: put_connections put_databases)
  show "V (released w\<lparr>connections := (connections (released w))(a := None)\<rparr>) =
      released (V (w\<lparr>connections := (connections w)(a := None)\<rparr>))" for w
    by (simp add: put_connections released_view) (simp add: released_def)
  show "evo {} {d} 0 (V (w\<lparr>connections := (connections w)(a := None)\<rparr>)) (V (w'\<lparr>connections := (connections w')(a := None)\<rparr>))"
    if "base w" "databases w d \<noteq> None" "evo {} {d} 0 w w'" for w w' d
    by (rule evo_database_view [OF base_delete(1) [OF that(1)]])
      (use that in \<open>auto simp: base_def intro: evo_delete(1)\<close>)
qed (simp_all add: databases next_view)

text \<open>The last reference: the connection is cleared, then its database loses a reference.\<close>

lemma clear_unheld:
  assumes wf: "well_formed K None (Some a) k (V w)" and base: "base w" and c: "connections w a = Some c"
    and none: "connection_holders a (V w) = 0" and S: "session_releases S" and T: "statement_releases T"
    and w1: "w1 = put_connection a (c\<lparr>c_references := c_references c - 1\<rparr>) w"
  shows "runs (connection_clear S T (Some a) DUCKDB_ML_RUNTIME_HELD w1) (\<lambda>w2. evo {a} {a} 0 w1 w2 \<and> bare a w2)"
proof -
  have ok: "connection_ok a c (V w)" using wf c by (simp add: well_formed_def linked_def connections)
  then have idle: "c_active_request c = None" using no_holder(2) [OF wf none]
    by (cases "c_active_request c") (auto simp: connection_ok_def)
  have "base w1" unfolding w1 using base c by (auto simp: base_def disjoint_owners_def intro: heaps_below_put)
  then have "quiescent a (c_native_closing c) w1"
    using ok idle by (auto simp: w1 quiescent_def native_def connection_ok_def base_def phase_of_def)
  then have d: "during a {a} False 0 (c_native_closing c) False 0 w1 w1"
    using quiescent_busy [of a _ w1 "\<lambda>_. True" "{a}"] by (simp add: busy_def)
  have "runs (connection_clear S T (Some a) DUCKDB_ML_RUNTIME_HELD w1) (busy a {a} False 0 True False 0 w1 (bare a))"
    by (rule connection_clear_bare [where ?c0.0 = "c\<lparr>c_references := c_references c - 1\<rparr>", OF d _ _ _ S T]) (use idle w1 in simp_all)
  then show ?thesis by (rule runs_conseq) (auto simp: busy_def during_def)
qed

lemma parent_released:
  assumes wf: "well_formed K (Some d) None (k + 1) ((V w)\<lparr>connections := (connections (V w))(a := None)\<rparr>)"
    and base: "base w" and "small w" and "databases w d \<noteq> None" and S: "session_releases S"
  shows "runs (bind (database_unref S (Some d) w) (\<lambda>w. Inr (released (w\<lparr>connections := (connections w)(a := None)\<rparr>))))
    (\<lambda>w'. base w' \<and> w_next w' = w_next w \<and> well_formed K None None k (V w'))"
proof (rule runs_bindI)
  show "runs (database_unref S (Some d) w) (\<lambda>w'. base w' \<and> w_next w' = w_next w \<and>
      well_formed K None None (k + 1) (V (w'\<lparr>connections := (connections w')(a := None)\<rparr>)))"
    using assms by (intro database_view.unref [OF forget]) (simp_all add: put_connections connections)
  fix w3
  assume w3: "base w3 \<and> w_next w3 = w_next w \<and> well_formed K None None (k + 1) (V (w3\<lparr>connections := (connections w3)(a := None)\<rparr>))"
  then have "well_formed K None None k (released (V (w3\<lparr>connections := (connections w3)(a := None)\<rparr>)))"
    by (auto intro: well_formed_released)
  then show "runs (Inr (released (w3\<lparr>connections := (connections w3)(a := None)\<rparr>)))
      (\<lambda>w'. base w' \<and> w_next w' = w_next w \<and> well_formed K None None k (V w'))"
    using w3 base_delete(1) [of w3 a] by (simp add: released_view)
qed

lemma delete:
  assumes wf: "well_formed K None (Some a) k (V w)" and base: "base w" and small: "small w" and a: "connections w a \<noteq> None"
    and S: "session_releases S" and T: "statement_releases T"
  shows "runs (connection_delete S T (Some a) w) (\<lambda>w'. base w' \<and> w_next w' = w_next w \<and> well_formed K None None k (V w'))"
proof -
  obtain c where c: "connections w a = Some c" using a by blast
  then have cV: "connections (V w) a = Some c" by (simp add: connections)
  let ?n = "connection_holders a (V w)" and ?c = "c\<lparr>c_references := c_references c - 1\<rparr>"
  let ?w = "put_connection a ?c w"
  have V: "V ?w = put_connection a ?c (V w)" by (simp add: put_connections connections)
  have bound: "?n < 2 ^ 32 - 1" using holders_bounded(2) [OF wf, of a] small by (simp add: small_def next_view)
  have refs: "c_references c = of_nat (Suc ?n)"
    using wf cV by (auto simp: well_formed_def counted_def points_def add.commute)
  note last = last_reference [OF bound refs]
  have base1: "base ?w" using base c by (auto simp: base_def disjoint_owners_def intro: heaps_below_put)
  have delete: "connection_delete S T (Some a) w = (if c_references c \<noteq> 1 then Inr ?w
      else bind (connection_clear S T (Some a) DUCKDB_ML_RUNTIME_HELD ?w) (\<lambda>w.
        bind (database_unref S (Some (c_parent c)) w) (\<lambda>w.
        Inr (released (w\<lparr>connections := (connections w)(a := None)\<rparr>)))))"
    using c by (simp add: connection_delete_def on_connection_def)
  show ?thesis
  proof (cases "?n = 0")
    case False
    then show ?thesis using delete last(1) base1 connection_unreferenced [OF wf cV] by (simp add: V)
  next
    case True
    have "runs (bind (connection_clear S T (Some a) DUCKDB_ML_RUNTIME_HELD ?w) (\<lambda>w.
        bind (database_unref S (Some (c_parent c)) w) (\<lambda>w. Inr (released (w\<lparr>connections := (connections w)(a := None)\<rparr>)))))
        (\<lambda>w'. base w' \<and> w_next w' = w_next w \<and> well_formed K None None k (V w'))"
    proof (rule runs_bindI [OF clear_unheld [OF wf base c True S T refl]])
      fix w2
      assume "evo {a} {a} 0 ?w w2 \<and> bare a w2"
      then have e: "evo {a} {a} 0 ?w w2" and bare: "bare a w2" by simp_all
      have eV: "evo {a} {a} 0 (put_connection a ?c (V w)) (V w2)" using evo_connection_view [OF base1 _ e] by (simp add: V)
      have "well_formed K (Some (c_parent c)) None (k + 1) ((V w2)\<lparr>connections := (connections (V w2))(a := None)\<rparr>)"
        by (rule connection_gone [OF wf cV True eV]) (use bare in \<open>simp_all add: connection_resources_def bare_def connections\<close>)
      moreover have "databases w2 (c_parent c) \<noteq> None"
        using wf cV evo_none(1) [OF e] by (auto simp: well_formed_def linked_def connection_ok_def databases)
      moreover have "small w2" using small evo_same(8) [OF e] by (simp add: small_def)
      ultimately show "runs (bind (database_unref S (Some (c_parent c)) w2) (\<lambda>w.
          Inr (released (w\<lparr>connections := (connections w)(a := None)\<rparr>))))
          (\<lambda>w'. base w' \<and> w_next w' = w_next w \<and> well_formed K None None k (V w'))"
        using evo_base [OF e base1] S evo_same(8) [OF e] parent_released [where w = w2 and S = S] by simp
    qed
    then show ?thesis using delete last(1) True by simp
  qed
qed

end

subsection \<open>The views the stubs use\<close>

interpretation slot_of_database: database_view "\<lambda>w. w\<lparr>Database := (Database w)(v := None)\<rparr>" for v
  by unfold_locales (auto simp: released_def intro: base_forget_slot evo_forget_slot)

interpretation whole: connection_view "\<lambda>w. w"
  by unfold_locales auto

interpretation slot_of_connection: connection_view "\<lambda>w. w\<lparr>Connection := (Connection w)(v := None)\<rparr>" for v
  by unfold_locales (auto simp: released_def intro: base_forget_slot evo_forget_slot)

text \<open>A doomed prepared statement, appender or file work, with its slot.\<close>

lemma evo_forget_owner:
  assumes "base w" and "connections w a \<noteq> None \<or> databases w a \<noteq> None" and "X \<subseteq> {a}" and "evo X {a} 0 w w'"
  shows "evo X {a} 0 (w\<lparr>prepareds := (prepareds w)(p := None)\<rparr>) (w'\<lparr>prepareds := (prepareds w')(p := None)\<rparr>)"
    and "evo X {a} 0 (w\<lparr>appenders := (appenders w)(p := None)\<rparr>) (w'\<lparr>appenders := (appenders w')(p := None)\<rparr>)"
    and "evo X {a} 0 (w\<lparr>works := (works w)(p := None)\<rparr>) (w'\<lparr>works := (works w')(p := None)\<rparr>)"
proof -
  have below: "heaps_below w" using assms(1) by (simp add: base_def)
  have none: "prepareds w a = None" "appenders w a = None" "works w a = None"
    using assms(1,2) by (auto simp: base_def disjoint_owners_def)
  note h = evo_heaps [OF assms(4)]
  have none': "prepareds w' a = None" "appenders w' a = None" "works w' a = None"
    using none heap_rel_None [OF h(3)] heap_rel_None [OF h(4)] heap_rel_None [OF h(5)] by simp_all
  have "p = a \<Longrightarrow> (prepareds w)(p := None) = prepareds w" "p = a \<Longrightarrow> (prepareds w')(p := None) = prepareds w'"
    "p = a \<Longrightarrow> (appenders w)(p := None) = appenders w" "p = a \<Longrightarrow> (appenders w')(p := None) = appenders w'"
    "p = a \<Longrightarrow> (works w)(p := None) = works w" "p = a \<Longrightarrow> (works w')(p := None) = works w'"
    using none none' by (simp_all add: fun_upd_idem)
  then show "evo X {a} 0 (w\<lparr>prepareds := (prepareds w)(p := None)\<rparr>) (w'\<lparr>prepareds := (prepareds w')(p := None)\<rparr>)"
    and "evo X {a} 0 (w\<lparr>appenders := (appenders w)(p := None)\<rparr>) (w'\<lparr>appenders := (appenders w')(p := None)\<rparr>)"
    and "evo X {a} 0 (w\<lparr>works := (works w)(p := None)\<rparr>) (w'\<lparr>works := (works w')(p := None)\<rparr>)"
    using evo_delete(2-4) [OF assms(4) below, of p] assms(4) by (cases "p = a"; simp)+
qed

interpretation prepared_gone: connection_view
  "\<lambda>w. w\<lparr>prepareds := (prepareds w)(p := None), Prepared := (Prepared w)(v := None)\<rparr>" for p v
  by unfold_locales
    (auto simp: released_def intro!: base_forget_slot base_delete evo_forget_slot(3) [of _ _ _ "w\<lparr>prepareds := (prepareds w)(p := None)\<rparr>"
      "w'\<lparr>prepareds := (prepareds w')(p := None)\<rparr>" for w w', simplified] evo_forget_owner(1))

interpretation appender_gone: connection_view
  "\<lambda>w. w\<lparr>appenders := (appenders w)(p := None), Appender := (Appender w)(v := None)\<rparr>" for p v
  by unfold_locales
    (auto simp: released_def intro!: base_forget_slot base_delete evo_forget_slot(4) [of _ _ _ "w\<lparr>appenders := (appenders w)(p := None)\<rparr>"
      "w'\<lparr>appenders := (appenders w')(p := None)\<rparr>" for w w', simplified] evo_forget_owner(2))

interpretation work_gone: connection_view
  "\<lambda>w. w\<lparr>works := (works w)(p := None), Work := (Work w)(v := None)\<rparr>" for p v
  by unfold_locales
    (auto simp: released_def intro!: base_forget_slot base_delete evo_forget_slot(5) [of _ _ _ "w\<lparr>works := (works w)(p := None)\<rparr>"
      "w'\<lparr>works := (works w')(p := None)\<rparr>" for w w', simplified] evo_forget_owner(3))

text \<open>A doomed request, with its slot.\<close>

lemma slack_requests:
  "slack (w\<lparr>requests := m\<rparr>) = slack w + of_nat (msum (requests w) (\<lambda>_. 1)) - of_nat (msum m (\<lambda>_. 1))"
  by (simp add: slack_def resources_def)

lemma heaps_below_forget_request: "heaps_below w \<Longrightarrow> heaps_below (w\<lparr>requests := (requests w)(r := None)\<rparr>)"
  by (auto simp: heaps_below_def)

lemma evo_forget_request:
  assumes "evo X Y k w w'"
  shows "evo X Y k (w\<lparr>requests := (requests w)(r := None), Native_request := (Native_request w)(v := None)\<rparr>)
    (w'\<lparr>requests := (requests w')(r := None), Native_request := (Native_request w')(v := None)\<rparr>)"
  using assms heaps_below_forget_request [of w' r] by (simp add: evo_def same_slots_def slack_requests log_disciplined_def)

interpretation request_gone: connection_view
  "\<lambda>w. w\<lparr>requests := (requests w)(r := None), Native_request := (Native_request w)(v := None)\<rparr>" for r v
proof unfold_locales
  show "base (w\<lparr>requests := (requests w)(r := None), Native_request := (Native_request w)(v := None)\<rparr>)" if "base w" for w
    using that heaps_below_forget_request [of w r] by (simp add: base_def disjoint_owners_def)
qed (auto simp: released_def intro: evo_forget_request)

end
