(* ===== verification/Creation.thy ===== *)
theory Creation
  imports Deletion Appenders Local_Files
begin

text \<open>
  Allocation of owners keeps the global invariant: the new owner has the reference of its
  slot, takes one of its parent, and counts itself as a live resource.
\<close>

subsection \<open>What the invariant does not depend on\<close>

lemma well_formed_oracles [simp]:
  "well_formed K ed ea k (w\<lparr>w_oom := os\<rparr>) = well_formed K ed ea k w"
  "well_formed K ed ea k (w\<lparr>w_pending := ps\<rparr>) = well_formed K ed ea k w"
  "well_formed K ed ea k (w\<lparr>w_engine := e\<rparr>) = well_formed K ed ea k w"
  "well_formed K ed ea k (count_fallback w) = well_formed K ed ea k w"
  by (simp_all add: well_formed_def base_def heaps_below_def disjoint_owners_def slots_valid_def counted_def linked_def
      connection_ok_def request_ok_def database_holders_def connection_holders_def slack_def resources_def
      log_disciplined_def count_fallback_def)

lemma dom_below_mono: "dom m \<subseteq> {..<i :: nat} \<Longrightarrow> i \<le> n \<Longrightarrow> dom m \<subseteq> {..<n}"
  by auto

lemma well_formed_next:
  assumes "well_formed K ed ea k w" and "w_next w \<le> n"
  shows "well_formed K ed ea k (w\<lparr>w_next := n\<rparr>)"
proof -
  note mono = dom_below_mono [OF _ assms(2)]
  show ?thesis
    using assms(1)
    by (simp add: mono well_formed_def base_def heaps_below_def disjoint_owners_def slots_valid_def slots_ok_def sole_def
        counted_def linked_def connection_ok_def request_ok_def database_holders_def connection_holders_def
        slack_def resources_def log_disciplined_def)
qed

lemma malloc_well_formed:
  assumes "well_formed K ed ea k w" and "malloc_fails w = (b, w')"
  shows "well_formed K ed ea k w' \<and> w_next w' = w_next w \<and> (\<exists>os. w' = w\<lparr>w_oom := os\<rparr>)"
proof -
  have "w' = w\<lparr>w_oom := w_oom w'\<rparr>" using assms(2) by (cases w) (auto simp: malloc_fails_def split: list.splits)
  then obtain os where "w' = w\<lparr>w_oom := os\<rparr>" by blast
  then show ?thesis using assms(1) by auto
qed

subsection \<open>Fresh addresses\<close>

lemma fresh_cells:
  assumes "well_formed K ed ea k w" and "w_next w \<le> n"
  shows "databases w n = None" "connections w n = None" "requests w n = None" "prepareds w n = None"
    "appenders w n = None" "works w n = None" "Database w n = None" "Connection w n = None"
    "Native_request w n = None" "Prepared w n = None" "Appender w n = None" "Work w n = None"
  using assms by (auto simp: well_formed_def base_def heaps_below_def slots_valid_def slots_ok_def sole_def dom_def)

lemma slot_target:
  assumes "well_formed K ed ea k w"
  shows "Database w v = Some d \<Longrightarrow> \<exists>x. databases w d = Some x" and "Connection w v = Some a \<Longrightarrow> \<exists>c. connections w a = Some c"
    and "Native_request w v = Some r \<Longrightarrow> \<exists>q. requests w r = Some q" and "Prepared w v = Some p \<Longrightarrow> \<exists>pr. prepareds w p = Some pr"
    and "Appender w v = Some p \<Longrightarrow> \<exists>x. appenders w p = Some x" and "Work w v = Some p \<Longrightarrow> \<exists>y. works w p = Some y"
proof -
  have ran: "ran (Database w) \<subseteq> dom (databases w)" "ran (Connection w) \<subseteq> dom (connections w)"
    "ran (Native_request w) \<subseteq> dom (requests w)" "ran (Prepared w) \<subseteq> dom (prepareds w)"
    "ran (Appender w) \<subseteq> dom (appenders w)" "ran (Work w) \<subseteq> dom (works w)"
    using assms by (simp_all add: well_formed_def slots_valid_def slots_ok_def sole_def)
  have target: "m v = Some x \<Longrightarrow> ran m \<subseteq> dom h \<Longrightarrow> \<exists>y. h x = Some y" for m :: "nat \<rightharpoonup> nat" and h :: "nat \<rightharpoonup> 'v" and x
    by (auto dest: ranI)
  show "Database w v = Some d \<Longrightarrow> \<exists>x. databases w d = Some x" by (rule target [OF _ ran(1)])
  show "Connection w v = Some a \<Longrightarrow> \<exists>c. connections w a = Some c" by (rule target [OF _ ran(2)])
  show "Native_request w v = Some r \<Longrightarrow> \<exists>q. requests w r = Some q" by (rule target [OF _ ran(3)])
  show "Prepared w v = Some p \<Longrightarrow> \<exists>pr. prepareds w p = Some pr" by (rule target [OF _ ran(4)])
  show "Appender w v = Some p \<Longrightarrow> \<exists>x. appenders w p = Some x" by (rule target [OF _ ran(5)])
  show "Work w v = Some p \<Longrightarrow> \<exists>y. works w p = Some y" by (rule target [OF _ ran(6)])
qed

lemma link_target:
  assumes "well_formed K ed ea k w"
  shows "connections w a = Some c \<Longrightarrow> \<exists>x. databases w (c_parent c) = Some x"
    and "requests w r = Some q \<Longrightarrow> r_owner q = Some a \<Longrightarrow> \<exists>c. connections w a = Some c \<and> c_active_request c = Some r"
    and "prepareds w p = Some pr \<Longrightarrow> \<exists>c. connections w (p_parent pr) = Some c"
    and "appenders w p = Some x \<Longrightarrow> \<exists>c. connections w (a_parent x) = Some c"
    and "works w p = Some y \<Longrightarrow> f_parent y = Some a \<Longrightarrow> \<exists>c. connections w a = Some c"
    and "connections w a = Some c \<Longrightarrow> c_active_request c = Some r \<Longrightarrow> \<exists>q. requests w r = Some q \<and> r_owner q = Some a"
  using assms unfolding well_formed_def linked_def connection_ok_def request_ok_def by blast+

lemma no_cell_no_holder:
  assumes "well_formed K ed ea k w"
  shows "databases w d = None \<Longrightarrow> database_holders d w = 0" and "connections w a = None \<Longrightarrow> connection_holders a w = 0"
proof -
  have "heaps_below w" and below: "dom (Database w) \<subseteq> {..<w_next w}" "dom (Connection w) \<subseteq> {..<w_next w}"
    using assms by (simp_all add: well_formed_def base_def slots_valid_def slots_ok_def)
  note fin = heaps_below_finite [OF \<open>heaps_below w\<close>] below [THEN finite_below]
  have zero: "points b p = 0 \<longleftrightarrow> p \<noteq> Some b" for b :: nat and p by (auto simp: points_def)
  note slot = slot_target [OF assms] and link = link_target [OF assms]
  show "database_holders d w = 0" if "databases w d = None"
    using that by (auto simp: database_holders_def msum_zero_iff fin zero dest!: slot(1) link(1))
  show "connection_holders a w = 0" if "connections w a = None"
    using that by (auto simp: connection_holders_def msum_zero_iff fin zero dest!: slot(2) link(2-5))
qed

lemma finite_slots:
  assumes "well_formed K ed ea k w"
  shows "finite (dom (Database w))" "finite (dom (Connection w))" "finite (dom (Native_request w))"
    "finite (dom (Prepared w))" "finite (dom (Appender w))" "finite (dom (Work w))"
  using assms by (auto simp: well_formed_def slots_valid_def slots_ok_def sole_def intro: finite_below)

lemma finite_heaps:
  assumes "well_formed K ed ea k w"
  shows "finite (dom (databases w))" "finite (dom (connections w))" "finite (dom (requests w))"
    "finite (dom (prepareds w))" "finite (dom (appenders w))" "finite (dom (works w))"
  using assms heaps_below_finite [of w] by (simp_all add: well_formed_def base_def)

subsection \<open>Blank addresses\<close>

text \<open>An address that has been given out and holds nothing yet.\<close>

definition blank :: "nat \<Rightarrow> 'e world \<Rightarrow> bool" where
  "blank n w \<longleftrightarrow> n < w_next w \<and> databases w n = None \<and> connections w n = None \<and> requests w n = None \<and>
     prepareds w n = None \<and> appenders w n = None \<and> works w n = None \<and> Database w n = None \<and> Connection w n = None \<and>
     Native_request w n = None \<and> Prepared w n = None \<and> Appender w n = None \<and> Work w n = None"

lemma fresh_blank:
  assumes "well_formed K ed ea k w" and "w_next w \<le> n" and "n < m"
  shows "blank n (w\<lparr>w_next := m\<rparr>)"
  using fresh_cells [OF assms(1,2)] assms(3) by (simp add: blank_def)

lemma blank_oracles [simp]: "blank n (w\<lparr>w_oom := os\<rparr>) = blank n w"
  by (simp add: blank_def)

lemma blank_put:
  "blank n w \<Longrightarrow> databases w d = Some x \<Longrightarrow> blank n (put_database d x' w)"
  "blank n w \<Longrightarrow> connections w a = Some c \<Longrightarrow> blank n (put_connection a c' w)"
  by (auto simp: blank_def)

text \<open>What \<open>fresh\<close>, the allocation and the second \<open>fresh\<close> leave.\<close>

lemma allocated:
  assumes "wf K w" and "fresh w = (v, w1)" and "malloc_fails w1 = (fails, w2)"
  shows "wf K w2" and "w_next w2 = Suc v" and "fresh w2 = (d, w3) \<Longrightarrow> wf K w3 \<and> blank v w3 \<and> blank d w3 \<and> v \<noteq> d \<and>
    databases w3 = databases w \<and> connections w3 = connections w \<and> Database w3 = Database w \<and> Connection w3 = Connection w"
proof -
  have v: "v = w_next w" "w1 = w\<lparr>w_next := Suc v\<rparr>" using assms(2) by (auto simp: fresh_def)
  have wf1: "wf K w1" unfolding v(2) by (rule well_formed_next [OF assms(1)]) (simp add: v(1))
  from malloc_well_formed [OF wf1 assms(3)] obtain os where w2: "w2 = w1\<lparr>w_oom := os\<rparr>" "wf K w2" by blast
  show "wf K w2" by (rule w2(2))
  show next2: "w_next w2 = Suc v" by (simp add: w2(1) v(2))
  assume "fresh w2 = (d, w3)"
  then have d: "d = Suc v" "w3 = w2\<lparr>w_next := Suc d\<rparr>" using next2 by (auto simp: fresh_def)
  have "wf K w3" unfolding d(2) by (rule well_formed_next [OF w2(2)]) (simp add: next2 d(1))
  moreover have "w3 = (w\<lparr>w_next := Suc d\<rparr>)\<lparr>w_oom := os\<rparr>" by (simp add: d(2) w2(1) v(2))
  ultimately show "wf K w3 \<and> blank v w3 \<and> blank d w3 \<and> v \<noteq> d \<and>
    databases w3 = databases w \<and> connections w3 = connections w \<and> Database w3 = Database w \<and> Connection w3 = Connection w"
    using fresh_blank [OF assms(1), of v "Suc d"] fresh_blank [OF assms(1), of d "Suc d"] v(1) d(1) by simp
qed

subsection \<open>Taking a reference\<close>

lemma database_referenced:
  assumes wf: "well_formed K None ea k w" and x: "databases w d = Some x"
  shows "well_formed K (Some d) ea k (put_database d (x\<lparr>d_references := d_references x + 1\<rparr>) w)"
proof -
  let ?x = "x\<lparr>d_references := d_references x + 1\<rparr>"
  let ?w = "put_database d ?x w"
  have b: "heaps_below w" "base w" using wf by (simp_all add: well_formed_def base_def)
  have "base ?w" using b x by (auto simp: base_def disjoint_owners_def intro: heaps_below_put)
  moreover have "slots_valid ?w" using wf x by (auto simp: well_formed_def slots_valid_def slots_ok_def sole_def)
  moreover have "counted (Some d) ea ?w"
    using wf x by (auto simp: counted_def well_formed_def b(1) points_def add.commute)
  moreover have "linked K ?w" using wf by (auto simp: well_formed_def linked_def connection_ok_def request_ok_def)
  moreover have "slack ?w = k"
    using slack_put(1) [OF b(1) x, of ?x] wf by (simp add: database_resources_def well_formed_def)
  ultimately show ?thesis using wf by (simp add: well_formed_def)
qed

lemma connection_referenced:
  assumes wf: "well_formed K ed None k w" and c: "connections w a = Some c"
  shows "well_formed K ed (Some a) k (put_connection a (c\<lparr>c_references := c_references c + 1\<rparr>) w)"
proof -
  let ?c = "c\<lparr>c_references := c_references c + 1\<rparr>"
  let ?w = "put_connection a ?c w"
  have b: "heaps_below w" "base w" using wf by (simp_all add: well_formed_def base_def)
  have "base ?w" using b c by (auto simp: base_def disjoint_owners_def intro: heaps_below_put)
  moreover have "slots_valid ?w" using wf c by (auto simp: well_formed_def slots_valid_def slots_ok_def sole_def)
  moreover have "counted ed (Some a) ?w"
    using wf c by (auto simp: counted_def well_formed_def b(1) points_def add.commute)
  moreover have "linked K ?w"
  proof -
    have l: "linked K w" using wf by (simp add: well_formed_def)
    then have "connection_ok a ?c w" using c by (auto simp: linked_def connection_ok_def phase_of_def)
    then show ?thesis by (intro linked_put_connection [OF l c]) simp_all
  qed
  moreover have "slack ?w = k"
    using slack_put(2) [OF b(1) c, of ?c] wf by (simp add: connection_resources_def well_formed_def)
  ultimately show ?thesis using wf by (simp add: well_formed_def)
qed

subsection \<open>New owners\<close>

lemma sole_insert: "sole n m h \<Longrightarrow> m v = None \<Longrightarrow> h x = None \<Longrightarrow> v < n \<Longrightarrow> sole n (m(v \<mapsto> x)) (h(x \<mapsto> y))"
proof -
  assume "sole n m h" and v: "m v = None" and x: "h x = None" and "v < n"
  then have m: "dom m \<subseteq> {..<n}" "ran m = dom h" "inj_on m (dom m)" by (simp_all add: sole_def)
  have "m k \<noteq> Some x" for k using m(2) x by (auto dest: ranI)
  then have "inj_on (m(v \<mapsto> x)) (insert v (dom m))" using m(3) by (auto simp: inj_on_def)
  then show ?thesis using m v \<open>v < n\<close> by (simp add: sole_def)
qed

lemma slots_ok_insert: "slots_ok n m h \<Longrightarrow> m v = None \<Longrightarrow> v < n \<Longrightarrow> slots_ok n (m(v \<mapsto> x)) (h(x \<mapsto> y))"
  by (auto simp: slots_ok_def)

lemma database_created:
  assumes wf: "wf K w" and v: "blank v w" and d: "blank d w" and x: "d_references x = 1" "database_resources x = 1"
  shows "wf K (acquired (w\<lparr>databases := (databases w)(d \<mapsto> x), Database := (Database w)(v \<mapsto> d)\<rparr>))"
proof -
  let ?f = "acquired (w\<lparr>databases := (databases w)(d \<mapsto> x), Database := (Database w)(v \<mapsto> d)\<rparr>)"
  note v = v [unfolded blank_def] and d = d [unfolded blank_def]
  note fin = finite_slots [OF wf] finite_heaps [OF wf]
  have holders: "database_holders e ?f = database_holders e w + points e (Some d)" for e
    using msum_insert [OF fin(1), of v d "\<lambda>x. points e (Some x)"] v by (simp add: database_holders_def)
  have holders': "connection_holders a ?f = connection_holders a w" for a by (simp add: connection_holders_def)
  have zero: "database_holders d w = 0" using no_cell_no_holder(1) [OF wf] d by blast
  have "base ?f"
    using wf d by (auto simp: well_formed_def base_def heaps_below_def disjoint_owners_def)
  moreover have "slots_valid ?f"
    using wf v by (simp add: well_formed_def slots_valid_def slots_ok_insert)
  moreover have "counted None None ?f"
    using wf zero x(1) unfolding counted_def holders holders' well_formed_def by (auto simp: points_def)
  moreover have "linked K ?f"
    using wf by (auto simp: well_formed_def linked_def connection_ok_def request_ok_def)
  moreover have "slack ?f = 0"
    using wf msum_insert [OF fin(7), of d x database_resources] d x(2)
    by (simp add: well_formed_def slack_def resources_def acquired_def)
  moreover have "log_disciplined ?f" using wf by (simp add: well_formed_def log_disciplined_def)
  ultimately show ?thesis by (simp add: well_formed_def)
qed

lemma connection_created:
  assumes wf: "well_formed K (Some d) None 0 w" and v: "blank v w" and a: "blank a w" and d: "databases w d \<noteq> None"
  shows "wf K (acquired (w\<lparr>connections := (connections w)(a \<mapsto> connection_owner0\<lparr>c_references := 1, c_parent := d\<rparr>),
    Connection := (Connection w)(v \<mapsto> a)\<rparr>))"
proof -
  let ?c = "connection_owner0\<lparr>c_references := 1, c_parent := d\<rparr>"
  let ?f = "acquired (w\<lparr>connections := (connections w)(a \<mapsto> ?c), Connection := (Connection w)(v \<mapsto> a)\<rparr>)"
  note v = v [unfolded blank_def] and a = a [unfolded blank_def]
  note fin = finite_slots [OF wf] finite_heaps [OF wf]
  have holders: "connection_holders e ?f = connection_holders e w + points e (Some a)" for e
    using msum_insert [OF fin(2), of v a "\<lambda>x. points e (Some x)"] v by (simp add: connection_holders_def)
  have holders': "database_holders e ?f = database_holders e w + points e (Some d)" for e
    using msum_insert [OF fin(8), of a ?c "\<lambda>c. points e (Some (c_parent c))"] a by (simp add: database_holders_def)
  have zero: "connection_holders a w = 0" using no_cell_no_holder(2) [OF wf] a by blast
  have "base ?f"
    using wf a by (auto simp: well_formed_def base_def heaps_below_def disjoint_owners_def)
  moreover have "slots_valid ?f"
    using wf v by (simp add: well_formed_def slots_valid_def slots_ok_insert)
  moreover have "counted None None ?f"
    using wf zero unfolding counted_def holders holders' well_formed_def by (auto simp: points_def)
  moreover have "linked K ?f"
  proof -
    have "connection_ok a ?c ?f" using d by (simp add: connection_ok_def connection_owner0_def phase_of_def)
    moreover have "request_ok r q ?f" if "request_ok r q w" for r q
      using that a unfolding request_ok_def by (fastforce)
    ultimately show ?thesis using wf a by (auto simp: well_formed_def linked_def connection_ok_def)
  qed
  moreover have "slack ?f = 0"
    using wf msum_insert [OF fin(8), of a ?c connection_resources] a
    by (simp add: well_formed_def slack_def resources_def acquired_def) (simp add: connection_resources_def connection_owner0_def)
  moreover have "log_disciplined ?f" using wf by (simp add: well_formed_def log_disciplined_def)
  ultimately show ?thesis by (simp add: well_formed_def)
qed

lemma request_created:
  assumes wf: "wf K w" and v: "blank v w" and r: "blank r w"
  shows "wf K (acquired (w\<lparr>requests := (requests w)(r \<mapsto> native_request0), Native_request := (Native_request w)(v \<mapsto> r)\<rparr>))"
proof -
  let ?f = "acquired (w\<lparr>requests := (requests w)(r \<mapsto> native_request0), Native_request := (Native_request w)(v \<mapsto> r)\<rparr>)"
  note v = v [unfolded blank_def] and r = r [unfolded blank_def]
  note fin = finite_slots [OF wf] finite_heaps [OF wf]
  have holders: "connection_holders e ?f = connection_holders e w" for e
    using msum_insert [OF fin(9), of r native_request0 "\<lambda>q. points e (r_owner q)"] r
    by (simp add: connection_holders_def native_request0_def)
  have holders': "database_holders e ?f = database_holders e w" for e by (simp add: database_holders_def)
  have "base ?f"
    using wf r by (auto simp: well_formed_def base_def heaps_below_def disjoint_owners_def)
  moreover have "slots_valid ?f"
    using wf v r by (simp add: well_formed_def slots_valid_def sole_insert)
  moreover have "counted None None ?f"
    using wf unfolding counted_def holders holders' well_formed_def by auto
  moreover have "linked K ?f"
  proof -
    have "request_ok r native_request0 ?f" by (simp add: request_ok_def native_request0_def)
    then show ?thesis using wf r by (fastforce simp: well_formed_def linked_def connection_ok_def request_ok_def)
  qed
  moreover have "slack ?f = 0"
    using wf msum_insert [OF fin(9), of r native_request0 "\<lambda>_. 1"] r
    by (simp add: well_formed_def slack_def resources_def acquired_def)
  moreover have "log_disciplined ?f" using wf by (simp add: well_formed_def log_disciplined_def)
  ultimately show ?thesis by (simp add: well_formed_def)
qed

lemma prepared_created:
  assumes wf: "well_formed K None (Some a) 0 w" and v: "blank v w" and p: "blank p w" and a: "connections w a \<noteq> None"
  shows "wf K (acquired (w\<lparr>prepareds := (prepareds w)(p \<mapsto> prepared_owner0\<lparr>p_parent := a\<rparr>), Prepared := (Prepared w)(v \<mapsto> p)\<rparr>))"
proof -
  let ?p = "prepared_owner0\<lparr>p_parent := a\<rparr>"
  let ?f = "acquired (w\<lparr>prepareds := (prepareds w)(p \<mapsto> ?p), Prepared := (Prepared w)(v \<mapsto> p)\<rparr>)"
  note v = v [unfolded blank_def] and p = p [unfolded blank_def]
  note fin = finite_slots [OF wf] finite_heaps [OF wf]
  have holders: "connection_holders e ?f = connection_holders e w + points e (Some a)" for e
    using msum_insert [OF fin(10), of p ?p "\<lambda>x. points e (Some (p_parent x))"] p by (simp add: connection_holders_def)
  have holders': "database_holders e ?f = database_holders e w" for e by (simp add: database_holders_def)
  have "base ?f"
    using wf p by (auto simp: well_formed_def base_def heaps_below_def disjoint_owners_def)
  moreover have "slots_valid ?f"
    using wf v p by (simp add: well_formed_def slots_valid_def sole_insert)
  moreover have "counted None None ?f"
    using wf unfolding counted_def holders holders' well_formed_def by (auto simp: points_def)
  moreover have "linked K ?f"
  proof -
    have "cache_ok ?p" by (simp add: cache_ok_def prepared_owner0_def)
    then show ?thesis using wf a by (auto simp: well_formed_def linked_def connection_ok_def request_ok_def)
  qed
  moreover have "slack ?f = 0"
    using wf msum_insert [OF fin(10), of p ?p prepared_resources] p
    by (simp add: well_formed_def slack_def resources_def acquired_def) (simp add: prepared_resources_def prepared_owner0_def)
  moreover have "log_disciplined ?f" using wf by (simp add: well_formed_def log_disciplined_def)
  ultimately show ?thesis by (simp add: well_formed_def)
qed

lemma appender_created:
  assumes wf: "well_formed K None (Some a) 0 w" and v: "blank v w" and p: "blank p w" and a: "connections w a \<noteq> None"
    and K: "K (appender_owner0\<lparr>a_parent := a\<rparr>)"
  shows "wf K (acquired (w\<lparr>appenders := (appenders w)(p \<mapsto> appender_owner0\<lparr>a_parent := a\<rparr>), Appender := (Appender w)(v \<mapsto> p)\<rparr>))"
proof -
  let ?p = "appender_owner0\<lparr>a_parent := a\<rparr>"
  let ?f = "acquired (w\<lparr>appenders := (appenders w)(p \<mapsto> ?p), Appender := (Appender w)(v \<mapsto> p)\<rparr>)"
  note v = v [unfolded blank_def] and p = p [unfolded blank_def]
  note fin = finite_slots [OF wf] finite_heaps [OF wf]
  have holders: "connection_holders e ?f = connection_holders e w + points e (Some a)" for e
    using msum_insert [OF fin(11), of p ?p "\<lambda>x. points e (Some (a_parent x))"] p by (simp add: connection_holders_def)
  have holders': "database_holders e ?f = database_holders e w" for e by (simp add: database_holders_def)
  have "base ?f"
    using wf p by (auto simp: well_formed_def base_def heaps_below_def disjoint_owners_def)
  moreover have "slots_valid ?f"
    using wf v p by (simp add: well_formed_def slots_valid_def sole_insert)
  moreover have "counted None None ?f"
    using wf unfolding counted_def holders holders' well_formed_def by (auto simp: points_def)
  moreover have "linked K ?f" using wf a K by (auto simp: well_formed_def linked_def connection_ok_def request_ok_def)
  moreover have "slack ?f = 0"
    using wf msum_insert [OF fin(11), of p ?p appender_resources] p
    by (simp add: well_formed_def slack_def resources_def acquired_def) (simp add: appender_resources_def appender_owner0_def)
  moreover have "log_disciplined ?f" using wf by (simp add: well_formed_def log_disciplined_def)
  ultimately show ?thesis by (simp add: well_formed_def)
qed

lemma work_created:
  assumes wf: "wf K w" and v: "blank v w" and p: "blank p w"
  shows "wf K (acquired (w\<lparr>works := (works w)(p \<mapsto> file_work0), Work := (Work w)(v \<mapsto> p)\<rparr>))"
proof -
  let ?f = "acquired (w\<lparr>works := (works w)(p \<mapsto> file_work0), Work := (Work w)(v \<mapsto> p)\<rparr>)"
  note v = v [unfolded blank_def] and p = p [unfolded blank_def]
  note fin = finite_slots [OF wf] finite_heaps [OF wf]
  have holders: "connection_holders e ?f = connection_holders e w" for e
    using msum_insert [OF fin(12), of p file_work0 "\<lambda>x. points e (f_parent x)"] p
    by (simp add: connection_holders_def file_work0_def points_def)
  have holders': "database_holders e ?f = database_holders e w" for e by (simp add: database_holders_def)
  have "base ?f"
    using wf p by (auto simp: well_formed_def base_def heaps_below_def disjoint_owners_def)
  moreover have "slots_valid ?f"
    using wf v p by (simp add: well_formed_def slots_valid_def sole_insert)
  moreover have "counted None None ?f"
    using wf unfolding counted_def holders holders' well_formed_def by (auto simp: points_def)
  moreover have "linked K ?f" using wf by (auto simp: well_formed_def linked_def connection_ok_def request_ok_def file_work0_def)
  moreover have "slack ?f = 0"
    using wf msum_insert [OF fin(12), of p file_work0 work_resources] p
    by (simp add: well_formed_def slack_def resources_def acquired_def) (simp add: work_resources_def file_work0_def)
  moreover have "log_disciplined ?f" using wf by (simp add: well_formed_def log_disciplined_def)
  ultimately show ?thesis by (simp add: well_formed_def)
qed

subsection \<open>The stubs that create\<close>

lemma runs_allocating:
  assumes "wf K w" and "\<And>w1. wf K w1 \<Longrightarrow> w_next w1 \<ge> w_next w \<Longrightarrow> P (Out_of_memory, w1)"
    and "\<And>v d w1. wf K w1 \<Longrightarrow> blank v w1 \<Longrightarrow> blank d w1 \<Longrightarrow> databases w1 = databases w \<Longrightarrow> connections w1 = connections w \<Longrightarrow>
      Database w1 = Database w \<Longrightarrow> Connection w1 = Connection w \<Longrightarrow> runs (g v d w1) P"
  shows "runs (case fresh w of (v, w) \<Rightarrow> case malloc_fails w of (fails, w) \<Rightarrow>
      if fails then Inr (Out_of_memory, w) else case fresh w of (d, w) \<Rightarrow> g v d w) P"
proof -
  obtain v w1 where f: "fresh w = (v, w1)" by (meson surj_pair)
  obtain fails w2 where m: "malloc_fails w1 = (fails, w2)" by (meson surj_pair)
  obtain d w3 where f2: "fresh w2 = (d, w3)" by (meson surj_pair)
  have "v = w_next w" using f by (simp add: fresh_def)
  then show ?thesis
    using allocated(3) [OF assms(1) f m f2] assms(2) [OF allocated(1) [OF assms(1) f m]] allocated(2) [OF assms(1) f m]
      assms(3) [of w3 v d]
    by (simp add: f m f2)
qed

lemma ml_duckdb_database_owner_wf:
  assumes "wf K w"
  shows "runs (ml_duckdb_database_owner w) (\<lambda>(r, w'). wf K w')"
  unfolding ml_duckdb_database_owner_def
  by (rule runs_allocating [OF assms], simp, simp (no_asm) only: runs_simps prod.case, rule database_created)
    (simp_all add: database_owner0_def database_resources_def)

lemma ml_duckdb_native_request_create_wf:
  assumes "wf K w"
  shows "runs (ml_duckdb_native_request_create w) (\<lambda>(r, w'). wf K w')"
  unfolding ml_duckdb_native_request_create_def
  by (rule runs_allocating [OF assms], simp, simp only: runs_simps prod.case, rule request_created) simp_all

lemma ml_duckdb_connection_owner_wf:
  assumes "wf K w" and "Database w v = Some d"
  shows "runs (ml_duckdb_connection_owner v w) (\<lambda>(r, w'). wf K w')"
proof -
  obtain x where x: "databases w d = Some x" using slot_target(1) [OF assms] by blast
  show ?thesis
    unfolding ml_duckdb_connection_owner_def
  proof (rule runs_allocating [OF assms(1)])
    fix v' a w1
    assume w1: "wf K w1" "blank v' w1" "blank a w1" "databases w1 = databases w" "Database w1 = Database w"
    let ?w = "put_database d (x\<lparr>d_references := d_references x + 1\<rparr>) w1"
    have x1: "databases w1 d = Some x" using w1(4) x by simp
    note created = connection_created [OF database_referenced [OF w1(1) x1] blank_put(1) [OF w1(2) x1] blank_put(1) [OF w1(3) x1]]
    show "runs (bind (deref (Database w1) v) (\<lambda>d. bind (on_database d (\<lambda>db. db\<lparr>d_references := d_references db + 1\<rparr>) w1) (\<lambda>w.
        Inr (Returned v', acquired (w\<lparr>connections := (connections w)(a \<mapsto> connection_owner0\<lparr>c_references := 1, c_parent := d\<rparr>),
          Connection := (Connection w)(v' \<mapsto> a)\<rparr>))))) (\<lambda>(r, w'). wf K w')"
      using created assms(2) x1 w1(5)
      by (simp add: on_database_def)
  qed simp
qed

lemma ml_duckdb_prepared_owner_wf:
  assumes "wf K w" and "Connection w v = Some a"
  shows "runs (ml_duckdb_prepared_owner v w) (\<lambda>(r, w'). wf K w')"
proof -
  obtain c where c: "connections w a = Some c" using slot_target(2) [OF assms] by blast
  let ?c = "c\<lparr>c_references := c_references c + 1\<rparr>"
  show ?thesis
    unfolding ml_duckdb_prepared_owner_def
  proof (rule runs_allocating [OF assms(1)])
    fix v' p w1
    assume w1: "wf K w1" "blank v' w1" "blank p w1" "connections w1 = connections w" "Connection w1 = Connection w"
    have c1: "connections w1 a = Some c" using w1(4) c by simp
    note created = prepared_created [OF connection_referenced [OF w1(1) c1] blank_put(2) [OF w1(2) c1] blank_put(2) [OF w1(3) c1]]
    show "runs (bind (duckdb_ml_connection_ref v w1) (\<lambda>(a, w).
        Inr (Returned v', acquired (w\<lparr>prepareds := (prepareds w)(p \<mapsto> prepared_owner0\<lparr>p_parent := a\<rparr>),
          Prepared := (Prepared w)(v' \<mapsto> p)\<rparr>)))) (\<lambda>(r, w'). wf K w')"
      using created assms(2) c1 w1(5) by (simp add: duckdb_ml_connection_ref_def on_connection_def)
  qed simp
qed

lemma ml_duckdb_appender_owner_wf:
  assumes "wf K w" and "Connection w v = Some a" and "K (appender_owner0\<lparr>a_parent := a\<rparr>)"
  shows "runs (ml_duckdb_appender_owner v w) (\<lambda>(r, w'). wf K w')"
proof -
  obtain c where c: "connections w a = Some c" using slot_target(2) [OF assms(1,2)] by blast
  let ?c = "c\<lparr>c_references := c_references c + 1\<rparr>"
  show ?thesis
    unfolding ml_duckdb_appender_owner_def
  proof (rule runs_allocating [OF assms(1)])
    fix v' p w1
    assume w1: "wf K w1" "blank v' w1" "blank p w1" "connections w1 = connections w" "Connection w1 = Connection w"
    have c1: "connections w1 a = Some c" using w1(4) c by simp
    note created = appender_created [OF connection_referenced [OF w1(1) c1] blank_put(2) [OF w1(2) c1] blank_put(2) [OF w1(3) c1] _ assms(3)]
    show "runs (bind (duckdb_ml_connection_ref v w1) (\<lambda>(a, w).
        Inr (Returned v', acquired (w\<lparr>appenders := (appenders w)(p \<mapsto> appender_owner0\<lparr>a_parent := a\<rparr>),
          Appender := (Appender w)(v' \<mapsto> p)\<rparr>)))) (\<lambda>(r, w'). wf K w')"
      using created assms(2) c1 w1(5) by (simp add: duckdb_ml_connection_ref_def on_connection_def)
  qed simp
qed

lemma ml_duckdb_local_file_work_wf:
  assumes "wf K w"
  shows "runs (ml_duckdb_local_file_work w) (\<lambda>(r, w'). wf K w')"
  unfolding ml_duckdb_local_file_work_def
  by (rule runs_allocating [OF assms], simp, simp only: runs_simps prod.case, rule work_created) simp_all

end
