(* ===== verification/Requests_Safety.thy ===== *)
theory Requests_Safety
  imports Creation
begin

text \<open>
  Requests on a connection whose guard is free: the effect of each operation in closed form,
  and the global invariant through the life of a request. Installing turns a reference of
  the connection into the request's; uninstalling gives it back.
\<close>

subsection \<open>Closed forms on an unlocked connection\<close>

definition interruptible_now :: "nat \<Rightarrow> duckdb_ml_native_request \<Rightarrow> connection_owner \<Rightarrow> bool" where
  "interruptible_now r q c \<longleftrightarrow> c_active_request c = Some r \<and> r_cancelled q \<and>
     c_native_phase c = DUCKDB_ML_NATIVE_USER \<and> \<not> c_native_closing c \<and> c_connection c \<noteq> None"

text \<open>The guard is taken and dropped: the connection is as it was.\<close>

lemma guard_dropped:
  assumes "\<not> c_native_guard c"
  shows "c\<lparr>c_native_guard := False\<rparr> = c"
    and "c\<lparr>c_references := y, c_active_request := z, c_native_guard := False\<rparr> = c\<lparr>c_references := y, c_active_request := z\<rparr>"
    and "c\<lparr>c_active_request := z, c_native_guard := False\<rparr> = c\<lparr>c_active_request := z\<rparr>"
  using assms by (cases c; simp)+

lemma unlocked_again:
  assumes "connections w a = Some c" and "\<not> c_native_guard c"
  shows "(connections w)(a \<mapsto> c\<lparr>c_native_guard := False\<rparr>) = connections w"
  using assms by (simp add: guard_dropped fun_upd_idem)

lemmas request_guard_defs = duckdb_ml_native_try_lock_def duckdb_ml_native_unlock_def native_request_eligible_def
  on_connection_def on_request_def

lemma try_interrupt_unlocked:
  assumes "Native_request w v = Some r" and "requests w r = Some q" and "r_owner q = Some a" and "connections w a = Some c"
    and "\<not> c_native_guard c"
  shows "ml_duckdb_native_request_try_interrupt S v w =
    Inr (if \<not> r_reserved q then (REQUEST_NOT_RESERVED, w)
         else if interruptible_now r q c
         then (REQUEST_DELIVERED, w\<lparr>w_engine := duckdb_interrupt S (c_connection c) (w_engine w),
                 w_log := Engine a DUCKDB_ML_NATIVE_USER Interrupt # w_log w\<rparr>)
         else (REQUEST_SKIPPED, w))"
  using assms unlocked_again [OF assms(4,5)]
  by (auto simp: ml_duckdb_native_request_try_interrupt_def request_guard_defs interruptible_now_def call_def)

lemma reserve_delivery_unlocked:
  assumes "Native_request w v = Some r" and "requests w r = Some q" and "r_owner q = Some a" and "connections w a = Some c"
    and "\<not> c_native_guard c"
  shows "ml_duckdb_native_request_reserve_delivery v w =
    Inr (if r_reserved q then (REQUEST_RESERVATION_PENDING, w)
         else if interruptible_now r q c then (REQUEST_RESERVED, put_request r (q\<lparr>r_reserved := True\<rparr>) w)
         else (REQUEST_INELIGIBLE, w))"
  using assms unlocked_again [OF assms(4,5)]
  by (auto simp: ml_duckdb_native_request_reserve_delivery_def request_guard_defs interruptible_now_def)

lemma install_unlocked:
  assumes "Native_request w v = Some r" and "requests w r = Some q" and "Connection w x = Some a" and "connections w a = Some c"
    and "\<not> c_native_guard c"
  shows "ml_duckdb_native_request_install x v w =
    Inr (if r_state q \<noteq> DUCKDB_ML_REQUEST_FRESH then (REQUEST_USED, w)
         else if c_native_closing c then (REQUEST_CONNECTION_CLOSED, w)
         else if c_foreign_active c \<or> c_cleanup_depth c \<noteq> 0 then (REQUEST_CONNECTION_ACTIVE, w)
         else if c_connection c = None then (REQUEST_CONNECTION_CLOSED, w)
         else if c_active_request c \<noteq> None then (REQUEST_CONNECTION_LEASED, w)
         else (REQUEST_INSTALLED,
           put_request r (q\<lparr>r_owner := Some a, r_state := DUCKDB_ML_REQUEST_INSTALLED\<rparr>)
             (put_connection a (c\<lparr>c_references := c_references c + 1, c_active_request := Some r\<rparr>) w)))"
  using assms unlocked_again [OF assms(4,5)]
  by (auto simp: ml_duckdb_native_request_install_def request_guard_defs guard_dropped(2) [OF assms(5)])

lemma uninstall_unlocked:
  assumes "requests w r = Some q" and "r_state q = DUCKDB_ML_REQUEST_INSTALLED"
    and "r_owner q = Some a" and "connections w a = Some c" and "c_active_request c = Some r" and "\<not> c_native_guard c"
  shows "native_request_uninstall S T (Some r) w =
    (if c_foreign_active c \<or> c_cleanup_depth c \<noteq> 0 then Inr (REQUEST_NATIVE_WORK_PENDING, w)
     else if r_reserved q then Inr (REQUEST_DELIVERY_PENDING, w)
     else bind (connection_delete S T (Some a)
            (put_connection a (c\<lparr>c_active_request := None\<rparr>)
              (put_request r (q\<lparr>r_owner := None, r_state := DUCKDB_ML_REQUEST_DETACHED\<rparr>) w))) (\<lambda>w. Inr (REQUEST_UNINSTALLED, w)))"
  using assms unlocked_again [OF assms(4,6)]
  by (auto simp: native_request_uninstall_def request_guard_defs guard_dropped(3) [OF assms(6)])

subsection \<open>Changes of a request that keep its links\<close>

lemma holders_put_request:
  assumes "well_formed K ed ea k w" and "requests w r = Some q"
  shows "connection_holders a (put_request r q' w) + points a (r_owner q) = connection_holders a w + points a (r_owner q')"
    and "database_holders d (put_request r q' w) = database_holders d w"
  using msum_update [OF finite_heaps(3) [OF assms(1)] assms(2), of q' "\<lambda>q. points a (r_owner q)"]
  by (simp_all add: connection_holders_def database_holders_def)

lemma slack_put_request:
  assumes "well_formed K ed ea k w" and "requests w r = Some q"
  shows "slack (put_request r q' w) = k"
  using assms msum_update_same [OF finite_heaps(3) [OF assms(1)] assms(2), of "\<lambda>_. 1"]
  by (simp add: well_formed_def slack_def resources_def)

lemma request_flagged:
  assumes wf: "well_formed K ed ea k w" and q: "requests w r = Some q" and same: "r_owner q' = r_owner q" "r_state q' = r_state q"
  shows "well_formed K ed ea k (put_request r q' w)"
proof -
  let ?w = "put_request r q' w"
  have "base ?w" using wf q by (auto simp: well_formed_def base_def heaps_below_def disjoint_owners_def)
  moreover have "slots_valid ?w" using wf q by (auto simp: well_formed_def slots_valid_def slots_ok_def sole_def)
  moreover have "counted ed ea ?w"
    using wf holders_put_request [OF wf q, of _ q'] same by (simp add: well_formed_def counted_def)
  moreover have "linked K ?w"
  proof -
    have l: "linked K w" using wf by (simp add: well_formed_def)
    then have "request_ok r q' w" using q same by (auto simp: linked_def request_ok_def)
    moreover have "request_ok s y ?w = request_ok s y w" for s y by (simp add: request_ok_def)
    moreover have "connection_ok a c ?w" if "connection_ok a c w" for a c
      using that q same(1) by (auto simp: connection_ok_def)
    ultimately show ?thesis using l by (auto simp: linked_def)
  qed
  ultimately show ?thesis
    using wf slack_put_request [OF wf q, of q'] by (simp add: well_formed_def log_disciplined_def)
qed

subsection \<open>Linking and unlinking\<close>

lemma request_linked:
  assumes wf: "well_formed K ed (Some a) k w" and q: "requests w r = Some q" "r_owner q = None"
    and c: "connections w a = Some c" "c_active_request c = None"
  shows "well_formed K ed None k (put_request r (q\<lparr>r_owner := Some a, r_state := DUCKDB_ML_REQUEST_INSTALLED\<rparr>)
    (put_connection a (c\<lparr>c_active_request := Some r\<rparr>) w))"
proof -
  let ?q = "q\<lparr>r_owner := Some a, r_state := DUCKDB_ML_REQUEST_INSTALLED\<rparr>" and ?c = "c\<lparr>c_active_request := Some r\<rparr>"
  let ?w = "put_request r ?q (put_connection a ?c w)"
  have b: "heaps_below w" using wf by (simp add: well_formed_def base_def)
  have holders: "connection_holders e ?w = connection_holders e w + points e (Some a)" "database_holders d ?w = database_holders d w" for e d
    using msum_update [OF finite_heaps(3) [OF wf] q(1), of ?q "\<lambda>q. points e (r_owner q)"] q(2)
      holders_put_references(2) [OF b c(1), of ?c d]
    by (simp_all add: connection_holders_def database_holders_def)
  have "base ?w" using wf q c by (auto simp: well_formed_def base_def heaps_below_def disjoint_owners_def)
  moreover have "slots_valid ?w" using wf q c by (auto simp: well_formed_def slots_valid_def slots_ok_def sole_def)
  moreover have "counted ed None ?w"
    using wf c unfolding counted_def holders well_formed_def by (auto simp: points_def split: if_splits)
  moreover have "linked K ?w"
  proof -
    have l: "linked K w" using wf by (simp add: well_formed_def)
    have free: "r_owner q' \<noteq> Some a" if "requests w s = Some q'" for s q'
      using link_target(2) [OF wf that, of a] c by auto
    have unowned: "c_active_request c' \<noteq> Some r" if "connections w e = Some c'" for e c'
      using link_target(6) [OF wf that, of r] q by auto
    have "connection_ok e c' ?w" if c': "connections ?w e = Some c'" for e c'
    proof (cases "e = a")
      case True
      have "connection_ok a c w" and "phase_of ?c = phase_of c" using l c by (simp_all add: linked_def phase_of_def)
      moreover have c'_is: "c' = ?c" using True c' by simp
      ultimately show ?thesis unfolding True c'_is by (auto simp: connection_ok_def)
    next
      case False
      then have "connection_ok e c' w" using l c' by (simp add: linked_def)
      then show ?thesis using False c' unowned [of e c'] by (auto simp: connection_ok_def)
    qed
    moreover have "request_ok s q' ?w" if "requests ?w s = Some q'" for s q'
      using l that free [of s] by (auto simp: linked_def request_ok_def split: if_splits)
    ultimately show ?thesis using l c by (auto simp: linked_def)
  qed
  moreover have "slack ?w = k"
  proof -
    have "slack (put_connection a ?c w) = k"
      using slack_put(2) [OF b c(1), of ?c] wf by (simp add: connection_resources_def well_formed_def)
    then show ?thesis
      using msum_update_same [OF finite_heaps(3) [OF wf] q(1), of "\<lambda>_. 1"] by (simp add: slack_def resources_def)
  qed
  ultimately show ?thesis using wf by (simp add: well_formed_def log_disciplined_def)
qed

lemma request_unlinked:
  assumes wf: "well_formed K ed None k w" and q: "requests w r = Some q" "r_owner q = Some a" and c: "connections w a = Some c"
  shows "well_formed K ed (Some a) k (put_connection a (c\<lparr>c_active_request := None\<rparr>)
    (put_request r (q\<lparr>r_owner := None, r_state := DUCKDB_ML_REQUEST_DETACHED\<rparr>) w))"
proof -
  let ?q = "q\<lparr>r_owner := None, r_state := DUCKDB_ML_REQUEST_DETACHED\<rparr>" and ?c = "c\<lparr>c_active_request := None\<rparr>"
  let ?w = "put_connection a ?c (put_request r ?q w)"
  have b: "heaps_below w" using wf by (simp add: well_formed_def base_def)
  have active: "c_active_request c = Some r"
    using link_target(2) [OF wf q] c by simp
  have holders: "connection_holders e ?w + points e (Some a) = connection_holders e w" "database_holders d ?w = database_holders d w" for e d
    using msum_update [OF finite_heaps(3) [OF wf] q(1), of ?q "\<lambda>q. points e (r_owner q)"] q(2)
      holders_put_references(2) [OF b c, of ?c d]
    by (simp_all add: connection_holders_def database_holders_def)
  have "base ?w" using wf q c by (auto simp: well_formed_def base_def heaps_below_def disjoint_owners_def)
  moreover have "slots_valid ?w" using wf q c by (auto simp: well_formed_def slots_valid_def slots_ok_def sole_def)
  moreover have "counted ed (Some a) ?w"
  proof -
    have old: "connection_holders e w = connection_holders e ?w + points e (Some a)" for e by (rule holders(1) [symmetric])
    have "counted ed None w" using wf by (simp add: well_formed_def)
    then show ?thesis
      using c unfolding counted_def holders(2) old by (auto simp: points_def split: if_splits)
  qed
  moreover have "linked K ?w"
  proof -
    have l: "linked K w" using wf by (simp add: well_formed_def)
    have only: "s = r" if "requests w s = Some q'" "r_owner q' = Some a" for s q'
      using link_target(2) [OF wf that] c active by auto
    have mine: "e = a" if "connections w e = Some c'" "c_active_request c' = Some r" for e c'
      using link_target(6) [OF wf that(1)] that(2) q by auto
    have "connection_ok e c' ?w" if c': "connections ?w e = Some c'" for e c'
    proof (cases "e = a")
      case True
      have "connection_ok a c w" and "phase_of ?c = phase_of c" using l c by (simp_all add: linked_def phase_of_def)
      moreover have c'_is: "c' = ?c" using True c' by simp
      ultimately show ?thesis unfolding True c'_is by (auto simp: connection_ok_def)
    next
      case False
      then have "connection_ok e c' w" using l c' by (simp add: linked_def)
      then show ?thesis using False c' mine [of e c'] by (auto simp: connection_ok_def)
    qed
    moreover have "request_ok s q' ?w" if "requests ?w s = Some q'" for s q'
      using l that only [of s] by (auto simp: linked_def request_ok_def split: if_splits)
    ultimately show ?thesis using l c by (auto simp: linked_def)
  qed
  moreover have "slack ?w = k"
  proof -
    have "slack (put_connection a ?c w) = k"
      using slack_put(2) [OF b c, of ?c] wf by (simp add: connection_resources_def well_formed_def)
    then show ?thesis
      using msum_update_same [OF finite_heaps(3) [OF wf] q(1), of "\<lambda>_. 1"] by (simp add: slack_def resources_def)
  qed
  ultimately show ?thesis using wf by (simp add: well_formed_def log_disciplined_def)
qed

end
