(* ===== verification/Guard_Properties.thy ===== *)
theory Guard_Properties
  imports Samples Requests_Safety
begin

text \<open>
  What the guard gives the controller of a request: the phase it reads, the latch it sets,
  the reservation protocol of a delivery, and the exact effect of installing, uninstalling
  and interrupting.
\<close>

subsection \<open>Sequences of guarded operations\<close>

lemma put_connection_same: "connections w a = Some c \<Longrightarrow> put_connection a c w = w"
  by (simp add: fun_upd_idem)

lemma latched_same:
  "requests w' = requests w \<Longrightarrow> latched r w' = latched r w"
  by (cases r) (simp_all add: latched_def)

lemma guarded_run_append: "guarded_run a (ops @ ops') w = bind (guarded_run a ops w) (guarded_run a ops')"
  by (induction ops arbitrary: w) (auto simp: bind_assoc intro!: bind_cong)

text \<open>A run of guarded operations changes the native flags of one connection only.\<close>

lemma guarded_run_unlocked:
  assumes "unlocked a w c" and "guarded_run a ops w = Inr w'"
  shows "\<exists>c'. w' = put_connection a c' w \<and> unlocked a w' c' \<and> c_active_request c' = c_active_request c"
  using assms
proof (induction ops arbitrary: w c)
  case Nil
  then have "put_connection a c w = w" by (intro put_connection_same) (simp add: unlocked_def)
  then show ?case using Nil by (metis guarded_run.simps(1) sum.inject(2))
next
  case (Cons op ops)
  obtain w1 where w1: "guarded_step a op w = Inr w1" "guarded_run a ops w1 = Inr w'"
    using Cons.prems(2) by (auto simp: bind_Inr_iff)
  obtain c1 where c1: "w1 = put_connection a c1 w" "unlocked a w1 c1" "c_active_request c1 = c_active_request c"
    using guarded_step_phase [OF Cons.prems(1), of op] w1(1) by auto
  obtain c' where c': "w' = put_connection a c' w1" "unlocked a w' c'" "c_active_request c' = c_active_request c1"
    using Cons.IH [OF c1(2) w1(2)] by blast
  have "w' = put_connection a c' w" using c'(1) c1(1) by simp
  then show ?case using c'(2,3) c1(3) by metis
qed

text \<open>
  C11: a controller reads the phase \<open>USER\<close> exactly while an interruptible call of a connection
  with an installed, uncancelled request is open: after any sequence of guarded operations,
  the phase is \<open>USER\<close> if and only if the last of them admitted such a call.
\<close>

theorem user_phase_is_admitted_call:
  assumes "unlocked a w c" and "guarded_run a (ops @ [op]) w = Inr w'"
  shows "\<exists>c'. connections w' a = Some c' \<and> (c_native_phase c' = DUCKDB_ML_NATIVE_USER \<longleftrightarrow>
    op = Call_begin True \<and> c_active_request c \<noteq> None \<and> latched (c_active_request c) w = Inr False)"
proof -
  obtain w1 where w1: "guarded_run a ops w = Inr w1" "guarded_step a op w1 = Inr w'"
    using assms(2) by (auto simp: guarded_run_append bind_Inr_iff)
  obtain c1 where c1: "w1 = put_connection a c1 w" "unlocked a w1 c1" "c_active_request c1 = c_active_request c"
    using guarded_run_unlocked [OF assms(1) w1(1)] by auto
  have "latched r w1 = latched r w" for r by (rule latched_same) (simp add: c1(1))
  then show ?thesis using guarded_step_phase [OF c1(2), of op] w1(2) c1(3) by (auto simp: unlocked_def)
qed

text \<open>
  C12: the cancellation latch is final. Once the installed request is cancelled, no later call
  of the connection is admitted, interruptible or not, whatever guarded operations come in
  between.
\<close>

theorem cancelled_never_admitted:
  assumes "unlocked a w c" and "c_active_request c = Some r" and "requests w r = Some q" and "r_cancelled q"
    and "guarded_run a ops w = Inr w'" and "native_call_begin a i w' = Inr (admission, w'')"
  shows "admission = DUCKDB_ML_CALL_CANCELLED \<and> requests w'' = requests w"
proof -
  obtain c' where c': "w' = put_connection a c' w" "unlocked a w' c'" "c_active_request c' = c_active_request c"
    using guarded_run_unlocked [OF assms(1,5)] by auto
  have "connections w' a = Some c'" "\<not> c_native_guard c'" using c'(2) by (auto simp: unlocked_def)
  then show ?thesis
    using assms(2-4,6) c'(1,3) call_begin_eq [of w' a c' i]
    by (auto simp: latched_def split: if_splits)
qed

subsection \<open>Delivery\<close>

text \<open>
  C13: a delivery interrupts the engine at most once, on the connection of the request, and
  only when the delivery is reserved and the connection is inside an admitted interruptible
  call of this very request; in every other case, a guard held by the worker included,
  nothing changes.
\<close>

theorem try_interrupt_effect:
  assumes "Native_request w v = Some r" and "requests w r = Some q" and "r_owner q = Some a" and "connections w a = Some c"
  shows "ml_duckdb_native_request_try_interrupt S v w =
    Inr (if \<not> r_reserved q then (REQUEST_NOT_RESERVED, w)
         else if \<not> c_native_guard c \<and> interruptible_now r q c
         then (REQUEST_DELIVERED, w\<lparr>w_engine := duckdb_interrupt S (c_connection c) (w_engine w),
                 w_log := Engine a DUCKDB_ML_NATIVE_USER Interrupt # w_log w\<rparr>)
         else (REQUEST_SKIPPED, w))"
proof (cases "c_native_guard c")
  case True
  then show ?thesis using assms by (simp add: ml_duckdb_native_request_try_interrupt_def duckdb_ml_native_try_lock_def)
next
  case False
  then show ?thesis by (simp add: try_interrupt_unlocked [OF assms])
qed

text \<open>
  C14: a reservation is granted only for a cancelled request inside its own admitted call, is
  exclusive, and changes nothing but the reservation flag.
\<close>

theorem reserve_delivery_effect:
  assumes "Native_request w v = Some r" and "requests w r = Some q" and "r_owner q = Some a" and "connections w a = Some c"
  shows "ml_duckdb_native_request_reserve_delivery v w =
    Inr (if c_native_guard c then (REQUEST_INELIGIBLE, w)
         else if r_reserved q then (REQUEST_RESERVATION_PENDING, w)
         else if interruptible_now r q c then (REQUEST_RESERVED, put_request r (q\<lparr>r_reserved := True\<rparr>) w)
         else (REQUEST_INELIGIBLE, w))"
proof (cases "c_native_guard c")
  case True
  then show ?thesis using assms by (simp add: ml_duckdb_native_request_reserve_delivery_def duckdb_ml_native_try_lock_def)
next
  case False
  then show ?thesis by (simp add: reserve_delivery_unlocked [OF assms])
qed

subsection \<open>Installing and uninstalling\<close>

text \<open>
  C15: installing a request answers with the first obstacle in the order used request, held
  guard, closing connection, active work, no engine connection, leased connection, and then
  changes nothing; with none, the connection gets the request and one more reference, the
  request its owner.
\<close>

theorem install_effect:
  assumes "Native_request w v = Some r" and "requests w r = Some q"
    and "Connection w x = Some a" and "connections w a = Some c"
  shows "ml_duckdb_native_request_install x v w =
    Inr (if r_state q \<noteq> DUCKDB_ML_REQUEST_FRESH then (REQUEST_USED, w)
         else if c_native_guard c then (REQUEST_INSTALL_CONTENDED, w)
         else if c_native_closing c then (REQUEST_CONNECTION_CLOSED, w)
         else if c_foreign_active c \<or> c_cleanup_depth c \<noteq> 0 then (REQUEST_CONNECTION_ACTIVE, w)
         else if c_connection c = None then (REQUEST_CONNECTION_CLOSED, w)
         else if c_active_request c \<noteq> None then (REQUEST_CONNECTION_LEASED, w)
         else (REQUEST_INSTALLED,
           put_request r (q\<lparr>r_owner := Some a, r_state := DUCKDB_ML_REQUEST_INSTALLED\<rparr>)
             (put_connection a (c\<lparr>c_references := c_references c + 1, c_active_request := Some r\<rparr>) w)))"
proof (cases "c_native_guard c")
  case True
  then show ?thesis using assms by (simp add: ml_duckdb_native_request_install_def duckdb_ml_native_try_lock_def)
next
  case False
  then show ?thesis by (simp add: install_unlocked [OF assms])
qed

text \<open>
  C16: uninstalling refuses while native work or a delivery is pending, or the guard is held,
  and then changes nothing; otherwise it detaches request and connection and gives up the
  request's reference.
\<close>

theorem uninstall_effect:
  assumes "Native_request w v = Some r" and "requests w r = Some q" and "r_state q = DUCKDB_ML_REQUEST_INSTALLED"
    and "r_owner q = Some a" and "connections w a = Some c" and "c_active_request c = Some r"
  shows "ml_duckdb_native_request_uninstall S T v w =
    (if c_native_guard c then Inr (REQUEST_UNINSTALL_CONTENDED, w)
     else if c_foreign_active c \<or> c_cleanup_depth c \<noteq> 0 then Inr (REQUEST_NATIVE_WORK_PENDING, w)
     else if r_reserved q then Inr (REQUEST_DELIVERY_PENDING, w)
     else bind (connection_delete S T (Some a)
            (put_connection a (c\<lparr>c_active_request := None\<rparr>)
              (put_request r (q\<lparr>r_owner := None, r_state := DUCKDB_ML_REQUEST_DETACHED\<rparr>) w))) (\<lambda>w. Inr (REQUEST_UNINSTALLED, w)))"
proof (cases "c_native_guard c")
  case True
  then show ?thesis using assms by (simp add: ml_duckdb_native_request_uninstall_def duckdb_ml_native_try_lock_def native_request_uninstall_def)
next
  case False
  then show ?thesis by (simp add: ml_duckdb_native_request_uninstall_def assms(1) uninstall_unlocked [OF assms(2-)])
qed

subsection \<open>Instances\<close>

lemma sample_unlocked: "unlocked 3 (sample_world b) sample_connection"
  by (simp add: unlocked_def sample_defs)

text \<open>A work bracket with an interruptible call and a nested cleanup, on the sample connection.\<close>

definition sample_bracket :: "guarded list" where
  "sample_bracket = [Work_begin, Call_begin True, Call_end, Cleanup_begin DUCKDB_ML_RUNTIME_RELEASED,
     Cleanup_end DUCKDB_ML_RUNTIME_RELEASED, Work_end]"


lemma user_phase_witness:
  "\<exists>w' c'. guarded_run 3 [Work_begin, Call_begin True] (sample_world False) = Inr w' \<and> connections w' 3 = Some c' \<and>
     c_native_phase c' = DUCKDB_ML_NATIVE_USER"
proof -
  obtain w' where w': "guarded_run 3 ([Work_begin] @ [Call_begin True]) (sample_world False) = Inr w'"
    by (simp add: guarded_run_append guard_defs latched_def sample_defs)
  from user_phase_is_admitted_call [OF sample_unlocked w'] w'
  show ?thesis by (auto simp: latched_def sample_defs)
qed

lemma cancelled_never_admitted_witness:
  "\<exists>w' w''. guarded_run 3 [Work_begin] (sample_world True) = Inr w' \<and>
     native_call_begin 3 True w' = Inr (DUCKDB_ML_CALL_CANCELLED, w'')"
proof -
  obtain w' where w': "guarded_run 3 [Work_begin] (sample_world True) = Inr w'"
    and w'': "\<exists>x. native_call_begin 3 True w' = Inr x"
    by (simp add: guard_defs latched_def sample_defs)
  then obtain admission w'' where "native_call_begin 3 True w' = Inr (admission, w'')" by auto
  with cancelled_never_admitted [OF sample_unlocked _ _ _ w' this, of 4 "sample_request True"] w'
  show ?thesis by (simp add: sample_defs)
qed

text \<open>The sample world during an admitted call of a cancelled request with a reserved delivery.\<close>

definition sample_call :: "bool \<Rightarrow> nat world" where
  "sample_call reserved = (let w = sample_world True in
     put_request 4 ((sample_request True)\<lparr>r_reserved := reserved\<rparr>)
       (put_connection 3 (sample_connection\<lparr>c_foreign_active := True, c_native_phase := DUCKDB_ML_NATIVE_USER\<rparr>) w))"

lemma sample_call_simps:
  "Native_request (sample_call b) 12 = Some 4"
  "requests (sample_call b) 4 = Some ((sample_request True)\<lparr>r_reserved := b\<rparr>)"
  "connections (sample_call b) 3 = Some (sample_connection\<lparr>c_foreign_active := True, c_native_phase := DUCKDB_ML_NATIVE_USER\<rparr>)"
  by (simp_all add: sample_call_def Let_def sample_world_def)

lemma try_interrupt_witness:
  "\<exists>w'. ml_duckdb_native_request_try_interrupt sample_session 12 (sample_call True) = Inr (REQUEST_DELIVERED, w')"
  using try_interrupt_effect [of "sample_call True" 12 4 "(sample_request True)\<lparr>r_reserved := True\<rparr>" 3
      "sample_connection\<lparr>c_foreign_active := True, c_native_phase := DUCKDB_ML_NATIVE_USER\<rparr>" sample_session]
  by (simp add: sample_call_simps) (simp add: sample_request_def sample_connection_def connection_owner0_def interruptible_now_def)

lemma reserve_delivery_witness:
  "ml_duckdb_native_request_reserve_delivery 12 (sample_call False) =
     Inr (REQUEST_RESERVED, put_request 4 ((sample_request True)\<lparr>r_reserved := True\<rparr>) (sample_call False))"
  using reserve_delivery_effect [of "sample_call False" 12 4 "(sample_request True)\<lparr>r_reserved := False\<rparr>" 3
      "sample_connection\<lparr>c_foreign_active := True, c_native_phase := DUCKDB_ML_NATIVE_USER\<rparr>"]
  by (simp add: sample_call_simps) (simp add: sample_request_def sample_connection_def connection_owner0_def interruptible_now_def)

lemma install_witness:
  "ml_duckdb_native_request_install 11 12 (sample_world False) = Inr (REQUEST_USED, sample_world False)"
  using install_effect [of "sample_world False" 12 4 "sample_request False" 11 3 sample_connection]
  by (simp add: sample_world_def) (simp add: sample_request_def)

lemma uninstall_witness:
  "ml_duckdb_native_request_uninstall sample_session sample_statements 12 (sample_call True) =
     Inr (REQUEST_NATIVE_WORK_PENDING, sample_call True)"
  using uninstall_effect [of "sample_call True" 12 4 "(sample_request True)\<lparr>r_reserved := True\<rparr>" 3
      "sample_connection\<lparr>c_foreign_active := True, c_native_phase := DUCKDB_ML_NATIVE_USER\<rparr>" sample_session sample_statements]
  by (simp add: sample_call_simps) (simp add: sample_request_def sample_connection_def connection_owner0_def)

end
