(* ===== verification/View_Properties.thy ===== *)
theory View_Properties
  imports Samples
begin

text \<open>
  The views read what the chunk holds. \<open>visible\<close> is the column a view call addresses, if any;
  \<open>value_at\<close> and \<open>row_valid\<close> read the mapped memory the way the engine lays a vector out: little
  endian elements, one validity bit per row. Under \<open>view_ok\<close>, the state a fetch leaves, no
  view faults whatever its arguments, and its answer is the specified one.
\<close>

subsection \<open>What a chunk holds\<close>

definition bytes_at :: "(nat \<Rightarrow> 8 word option) \<Rightarrow> nat \<Rightarrow> nat \<Rightarrow> 8 word list" where
  "bytes_at m addr n = map (\<lambda>k. the (m (addr + k))) [0..<n]"

definition value_at :: "(nat \<Rightarrow> 8 word option) \<Rightarrow> duckdb_ml_vector \<Rightarrow> nat \<Rightarrow> 'a::len word" where
  "value_at m x i = le_word (bytes_at m (v_data x + i * (LENGTH('a) div 8)) (LENGTH('a) div 8))"

definition row_valid :: "(nat \<Rightarrow> 8 word option) \<Rightarrow> duckdb_ml_vector \<Rightarrow> nat \<Rightarrow> bool" where
  "row_valid m x i = (case v_validity x of None \<Rightarrow> True
     | Some base \<Rightarrow> bit (the (m (base + i div 8))) (i mod 8))"

text \<open>The memory behind a cached column is mapped for all rows of the chunk.\<close>

definition backed :: "(nat \<Rightarrow> 8 word option) \<Rightarrow> nat \<Rightarrow> duckdb_ml_vector \<Rightarrow> bool" where
  "backed m rows x \<longleftrightarrow> readable_range m (v_data x) (rows * v_width x) \<and>
     (\<forall>base. v_validity x = Some base \<longrightarrow> readable_range m base (8 * ((rows + 63) div 64)))"

definition view_ok :: "'e chunk_api \<Rightarrow> nat \<Rightarrow> 'e world \<Rightarrow> bool" where
  "view_ok C v w \<longleftrightarrow> (\<forall>p. Prepared w v = Some p \<longrightarrow> (\<exists>pr. prepareds w p = Some pr \<and>
     (p_chunk pr \<noteq> None \<and> p_vector_count pr \<noteq> 0 \<longrightarrow> (\<exists>vs. p_vectors pr = Some vs \<and> length vs = p_vector_count pr \<and>
        (\<forall>x\<in>set vs. backed (mapped C (w_engine w)) (p_chunk_rows pr) x)))))"

definition visible :: "nat \<Rightarrow> int \<Rightarrow> 'e world \<Rightarrow> (duckdb_ml_vector \<times> nat) option" where
  "visible v c w = Option.bind (Prepared w v) (\<lambda>p. Option.bind (prepareds w p) (\<lambda>pr.
     if p_chunk pr \<noteq> None \<and> 0 \<le> c \<and> nat c < p_vector_count pr
     then map_option (\<lambda>vs. (vs ! nat c, p_chunk_rows pr)) (p_vectors pr) else None))"

lemma load_bytes_at: "readable_range m addr n \<Longrightarrow> load m addr n = Inr (bytes_at m addr n)"
  by (auto simp: load_Inr_iff readable_range_def bytes_at_def)

lemma length_bytes_at [simp]: "length (bytes_at m addr n) = n"
  by (simp add: bytes_at_def)

lemma nth_bytes_at [simp]: "k < n \<Longrightarrow> bytes_at m addr n ! k = the (m (addr + k))"
  by (simp add: bytes_at_def)

lemma cached_visible:
  assumes "view_ok C v w"
  shows "cached v c w = Inr (visible v c w)"
    and "visible v c w = Some (x, rows) \<Longrightarrow> backed (mapped C (w_engine w)) rows x"
proof -
  have "cached v c w = Inr (visible v c w) \<and>
    (\<forall>x rows. visible v c w = Some (x, rows) \<longrightarrow> backed (mapped C (w_engine w)) rows x)"
  proof (cases "Prepared w v")
    case None
    then show ?thesis by (simp add: cached_def view_owner_def visible_def)
  next
    case (Some p)
    with assms obtain pr where pr: "prepareds w p = Some pr" and
      vs: "p_chunk pr \<noteq> None \<and> p_vector_count pr \<noteq> 0 \<longrightarrow> (\<exists>vs. p_vectors pr = Some vs \<and> length vs = p_vector_count pr \<and>
        (\<forall>x\<in>set vs. backed (mapped C (w_engine w)) (p_chunk_rows pr) x))"
      by (auto simp: view_ok_def)
    show ?thesis
    proof (cases "p_chunk pr \<noteq> None \<and> 0 \<le> c \<and> nat c < p_vector_count pr")
      case True
      with vs obtain vs where "p_vectors pr = Some vs" "length vs = p_vector_count pr"
        "\<forall>x\<in>set vs. backed (mapped C (w_engine w)) (p_chunk_rows pr) x" by auto
      with True Some pr show ?thesis by (auto simp: cached_def view_owner_def visible_def)
    next
      case False
      with Some pr show ?thesis by (auto simp: cached_def view_owner_def visible_def)
    qed
  qed
  then show "cached v c w = Inr (visible v c w)"
    and "visible v c w = Some (x, rows) \<Longrightarrow> backed (mapped C (w_engine w)) rows x" by auto
qed

lemma mask_word_eq:
  assumes "backed (mapped C (w_engine w)) rows x" and "v_validity x = Some base" and "k * 64 < rows"
  shows "mask_word C base w k = Inr (le_word (bytes_at (mapped C (w_engine w)) (base + 8 * k) 8))"
proof -
  have "Suc k \<le> (rows + 63) div 64" using assms(3) by (simp add: less_eq_div_iff_mult_less_eq)
  then have "8 * k + 8 \<le> 8 * ((rows + 63) div 64)" by simp
  then have "readable_range (mapped C (w_engine w)) (base + 8 * k) 8"
    using assms(1,2) readable_range_mono [of _ base _ "8 * k" 8] by (auto simp: backed_def)
  then show ?thesis by (simp add: mask_word_def load_bytes_at)
qed

lemma bit_mask_word:
  assumes "v_validity x = Some base"
  shows "bit (le_word (bytes_at m (base + 8 * (i div 64)) 8) :: 64 word) (i mod 64) = row_valid m x i"
proof -
  have split: "i mod 64 = 8 * (i div 8 mod 8) + i mod 8" and div: "i div 64 = i div 8 div 8"
    using mod_mult2_eq [of i 8 8] div_mult2_eq [of i 8 8] by simp_all
  have "i mod 64 div 8 = i div 8 mod 8" and "i mod 64 mod 8 = i mod 8"
    unfolding split by (simp_all add: div_add1_eq)
  moreover have "8 * (i div 64) + i div 8 mod 8 = i div 8"
    using mult_div_mod_eq [of 8 "i div 8"] unfolding div .
  ultimately show ?thesis
    using assms by (simp add: bit_le_word row_valid_def add.assoc)
qed

lemma valid_row_eq:
  assumes "backed (mapped C (w_engine w)) rows x" and "i < rows"
  shows "valid_row C x i w = Inr (row_valid (mapped C (w_engine w)) x i)"
proof (cases "v_validity x")
  case None
  then show ?thesis by (simp add: valid_row_def row_valid_def)
next
  case (Some base)
  have "i div 64 * 64 < rows" using assms(2) by linarith
  from mask_word_eq [OF assms(1) Some this]
  show ?thesis
    using Some bit_mask_word [OF Some, of "mapped C (w_engine w)" i]
    by (simp add: valid_row_def and_one_eq bit_iff_odd_drop_bit odd_iff_mod_2_eq_one)
qed

lemma element_eq:
  fixes w :: "'e world"
  assumes "backed (mapped C (w_engine w)) rows x" and "i < rows" and "v_width x = LENGTH('a) div 8"
  shows "element C x i w = Inr (value_at (mapped C (w_engine w)) x i :: 'a::len word)"
proof -
  have "i * v_width x + v_width x \<le> rows * v_width x"
    using assms(2) mult_le_mono1 [of "Suc i" rows "v_width x"] by simp
  then have "readable_range (mapped C (w_engine w)) (v_data x + i * v_width x) (v_width x)"
    using assms(1) by (intro readable_range_mono) (auto simp: backed_def)
  then show ?thesis using assms(3) by (simp add: element_def value_at_def load_bytes_at)
qed

subsection \<open>Scalar reads\<close>

text \<open>The element a scalar view shows, at the width of its type, and whether its row is NULL.\<close>

definition shown :: "'e chunk_api \<Rightarrow> nat \<Rightarrow> int \<Rightarrow> int \<Rightarrow> 'e world \<Rightarrow> 'a::len word option" where
  "shown C v c i w = (case visible v c w of None \<Rightarrow> None
     | Some (x, rows) \<Rightarrow> if 0 \<le> i \<and> nat i < rows \<and> v_width x = LENGTH('a) div 8
         then Some (value_at (mapped C (w_engine w)) x (nat i)) else None)"

definition row_is_null :: "'e chunk_api \<Rightarrow> nat \<Rightarrow> int \<Rightarrow> int \<Rightarrow> 'e world \<Rightarrow> bool" where
  "row_is_null C v c i w = (case visible v c w of None \<Rightarrow> False
     | Some (x, rows) \<Rightarrow> 0 \<le> i \<and> nat i < rows \<and> \<not> row_valid (mapped C (w_engine w)) x (nat i))"

lemma read_T_shown:
  assumes "view_ok C v w"
  shows "read_T C v c i w = Inr (case shown C v c i w of Some y \<Rightarrow> y | None \<Rightarrow> (0 :: 'a::len word))"
proof (cases "visible v c w")
  case None
  then show ?thesis by (simp add: read_T_def readable_def cached_visible [OF assms] shown_def)
next
  case (Some h)
  obtain x rows where h: "h = (x, rows)" by (cases h)
  note backed = cached_visible(2) [OF assms, of c x rows]
  show ?thesis
    using Some h element_eq [where 'a = 'a, OF backed, of "nat i"]
    by (auto simp: read_T_def readable_def cached_visible(1) [OF assms] shown_def)
qed

lemma read_T_or_shown:
  assumes "view_ok C v w"
  shows "read_T_or C v c i d w = Inr (case shown C v c i w of
    Some y \<Rightarrow> if row_is_null C v c i w then d else y | None \<Rightarrow> (d :: 'a::len word))"
proof (cases "visible v c w")
  case None
  then show ?thesis by (simp add: read_T_or_def readable_def cached_visible [OF assms] shown_def)
next
  case (Some h)
  obtain x rows where h: "h = (x, rows)" by (cases h)
  note backed = cached_visible(2) [OF assms, of c x rows]
  show ?thesis
    using Some h element_eq [where 'a = 'a, OF backed, of "nat i"] valid_row_eq [OF backed, of "nat i"]
    by (auto simp: read_T_or_def readable_def cached_visible(1) [OF assms] shown_def row_is_null_def)
qed

lemmas scalar_view_defs =
  ml_duckdb_view_int64_def ml_duckdb_view_int32_def ml_duckdb_view_double_def ml_duckdb_view_float_def
  ml_duckdb_view_int16_def ml_duckdb_view_int8_def ml_duckdb_view_bool_def
  ml_duckdb_view_int64_or_def ml_duckdb_view_int32_or_def ml_duckdb_view_double_or_def ml_duckdb_view_float_or_def
  ml_duckdb_view_int16_or_def ml_duckdb_view_int8_or_def ml_duckdb_view_bool_or_def

text \<open>
  C17: a scalar view returns the addressed element of the chunk, sign-extended for the small
  integers, and 0 when the column, the row or the element width does not match; it never
  reads outside the chunk.
\<close>

theorem view_reads:
  assumes "view_ok C v w"
  shows "ml_duckdb_view_int64 C v c i w = Inr (case shown C v c i w of Some y \<Rightarrow> y | None \<Rightarrow> 0) \<and>
    ml_duckdb_view_int32 C v c i w = Inr (case shown C v c i w of Some y \<Rightarrow> y | None \<Rightarrow> 0) \<and>
    ml_duckdb_view_double C v c i w = Inr (case shown C v c i w of Some y \<Rightarrow> y | None \<Rightarrow> 0) \<and>
    ml_duckdb_view_float C v c i w = Inr (case shown C v c i w of Some y \<Rightarrow> y | None \<Rightarrow> 0) \<and>
    ml_duckdb_view_int16 C v c i w = Inr (case shown C v c i w of Some y \<Rightarrow> sint (y :: 16 word) | None \<Rightarrow> 0) \<and>
    ml_duckdb_view_int8 C v c i w = Inr (case shown C v c i w of Some y \<Rightarrow> sint (y :: 8 word) | None \<Rightarrow> 0) \<and>
    ml_duckdb_view_bool C v c i w = Inr (case shown C v c i w of Some y \<Rightarrow> (y :: 8 word) \<noteq> 0 | None \<Rightarrow> False)"
  by (auto simp: scalar_view_defs read_T_shown [OF assms] split: option.splits)

text \<open>
  C18: the defaulting views return the element of a valid row, and the caller's default for a
  NULL row as for an address outside the chunk; the small integers truncate the default to
  their width.
\<close>

theorem view_reads_or_default:
  assumes "view_ok C v w"
  shows "ml_duckdb_view_int64_or C v c i d64 w =
      Inr (case shown C v c i w of Some y \<Rightarrow> if row_is_null C v c i w then d64 else y | None \<Rightarrow> d64) \<and>
    ml_duckdb_view_int32_or C v c i d32 w =
      Inr (case shown C v c i w of Some y \<Rightarrow> if row_is_null C v c i w then d32 else y | None \<Rightarrow> d32) \<and>
    ml_duckdb_view_double_or C v c i d64 w =
      Inr (case shown C v c i w of Some y \<Rightarrow> if row_is_null C v c i w then d64 else y | None \<Rightarrow> d64) \<and>
    ml_duckdb_view_float_or C v c i d32 w =
      Inr (case shown C v c i w of Some y \<Rightarrow> if row_is_null C v c i w then d32 else y | None \<Rightarrow> d32) \<and>
    ml_duckdb_view_int16_or C v c i n w = Inr (case shown C v c i w of
      Some y \<Rightarrow> if row_is_null C v c i w then signed_take_bit 15 n else sint (y :: 16 word) | None \<Rightarrow> signed_take_bit 15 n) \<and>
    ml_duckdb_view_int8_or C v c i n w = Inr (case shown C v c i w of
      Some y \<Rightarrow> if row_is_null C v c i w then signed_take_bit 7 n else sint (y :: 8 word) | None \<Rightarrow> signed_take_bit 7 n) \<and>
    ml_duckdb_view_bool_or C v c i b w = Inr (case shown C v c i w of
      Some y \<Rightarrow> if row_is_null C v c i w then b else (y :: 8 word) \<noteq> 0 | None \<Rightarrow> b)"
  by (auto simp: scalar_view_defs read_T_or_shown [OF assms] sint_sbintrunc' split: option.splits)

subsection \<open>Scans\<close>

lemma popcountll_card: "popcountll x = card {j. j < 64 \<and> bit x j}"
proof -
  have "popcountll x = card (set (filter (bit x) [0..<64]))"
    unfolding popcountll_def by (rule distinct_card [symmetric]) simp
  also have "set (filter (bit x) [0..<64]) = {j. j < 64 \<and> bit x j}" by auto
  finally show ?thesis .
qed

lemma bit_wanted_bits: "bit (wanted_bits rest) j \<longleftrightarrow> j < 64 \<and> j < rest"
proof (cases "rest < 64")
  case True
  then have "wanted_bits rest = mask rest" by (simp add: wanted_bits_def mask_eq_decr_exp push_bit_of_1)
  then show ?thesis using True by (auto simp: bit_mask_iff)
qed (auto simp: wanted_bits_def bit_minus_1_iff)

text \<open>The rows of one mask word that are NULL among the first \<open>n\<close>.\<close>

definition missing :: "(nat \<Rightarrow> 64 word) \<Rightarrow> nat \<Rightarrow> nat \<Rightarrow> 64 word" where
  "missing W n k = NOT (W k) AND wanted_bits (n - k * 64)"

lemma bit_missing:
  "bit (missing W n k) j \<longleftrightarrow> j < 64 \<and> k * 64 + j < n \<and> \<not> bit (W ((k * 64 + j) div 64)) ((k * 64 + j) mod 64)"
  by (auto simp: missing_def bit_and_iff bit_not_iff bit_wanted_bits)

definition nulls :: "(nat \<Rightarrow> 64 word) \<Rightarrow> nat \<Rightarrow> nat set" where
  "nulls W n = {i. i < n \<and> \<not> bit (W (i div 64)) (i mod 64)}"

lemma in_word: "k * 64 \<le> i \<Longrightarrow> i < 64 + k * 64 \<Longrightarrow> i div 64 = k \<and> i mod 64 = i - k * 64"
  for i k :: nat
proof -
  assume "k * 64 \<le> i" and "i < 64 + k * 64"
  then obtain j where "i = k * 64 + j" and "j < 64" using le_Suc_ex by fastforce
  then show ?thesis by simp
qed

lemma popcountll_missing: "popcountll (missing W n k) = card {i \<in> nulls W n. k * 64 \<le> i \<and> i < Suc k * 64}"
proof -
  have "bij_betw (\<lambda>j. k * 64 + j) {j. j < 64 \<and> bit (missing W n k) j} {i \<in> nulls W n. k * 64 \<le> i \<and> i < Suc k * 64}"
    by (rule bij_betw_byWitness [where f' = "\<lambda>i. i - k * 64"]) (auto simp: bit_missing nulls_def dest: in_word)
  from bij_betw_same_card [OF this] show ?thesis by (simp only: popcountll_card)
qed

lemma finite_nulls [simp]: "finite (nulls W n)"
  by (rule finite_subset [of _ "{..<n}"]) (auto simp: nulls_def)

lemma null_count_loop_counts:
  assumes "\<And>k. k * 64 < n \<Longrightarrow> validity k = Inr (W k)"
  shows "null_count_loop validity n k count = Inr (count + card {i \<in> nulls W n. k * 64 \<le> i})"
  using assms
proof (induction validity n k count rule: null_count_loop.induct)
  case (1 validity n k count)
  show ?case
  proof (cases "k * 64 < n")
    case True
    have "{i \<in> nulls W n. k * 64 \<le> i} = {i \<in> nulls W n. k * 64 \<le> i \<and> i < Suc k * 64} \<union> {i \<in> nulls W n. Suc k * 64 \<le> i}"
      by auto
    then have "card {i \<in> nulls W n. k * 64 \<le> i} =
        popcountll (missing W n k) + card {i \<in> nulls W n. Suc k * 64 \<le> i}"
      unfolding popcountll_missing by (subst card_Un_disjoint [symmetric]) auto
    moreover have "null_count_loop validity n (Suc k) (count + popcountll (missing W n k)) =
        Inr (count + popcountll (missing W n k) + card {i \<in> nulls W n. Suc k * 64 \<le> i})"
      using "1.IH" [OF True "1.prems" [OF True]] "1.prems" by (simp add: missing_def)
    ultimately show ?thesis
      using True "1.prems" [OF True] by (simp add: null_count_loop.simps [of validity n k count] missing_def)
  next
    case False
    then have "{i \<in> nulls W n. k * 64 \<le> i} = {}" by (auto simp: nulls_def)
    then show ?thesis using False by (simp add: null_count_loop.simps [of validity n k count])
  qed
qed

lemma ctzll_Least:
  assumes "bit x j"
  shows "ctzll x < 64" and "bit x (ctzll x)" and "\<And>i. i < ctzll x \<Longrightarrow> \<not> bit x i"
proof -
  have j: "j < 64" using assms bit_imp_le_length by fastforce
  let ?xs = "filter (bit x) [0..<64]"
  have "?xs \<noteq> []" using assms j by (auto simp: filter_empty_conv)
  then obtain y ys where xs: "?xs = y # ys" by (cases ?xs) auto
  then have y: "ctzll x = y" by (simp add: ctzll_def)
  have "y \<in> set ?xs" by (simp add: xs)
  then show "ctzll x < 64" and "bit x (ctzll x)" by (auto simp: y)
  have sorted: "sorted_wrt (<) (y # ys)"
    using sorted_wrt_filter [of "(<)" "[0..<64]" "bit x"] by (simp add: xs)
  show "\<not> bit x i" if "i < ctzll x" for i
  proof
    assume "bit x i"
    then have "i \<in> set ?xs" using that \<open>ctzll x < 64\<close> by simp
    then have "i = y \<or> y < i" using sorted by (auto simp: xs)
    then show False using that y by simp
  qed
qed

text \<open>The least element of a set, \<open>-1\<close> for the empty one.\<close>

definition first_of :: "nat set \<Rightarrow> int" where
  "first_of X = (if X = {} then - 1 else int (Min X))"

lemma first_null_loop_finds:
  assumes "\<And>k. k * 64 < n \<Longrightarrow> validity k = Inr (W k)" and "\<And>i. i \<in> nulls W n \<Longrightarrow> k * 64 \<le> i"
  shows "first_null_loop validity n k = Inr (first_of (nulls W n))"
  using assms
proof (induction validity n k rule: first_null_loop.induct)
  case (1 validity n k)
  show ?case
  proof (cases "k * 64 < n")
    case True
    note word = "1.prems"(1) [OF True]
    show ?thesis
    proof (cases "missing W n k = 0")
      case none: True
      have "Suc k * 64 \<le> i" if "i \<in> nulls W n" for i
      proof (rule ccontr)
        assume "\<not> Suc k * 64 \<le> i"
        then have "bit (missing W n k) (i - k * 64)"
          using that "1.prems"(2) [OF that] in_word [of k i] by (auto simp: bit_missing nulls_def)
        then show False using none by simp
      qed
      then have "first_null_loop validity n (Suc k) = Inr (first_of (nulls W n))"
        using "1.IH" [OF True word refl] none "1.prems"(1) by (simp add: missing_def)
      then show ?thesis
        using True word none by (simp add: first_null_loop.simps [of validity n k] missing_def)
    next
      case some: False
      then obtain j where "bit (missing W n k) j" using bit_eqI [of "missing W n k" 0] by auto
      note least = ctzll_Least [OF this]
      let ?i = "k * 64 + ctzll (missing W n k)"
      have i: "?i \<in> nulls W n" using least(1,2) by (auto simp: bit_missing nulls_def)
      have "?i \<le> i'" if "i' \<in> nulls W n" for i'
      proof (rule ccontr)
        assume less: "\<not> ?i \<le> i'"
        with "1.prems"(2) [OF that] have "bit (missing W n k) (i' - k * 64)"
          using that in_word [of k i'] least(1) by (auto simp: bit_missing nulls_def)
        then show False using least(3) [of "i' - k * 64"] less "1.prems"(2) [OF that] by simp
      qed
      then have "Min (nulls W n) = ?i" using i by (intro Min_eqI) auto
      then have "first_of (nulls W n) = int ?i" using i by (auto simp: first_of_def)
      then show ?thesis
        using True word some by (simp add: first_null_loop.simps [of validity n k] missing_def Let_def)
    qed
  next
    case False
    then have "nulls W n = {}" using "1.prems"(2) by (force simp: nulls_def)
    then show ?thesis using False by (simp add: first_null_loop.simps [of validity n k] first_of_def)
  qed
qed

text \<open>The NULL rows of a column among the first \<open>n\<close>, cut at the chunk's rows.\<close>

definition null_rows :: "'e chunk_api \<Rightarrow> nat \<Rightarrow> int \<Rightarrow> int \<Rightarrow> 'e world \<Rightarrow> nat set" where
  "null_rows C v c n w = (case visible v c w of None \<Rightarrow> {}
     | Some (x, rows) \<Rightarrow> {i. int i < n \<and> i < rows \<and> \<not> row_valid (mapped C (w_engine w)) x i})"

lemma nulls_of_mask:
  assumes "v_validity x = Some base"
  shows "nulls (\<lambda>k. le_word (bytes_at m (base + 8 * k) 8)) (clamp_rows n rows) =
    {i. int i < n \<and> i < rows \<and> \<not> row_valid m x i}"
  by (auto simp: nulls_def bit_mask_word [OF assms] clamp_rows_def)

text \<open>
  C19: \<open>null_count\<close> is the number of NULL rows among the first \<open>n\<close> of the chunk, computed a
  mask word at a time; a negative or oversized \<open>n\<close> is clamped.
\<close>

theorem view_null_count_counts:
  assumes "view_ok C v w"
  shows "ml_duckdb_view_null_count C v c n w = Inr (card (null_rows C v c n w))"
proof (cases "visible v c w")
  case None
  then show ?thesis by (simp add: ml_duckdb_view_null_count_def cached_visible [OF assms] null_rows_def)
next
  case (Some h)
  obtain x rows where h: "h = (x, rows)" by (cases h)
  note backed = cached_visible(2) [OF assms, of c x rows]
  show ?thesis
  proof (cases "v_validity x")
    case None
    then show ?thesis
      using Some h by (simp add: ml_duckdb_view_null_count_def cached_visible(1) [OF assms] null_rows_def row_valid_def)
  next
    case base: (Some base)
    have "mask_word C base w k = Inr (le_word (bytes_at (mapped C (w_engine w)) (base + 8 * k) 8))"
      if "k * 64 < clamp_rows n rows" for k
      using that Some h by (intro mask_word_eq [OF backed base]) (auto simp: clamp_rows_def split: if_splits)
    note loop = null_count_loop_counts [of "clamp_rows n rows" "mask_word C base w", OF this]
    from loop [of 0 0] show ?thesis
      using Some h base
      by (simp add: ml_duckdb_view_null_count_def cached_visible(1) [OF assms] null_rows_def nulls_of_mask [OF base])
  qed
qed

text \<open>
  C20: \<open>first_null\<close> is the least NULL row among the first \<open>n\<close> of the chunk, or -1 when there
  is none.
\<close>

theorem view_first_null_finds:
  assumes "view_ok C v w"
  shows "ml_duckdb_view_first_null C v c n w = Inr (first_of (null_rows C v c n w))"
proof (cases "visible v c w")
  case None
  then show ?thesis by (simp add: ml_duckdb_view_first_null_def cached_visible [OF assms] null_rows_def first_of_def)
next
  case (Some h)
  obtain x rows where h: "h = (x, rows)" by (cases h)
  note backed = cached_visible(2) [OF assms, of c x rows]
  show ?thesis
  proof (cases "v_validity x")
    case None
    then show ?thesis
      using Some h by (simp add: ml_duckdb_view_first_null_def cached_visible(1) [OF assms] null_rows_def row_valid_def first_of_def)
  next
    case base: (Some base)
    have "mask_word C base w k = Inr (le_word (bytes_at (mapped C (w_engine w)) (base + 8 * k) 8))"
      if "k * 64 < clamp_rows n rows" for k
      using that Some h by (intro mask_word_eq [OF backed base]) (auto simp: clamp_rows_def split: if_splits)
    from first_null_loop_finds [of "clamp_rows n rows" "mask_word C base w", OF this]
    show ?thesis
      using Some h base
      by (simp add: ml_duckdb_view_first_null_def cached_visible(1) [OF assms] null_rows_def nulls_of_mask [OF base])
  qed
qed

subsection \<open>Blits\<close>

text \<open>A one-dimensional bigarray whose payload has the size its dimension and kind say.\<close>

definition array1 :: "caml_ba_array \<Rightarrow> bool" where
  "array1 b \<longleftrightarrow> (\<exists>d. ba_dim b = [d] \<and> length (ba_bytes b) = d * caml_ba_element_size (ba_kind b))"

definition blit_accepts :: "nat \<Rightarrow> int \<Rightarrow> int \<Rightarrow> caml_ba_array \<Rightarrow> int \<Rightarrow> 'e world \<Rightarrow> bool" where
  "blit_accepts v c n b at' w = (case visible v c w of None \<Rightarrow> False
     | Some (x, rows) \<Rightarrow> 0 \<le> n \<and> n \<le> int rows \<and> 0 \<le> at' \<and> at' + n \<le> int (hd (ba_dim b)) \<and> hd (ba_dim b) \<noteq> 0 \<and>
         v_width x \<noteq> 0 \<and> v_width x = caml_ba_element_size (ba_kind b))"

lemma element_size_array1:
  assumes "array1 b"
  shows "element_size b = (if hd (ba_dim b) = 0 then 0 else caml_ba_element_size (ba_kind b))"
  using assms by (auto simp: array1_def element_size_def caml_ba_byte_size_def caml_ba_num_elts_def Let_def)

text \<open>Byte \<open>j\<close> of the payload after the rows have been copied and the NULL ones zeroed.\<close>

definition blit_byte :: "(nat \<Rightarrow> 8 word option) \<Rightarrow> duckdb_ml_vector \<Rightarrow> nat \<Rightarrow> nat \<Rightarrow> nat \<Rightarrow> 8 word" where
  "blit_byte m x width start j = (let i = (j - start) div width in
     if row_valid m x i then the (m (v_data x + (j - start))) else 0)"

lemma overwrite_Inr:
  "k + length src \<le> length dst \<Longrightarrow> overwrite k src dst = Inr (take k dst @ src @ drop (k + length src) dst)"
  by (simp add: overwrite_def)

lemma zero_invalid_zeroes:
  assumes "\<And>i. i \<in> set is \<Longrightarrow> valid i = Inr (V i)" and "\<And>i. i \<in> set is \<Longrightarrow> out + i * width + width \<le> length bytes"
    and "0 < width"
  shows "\<exists>bs. zero_invalid valid out width is bytes = Inr bs \<and> length bs = length bytes \<and>
    (\<forall>j<length bytes. bs ! j = (if out \<le> j \<and> (j - out) div width \<in> set is \<and> \<not> V ((j - out) div width) then 0 else bytes ! j))"
  using assms(1,2)
proof (induction "is" arbitrary: bytes)
  case Nil
  then show ?case by simp
next
  case (Cons i "is")
  have fits: "out + i * width + length (replicate width 0) \<le> length bytes" using Cons.prems(2) [of i] by simp
  define bytes1 where "bytes1 = (if V i then bytes else take (out + i * width) bytes @ replicate width 0 @ drop (out + i * width + width) bytes)"
  have len: "length bytes1 = length bytes" using fits by (auto simp: bytes1_def)
  have block: "out + i * width \<le> j \<and> j < out + i * width + width \<longleftrightarrow> out \<le> j \<and> (j - out) div width = i" for j
  proof
    assume a: "out + i * width \<le> j \<and> j < out + i * width + width"
    then obtain r where "j = out + i * width + r" and "r < width" using le_Suc_ex [of "out + i * width" j] by auto
    then show "out \<le> j \<and> (j - out) div width = i" using assms(3) by simp
  next
    assume a: "out \<le> j \<and> (j - out) div width = i"
    then have "i * width + (j - out) mod width = j - out" by (metis div_mult_mod_eq)
    moreover have "(j - out) mod width < width" using assms(3) by simp
    ultimately show "out + i * width \<le> j \<and> j < out + i * width + width" using a by linarith
  qed
  have nth: "bytes1 ! j = (if out \<le> j \<and> (j - out) div width = i \<and> \<not> V i then 0 else bytes ! j)" if "j < length bytes" for j
    using that fits block [of j] by (auto simp: bytes1_def nth_append min_def)
  have step: "zero_invalid valid out width (i # is) bytes = zero_invalid valid out width is bytes1"
    using Cons.prems(1) [of i] overwrite_Inr [OF fits] by (simp add: bytes1_def)
  have "\<exists>bs. zero_invalid valid out width is bytes1 = Inr bs \<and> length bs = length bytes1 \<and>
    (\<forall>j<length bytes1. bs ! j = (if out \<le> j \<and> (j - out) div width \<in> set is \<and> \<not> V ((j - out) div width) then 0 else bytes1 ! j))"
    by (rule Cons.IH) (use Cons.prems len in auto)
  then show ?case unfolding step len using nth by auto
qed

text \<open>The rows copied into the payload, before the NULL ones are zeroed.\<close>

definition copied_byte :: "(nat \<Rightarrow> 8 word option) \<Rightarrow> duckdb_ml_vector \<Rightarrow> nat \<Rightarrow> nat \<Rightarrow> 8 word" where
  "copied_byte m x start j = the (m (v_data x + (j - start)))"

lemma rows_copied:
  assumes "start + len \<le> length dst"
  shows "\<exists>copied. overwrite start (bytes_at m (v_data x) len) dst = Inr copied \<and> length copied = length dst \<and>
    (\<forall>j<length dst. copied ! j = (if start \<le> j \<and> j < start + len then copied_byte m x start j else dst ! j))"
proof -
  have "overwrite start (bytes_at m (v_data x) len) dst = Inr (take start dst @ bytes_at m (v_data x) len @ drop (start + len) dst)"
    using overwrite_Inr [of start "bytes_at m (v_data x) len" dst] assms by simp
  then show ?thesis
    using assms by (auto simp: nth_append min_def copied_byte_def)
qed

lemma rows_zeroed:
  assumes "backed (mapped C (w_engine w)) rows x" and "n \<le> rows" and "0 < width" and "start + n * width \<le> length bytes"
    and "\<And>j. j < length bytes \<Longrightarrow> start \<le> j \<Longrightarrow> j < start + n * width \<Longrightarrow> bytes ! j = copied_byte (mapped C (w_engine w)) x start j"
  shows "\<exists>bs. (if v_validity x \<noteq> None then zero_invalid (\<lambda>i. valid_row C x i w) start width [0..<n] bytes else Inr bytes) = Inr bs \<and>
    length bs = length bytes \<and> (\<forall>j<length bytes. bs ! j =
      (if start \<le> j \<and> j < start + n * width then blit_byte (mapped C (w_engine w)) x width start j else bytes ! j))"
proof (cases "v_validity x")
  case None
  then show ?thesis using assms(5) by (auto simp: blit_byte_def row_valid_def copied_byte_def)
next
  case (Some base)
  have within: "start \<le> j \<Longrightarrow> (j - start) div width < n \<longleftrightarrow> j < start + n * width" for j
    using assms(3) by (auto simp: div_less_iff_less_mult)
  have "\<exists>bs. zero_invalid (\<lambda>i. valid_row C x i w) start width [0..<n] bytes = Inr bs \<and> length bs = length bytes \<and>
      (\<forall>j<length bytes. bs ! j = (if start \<le> j \<and> (j - start) div width \<in> set [0..<n] \<and>
         \<not> row_valid (mapped C (w_engine w)) x ((j - start) div width) then 0 else bytes ! j))"
  proof (rule zero_invalid_zeroes)
    fix i
    assume "i \<in> set [0..<n]"
    then have i: "i < n" by simp
    then show "valid_row C x i w = Inr (row_valid (mapped C (w_engine w)) x i)"
      using assms(2) by (intro valid_row_eq [OF assms(1)]) simp
    show "start + i * width + width \<le> length bytes" using i assms(4) mult_le_mono1 [of "Suc i" n width] by simp
  qed (rule assms(3))
  then show ?thesis
    using Some assms(5) by (auto simp: blit_byte_def copied_byte_def Let_def within)
qed

text \<open>
  C21: a blit copies the first \<open>n\<close> rows of a column into the bigarray at \<open>at'\<close>, NULL rows as
  zeroes, and touches nothing else; when the rows, the element size or the destination range
  do not fit, it leaves the bigarray as it is. No byte outside the chunk or the bigarray is
  accessed.
\<close>

theorem view_blit_copies:
  assumes "view_ok C v w" and "array1 b"
  shows "\<exists>bytes. ml_duckdb_view_blit C v c n b at' w = Inr (b\<lparr>ba_bytes := bytes\<rparr>) \<and> length bytes = length (ba_bytes b) \<and>
    (\<forall>j<length bytes. bytes ! j = (case visible v c w of
        Some (x, rows) \<Rightarrow> if blit_accepts v c n b at' w \<and> nat at' * v_width x \<le> j \<and> j < (nat at' + nat n) * v_width x
          then blit_byte (mapped C (w_engine w)) x (v_width x) (nat at' * v_width x) j else ba_bytes b ! j
      | None \<Rightarrow> ba_bytes b ! j))"
proof (cases "blit_accepts v c n b at' w")
  case False
  obtain d where d: "ba_dim b = [d]" using assms(2) by (auto simp: array1_def)
  have "ml_duckdb_view_blit C v c n b at' w = Inr b"
    using False d element_size_array1 [OF assms(2)]
    by (auto simp: ml_duckdb_view_blit_def cached_visible(1) [OF assms(1)] blit_accepts_def Let_def split: option.splits)
  then show ?thesis using False by (intro exI [of _ "ba_bytes b"]) (auto split: option.splits)
next
  case True
  then obtain x rows where x: "visible v c w = Some (x, rows)" by (auto simp: blit_accepts_def split: option.splits)
  obtain d where d: "ba_dim b = [d]" "length (ba_bytes b) = d * caml_ba_element_size (ba_kind b)"
    using assms(2) by (auto simp: array1_def)
  have fit: "0 \<le> n" "n \<le> int rows" "0 \<le> at'" "at' + n \<le> int d" "d \<noteq> 0" "v_width x \<noteq> 0"
    "v_width x = caml_ba_element_size (ba_kind b)"
    using True x d(1) by (auto simp: blit_accepts_def)
  note backed = cached_visible(2) [OF assms(1) x]
  let ?m = "mapped C (w_engine w)" and ?W = "v_width x" and ?start = "nat at' * v_width x" and ?n = "nat n"
  have "?n \<le> rows" "nat at' + ?n \<le> d" using fit by auto
  then have rows: "?n * ?W \<le> rows * ?W" and dest: "?start + ?n * ?W \<le> length (ba_bytes b)"
    using d(2) fit(7) mult_le_mono1 [of "nat at' + ?n" d ?W] mult_le_mono1 [of ?n rows ?W] by (auto simp: add_mult_distrib)
  have load: "load ?m (v_data x) (?n * ?W) = Inr (bytes_at ?m (v_data x) (?n * ?W))"
    using backed readable_range_mono [of ?m "v_data x" "rows * ?W" 0 "?n * ?W"] rows
    by (simp add: load_bytes_at backed_def)
  obtain copied where copied: "overwrite ?start (bytes_at ?m (v_data x) (?n * ?W)) (ba_bytes b) = Inr copied"
      "length copied = length (ba_bytes b)"
      "\<forall>j<length (ba_bytes b). copied ! j = (if ?start \<le> j \<and> j < ?start + ?n * ?W then copied_byte ?m x ?start j else ba_bytes b ! j)"
    using rows_copied [OF dest] by blast
  obtain bytes where bytes: "(if v_validity x \<noteq> None then zero_invalid (\<lambda>i. valid_row C x i w) ?start ?W [0..<?n] copied
        else Inr copied) = Inr bytes" "length bytes = length copied"
      "\<forall>j<length copied. bytes ! j = (if ?start \<le> j \<and> j < ?start + ?n * ?W then blit_byte ?m x ?W ?start j else copied ! j)"
    using rows_zeroed [OF backed \<open>?n \<le> rows\<close>, of ?W ?start copied] fit(6) dest copied(2,3) by auto
  have "ml_duckdb_view_blit C v c n b at' w = Inr (b\<lparr>ba_bytes := bytes\<rparr>)"
    unfolding ml_duckdb_view_blit_def cached_visible(1) [OF assms(1)] x
    using fit d element_size_array1 [OF assms(2)] load copied(1) bytes(1) by (simp add: Let_def)
  then show ?thesis using True x bytes(2,3) copied(2,3) by (auto simp: add_mult_distrib)
qed

subsection \<open>Validity\<close>

lemma valid_bytes_map:
  "(\<And>i. i \<in> set is \<Longrightarrow> valid i = Inr (V i)) \<Longrightarrow> valid_bytes valid is = Inr (map (\<lambda>i. of_bool (V i)) is)"
  by (induction "is") simp_all

definition validity_accepts :: "nat \<Rightarrow> int \<Rightarrow> int \<Rightarrow> caml_ba_array \<Rightarrow> int \<Rightarrow> 'e world \<Rightarrow> bool" where
  "validity_accepts v c n b at' w = (case visible v c w of None \<Rightarrow> False
     | Some (x, rows) \<Rightarrow> 0 \<le> n \<and> n \<le> int rows \<and> 0 \<le> at' \<and> at' + n \<le> int (hd (ba_dim b)) \<and> ba_kind b = CAML_BA_UINT8)"

text \<open>
  C22: a validity blit writes one byte per row, 1 for a valid row and 0 for a NULL one, exactly
  in the range asked for, and only into an unsigned byte array that can hold it.
\<close>

theorem view_blit_validity_copies:
  assumes "view_ok C v w" and "array1 b"
  shows "\<exists>bytes. ml_duckdb_view_blit_validity C v c n b at' w = Inr (b\<lparr>ba_bytes := bytes\<rparr>) \<and> length bytes = length (ba_bytes b) \<and>
    (\<forall>j<length bytes. bytes ! j = (if validity_accepts v c n b at' w \<and> nat at' \<le> j \<and> j < nat at' + nat n
       then of_bool (\<not> row_is_null C v c (int (j - nat at')) w) else ba_bytes b ! j))"
proof (cases "validity_accepts v c n b at' w")
  case False
  obtain d where d: "ba_dim b = [d]" using assms(2) by (auto simp: array1_def)
  have "ml_duckdb_view_blit_validity C v c n b at' w = Inr b"
    using False d
    by (auto simp: ml_duckdb_view_blit_validity_def cached_visible(1) [OF assms(1)] validity_accepts_def split: option.splits)
  then show ?thesis using False by (intro exI [of _ "ba_bytes b"]) auto
next
  case True
  then obtain x rows where x: "visible v c w = Some (x, rows)" by (auto simp: validity_accepts_def split: option.splits)
  obtain d where d: "ba_dim b = [d]" "length (ba_bytes b) = d * caml_ba_element_size (ba_kind b)"
    using assms(2) by (auto simp: array1_def)
  have fit: "0 \<le> n" "n \<le> int rows" "0 \<le> at'" "at' + n \<le> int d" "ba_kind b = CAML_BA_UINT8"
    using True x d(1) by (auto simp: validity_accepts_def)
  note backed = cached_visible(2) [OF assms(1) x]
  have bits: "valid_bytes (\<lambda>i. valid_row C x i w) [0..<nat n] =
      Inr (map (\<lambda>i. of_bool (row_valid (mapped C (w_engine w)) x i)) [0..<nat n])" (is "_ = Inr ?bs")
    using fit(2) by (intro valid_bytes_map valid_row_eq [OF backed]) auto
  define out where "out = take (nat at') (ba_bytes b) @ ?bs @ drop (nat at' + nat n) (ba_bytes b)"
  have copy: "overwrite (nat at') ?bs (ba_bytes b) = Inr out"
    using overwrite_Inr [of "nat at'" ?bs "ba_bytes b"] fit d by (simp add: out_def)
  have null: "row_is_null C v c (int i) w = (\<not> row_valid (mapped C (w_engine w)) x i)" if "i < nat n" for i
    using that fit x by (auto simp: row_is_null_def)
  have eq: "ml_duckdb_view_blit_validity C v c n b at' w = Inr (b\<lparr>ba_bytes := out\<rparr>)"
    unfolding ml_duckdb_view_blit_validity_def cached_visible(1) [OF assms(1)] x
    using fit d bits copy by simp
  have len: "length out = length (ba_bytes b)" using fit d by (simp add: out_def)
  have "out ! j = (if nat at' \<le> j \<and> j < nat at' + nat n
      then of_bool (\<not> row_is_null C v c (int (j - nat at')) w) else ba_bytes b ! j)" if "j < length out" for j
    using that len fit d null [of "j - nat at'"] by (auto simp: out_def nth_append min_def simp del: of_nat_diff)
  then show ?thesis using True eq len by (intro exI [of _ out]) simp
qed

subsection \<open>Instances\<close>

text \<open>The sample chunk: three BIGINT rows, the second one NULL.\<close>

lemma sample_view_ok: "view_ok sample_chunks 13 (sample_world False)"
  by (simp add: view_ok_def backed_def readable_range_def sample_defs sample_chunks_def sample_memory_def)

lemma sample_visible: "visible 13 0 (sample_world False) = Some (sample_vector, 3)"
  by (simp add: visible_def sample_defs)

lemma sample_nulls: "null_rows sample_chunks 13 0 5 (sample_world False) = {1}"
proof -
  have "row_valid sample_memory sample_vector i \<longleftrightarrow> i \<noteq> 1" if "i < 3" for i
  proof -
    have "i = 0 \<or> i = 1 \<or> i = 2" using that by auto
    then show ?thesis by (auto simp: row_valid_def sample_vector_def sample_memory_def bit_numeral_rec)
  qed
  then show ?thesis by (auto simp: null_rows_def sample_visible sample_chunks_def)
qed

lemma view_reads_witness:
  "ml_duckdb_view_int64 sample_chunks 13 0 1 (sample_world False) = Inr (value_at sample_memory sample_vector 1) \<and>
   ml_duckdb_view_int32 sample_chunks 13 0 1 (sample_world False) = Inr 0"
proof -
  have "shown sample_chunks 13 0 1 (sample_world False) = Some (value_at sample_memory sample_vector 1 :: 64 word)"
    and "shown sample_chunks 13 0 1 (sample_world False) = (None :: 32 word option)"
    by (simp_all add: shown_def sample_visible) (simp_all add: sample_vector_def sample_chunks_def)
  then show ?thesis using view_reads [OF sample_view_ok, of 0 1] by simp
qed

lemma view_reads_or_default_witness:
  "ml_duckdb_view_int64_or sample_chunks 13 0 1 7 (sample_world False) = Inr 7 \<and>
   ml_duckdb_view_int16_or sample_chunks 13 0 0 40000 (sample_world False) = Inr (- 25536)"
proof -
  have "row_is_null sample_chunks 13 0 1 (sample_world False)"
    by (simp add: row_is_null_def sample_visible)
      (simp add: row_valid_def sample_vector_def sample_chunks_def sample_memory_def bit_numeral_rec)
  moreover have "shown sample_chunks 13 0 1 (sample_world False) = Some (value_at sample_memory sample_vector 1 :: 64 word)"
    and "shown sample_chunks 13 0 0 (sample_world False) = (None :: 16 word option)"
    by (simp_all add: shown_def sample_visible) (simp_all add: sample_vector_def sample_chunks_def)
  moreover have "signed_take_bit 15 40000 = (- 25536 :: int)" by (simp add: signed_take_bit_eq_take_bit_shift take_bit_eq_mod)
  ultimately show ?thesis
    using view_reads_or_default [OF sample_view_ok, of 0 1 7] view_reads_or_default [OF sample_view_ok, of 0 0 _ _ 40000] by simp
qed

lemma view_null_count_witness: "ml_duckdb_view_null_count sample_chunks 13 0 5 (sample_world False) = Inr 1"
  using view_null_count_counts [OF sample_view_ok, of 0 5] by (simp add: sample_nulls)

lemma view_first_null_witness: "ml_duckdb_view_first_null sample_chunks 13 0 5 (sample_world False) = Inr 1"
  using view_first_null_finds [OF sample_view_ok, of 0 5] by (simp add: sample_nulls first_of_def)

text \<open>Two rows at the start of an array of four; the second is zeroed.\<close>

definition sample_array :: caml_ba_array where
  "sample_array = \<lparr>ba_bytes = replicate 32 9, ba_dim = [4], ba_kind = CAML_BA_INT64\<rparr>"

lemma view_blit_witness:
  "\<exists>bytes. ml_duckdb_view_blit sample_chunks 13 0 2 sample_array 0 (sample_world False) = Inr (sample_array\<lparr>ba_bytes := bytes\<rparr>) \<and>
    length bytes = 32 \<and> bytes ! 0 = 64 \<and> bytes ! 8 = 0 \<and> bytes ! 16 = 9"
proof -
  have "array1 sample_array" by (simp add: array1_def sample_array_def)
  from view_blit_copies [OF sample_view_ok this, of 0 2 0]
  obtain bytes where b: "ml_duckdb_view_blit sample_chunks 13 0 2 sample_array 0 (sample_world False) = Inr (sample_array\<lparr>ba_bytes := bytes\<rparr>)"
      "length bytes = length (ba_bytes sample_array)"
      "\<forall>j<length bytes. bytes ! j = (case visible 13 0 (sample_world False) of
        Some (x, rows) \<Rightarrow> if blit_accepts 13 0 2 sample_array 0 (sample_world False) \<and> nat 0 * v_width x \<le> j \<and> j < (nat 0 + nat 2) * v_width x
          then blit_byte (mapped sample_chunks (w_engine (sample_world False))) x (v_width x) (nat 0 * v_width x) j else ba_bytes sample_array ! j
      | None \<Rightarrow> ba_bytes sample_array ! j)" by blast
  have "blit_accepts 13 0 2 sample_array 0 (sample_world False)"
    by (simp add: blit_accepts_def sample_visible) (simp add: sample_array_def sample_vector_def)
  then have nth: "bytes ! j = (if j < 16 then blit_byte sample_memory sample_vector 8 0 j else 9)" if "j < 32" for j
    using b(2,3) that by (simp add: sample_visible) (simp add: sample_array_def sample_vector_def sample_chunks_def)
  have "blit_byte sample_memory sample_vector 8 0 0 = 64" and "blit_byte sample_memory sample_vector 8 0 8 = 0"
    by (simp_all add: blit_byte_def row_valid_def sample_vector_def sample_memory_def bit_numeral_rec)
  then show ?thesis using b(1,2) nth [of 0] nth [of 8] nth [of 16] by (simp add: sample_array_def)
qed

definition sample_bytes :: caml_ba_array where
  "sample_bytes = \<lparr>ba_bytes = replicate 4 9, ba_dim = [4], ba_kind = CAML_BA_UINT8\<rparr>"

lemma view_blit_validity_witness:
  "\<exists>bytes. ml_duckdb_view_blit_validity sample_chunks 13 0 2 sample_bytes 1 (sample_world False) = Inr (sample_bytes\<lparr>ba_bytes := bytes\<rparr>) \<and>
    length bytes = 4 \<and> bytes ! 0 = 9 \<and> bytes ! 2 = 0"
proof -
  have "array1 sample_bytes" by (simp add: array1_def sample_bytes_def)
  from view_blit_validity_copies [OF sample_view_ok this, of 0 2 1]
  obtain bytes where b: "ml_duckdb_view_blit_validity sample_chunks 13 0 2 sample_bytes 1 (sample_world False) = Inr (sample_bytes\<lparr>ba_bytes := bytes\<rparr>)"
      "length bytes = length (ba_bytes sample_bytes)"
      "\<forall>j<length bytes. bytes ! j = (if validity_accepts 13 0 2 sample_bytes 1 (sample_world False) \<and> nat 1 \<le> j \<and> j < nat 1 + nat 2
       then of_bool (\<not> row_is_null sample_chunks 13 0 (int (j - nat 1)) (sample_world False)) else ba_bytes sample_bytes ! j)" by blast
  have "validity_accepts 13 0 2 sample_bytes 1 (sample_world False)"
    by (simp add: validity_accepts_def sample_visible) (simp add: sample_bytes_def)
  moreover have "row_is_null sample_chunks 13 0 1 (sample_world False)"
    by (simp add: row_is_null_def sample_visible)
      (simp add: row_valid_def sample_vector_def sample_chunks_def sample_memory_def bit_numeral_rec)
  moreover have "length bytes = 4" using b(2) by (simp add: sample_bytes_def)
  ultimately have "bytes ! 0 = 9 \<and> bytes ! 2 = 0"
    using b(3) by (auto simp: sample_bytes_def)
  then show ?thesis using b(1) \<open>length bytes = 4\<close> by blast
qed

end
