(* ===== verification/Lifecycle.thy ===== *)
theory Lifecycle
  imports Requests_Safety
begin

text \<open>
  The end of an owner: closing, finishing a close, disposal and finalization, each started
  from the global invariant and ending in it. A stub first drops its slot, in the world the
  deletion looks at, and then runs the deletion through that view.
\<close>

subsection \<open>Dropping a slot\<close>

lemma ran_drop: "ran (m(v := None)) \<subseteq> ran m"
  by (auto simp: ran_def split: if_splits)

lemma slots_ok_drop: "slots_ok n m h \<Longrightarrow> slots_ok n (m(v := None)) h"
  unfolding slots_ok_def using ran_drop [of m v] by auto

lemma sole_drop:
  assumes "sole n m h" and "m v = Some x"
  shows "sole n (m(v := None)) (h(x := None))"
proof -
  have m: "dom m \<subseteq> {..<n}" "ran m = dom h" "inj_on m (dom m)" using assms(1) by (simp_all add: sole_def)
  have only: "k = v" if "m k = Some x" for k
    using that assms(2) by (intro inj_onD [OF m(3)] domI) simp_all
  have "ran (m(v := None)) \<subseteq> dom h - {x}"
  proof
    fix y
    assume "y \<in> ran (m(v := None))"
    then obtain k where "k \<noteq> v" "m k = Some y" by (auto simp: ran_def split: if_splits)
    then have "y \<noteq> x" "y \<in> ran m" using only [of k] by (blast intro: ranI)+
    then show "y \<in> dom h - {x}" using m(2) by simp
  qed
  moreover have "dom h - {x} \<subseteq> ran (m(v := None))"
  proof
    fix y
    assume y: "y \<in> dom h - {x}"
    then have "y \<in> ran m" using m(2) by simp
    then obtain k where k: "m k = Some y" by (auto simp: ran_def)
    have "k \<noteq> v" using y assms(2) k by fastforce
    then show "y \<in> ran (m(v := None))" using k by (intro ranI [of _ k]) simp
  qed
  moreover have "inj_on (m(v := None)) (dom m - {v})"
    by (subst inj_on_cong [of _ _ m]) (simp_all add: inj_on_diff m(3))
  moreover have "dom m - {v} \<subseteq> {..<n}" using m(1) by blast
  ultimately have "dom (m(v := None)) \<subseteq> {..<n} \<and> ran (m(v := None)) = dom (h(x := None)) \<and> inj_on (m(v := None)) (dom (m(v := None)))"
    by (simp add: subset_antisym)
  then show ?thesis unfolding sole_def .
qed

lemma holders_drop_slot:
  assumes "well_formed K ed ea k w"
  shows "Database w v = Some d \<Longrightarrow> database_holders e w = database_holders e (w\<lparr>Database := (Database w)(v := None)\<rparr>) + points e (Some d)"
    and "Connection w v = Some a \<Longrightarrow> connection_holders e w = connection_holders e (w\<lparr>Connection := (Connection w)(v := None)\<rparr>) + points e (Some a)"
  using msum_delete [OF finite_slots(1) [OF assms], of v d "\<lambda>x. points e (Some x)"]
    msum_delete [OF finite_slots(2) [OF assms], of v a "\<lambda>x. points e (Some x)"]
  by (simp_all add: database_holders_def connection_holders_def)

lemma database_slot_dropped:
  assumes wf: "wf K w" and v: "Database w v = Some d"
  shows "well_formed K (Some d) None 0 (w\<lparr>Database := (Database w)(v := None)\<rparr>)"
proof -
  let ?w = "w\<lparr>Database := (Database w)(v := None)\<rparr>"
  note holders = holders_drop_slot(1) [OF wf v]
  have same: "connection_holders a ?w = connection_holders a w" for a by (simp add: connection_holders_def)
  have "base ?w" by (rule base_forget_slot [OF well_formed_base [OF wf]])
  moreover have "slots_valid ?w" using wf by (simp add: well_formed_def slots_valid_def slots_ok_drop)
  moreover have "counted (Some d) None ?w"
  proof -
    have "counted None None w" using wf by (simp add: well_formed_def)
    then show ?thesis unfolding counted_def holders same by (auto simp: points_def)
  qed
  moreover have "linked K ?w" using wf by (simp add: well_formed_def linked_def connection_ok_def request_ok_def)
  ultimately show ?thesis using wf by (simp add: well_formed_def)
qed

lemma connection_slot_dropped:
  assumes wf: "wf K w" and v: "Connection w v = Some a"
  shows "well_formed K None (Some a) 0 (w\<lparr>Connection := (Connection w)(v := None)\<rparr>)"
proof -
  let ?w = "w\<lparr>Connection := (Connection w)(v := None)\<rparr>"
  note holders = holders_drop_slot(2) [OF wf v]
  have same: "database_holders d ?w = database_holders d w" for d by (simp add: database_holders_def)
  have "base ?w" by (rule base_forget_slot [OF well_formed_base [OF wf]])
  moreover have "slots_valid ?w" using wf by (simp add: well_formed_def slots_valid_def slots_ok_drop)
  moreover have "counted None (Some a) ?w"
  proof -
    have "counted None None w" using wf by (simp add: well_formed_def)
    then show ?thesis unfolding counted_def holders same by (auto simp: points_def)
  qed
  moreover have "linked K ?w" using wf by (simp add: well_formed_def linked_def connection_ok_def request_ok_def)
  ultimately show ?thesis using wf by (simp add: well_formed_def)
qed

lemma prepared_dropped:
  assumes wf: "wf K w" and v: "Prepared w v = Some p" and pr: "prepareds w p = Some pr" "prepared_resources pr = 1"
  shows "well_formed K None (Some (p_parent pr)) 1 (w\<lparr>prepareds := (prepareds w)(p := None), Prepared := (Prepared w)(v := None)\<rparr>)"
proof -
  let ?u = "w\<lparr>prepareds := (prepareds w)(p := None)\<rparr>"
  let ?w = "?u\<lparr>Prepared := (Prepared w)(v := None)\<rparr>"
  have b: "base w" "heaps_below w" using wf by (simp_all add: well_formed_def base_def)
  have holders: "connection_holders e w = connection_holders e ?w + points e (Some (p_parent pr))" for e
    using msum_delete [OF finite_heaps(4) [OF wf] pr(1), of "\<lambda>pr. points e (Some (p_parent pr))"]
    by (simp add: connection_holders_def)
  have same: "database_holders d ?w = database_holders d w" for d by (simp add: database_holders_def)
  have "base ?w" using base_delete(3) [OF b(1)] base_forget_slot(3) [of ?u] by simp
  moreover have "slots_valid ?w" using wf v by (simp add: well_formed_def slots_valid_def sole_drop)
  moreover have "counted None (Some (p_parent pr)) ?w"
  proof -
    have "counted None None w" using wf by (simp add: well_formed_def)
    then show ?thesis unfolding counted_def holders same by (auto simp: points_def)
  qed
  moreover have "linked K ?w" using wf by (simp add: well_formed_def linked_def connection_ok_def request_ok_def)
  moreover have "slack ?w = 1" using slack_delete(3) [OF b(2) pr(1)] pr(2) wf by (simp add: well_formed_def)
  ultimately show ?thesis using wf by (simp add: well_formed_def) (simp add: log_disciplined_def)
qed

lemma appender_dropped:
  assumes wf: "wf K w" and v: "Appender w v = Some p" and x: "appenders w p = Some x" "appender_resources x = 1"
  shows "well_formed K None (Some (a_parent x)) 1 (w\<lparr>appenders := (appenders w)(p := None), Appender := (Appender w)(v := None)\<rparr>)"
proof -
  let ?u = "w\<lparr>appenders := (appenders w)(p := None)\<rparr>"
  let ?w = "?u\<lparr>Appender := (Appender w)(v := None)\<rparr>"
  have b: "base w" "heaps_below w" using wf by (simp_all add: well_formed_def base_def)
  have holders: "connection_holders e w = connection_holders e ?w + points e (Some (a_parent x))" for e
    using msum_delete [OF finite_heaps(5) [OF wf] x(1), of "\<lambda>x. points e (Some (a_parent x))"]
    by (simp add: connection_holders_def)
  have same: "database_holders d ?w = database_holders d w" for d by (simp add: database_holders_def)
  have "base ?w" using base_delete(4) [OF b(1)] base_forget_slot(4) [of ?u] by simp
  moreover have "slots_valid ?w" using wf v by (simp add: well_formed_def slots_valid_def sole_drop)
  moreover have "counted None (Some (a_parent x)) ?w"
  proof -
    have "counted None None w" using wf by (simp add: well_formed_def)
    then show ?thesis unfolding counted_def holders same by (auto simp: points_def)
  qed
  moreover have "linked K ?w" using wf by (simp add: well_formed_def linked_def connection_ok_def request_ok_def)
  moreover have "slack ?w = 1" using slack_delete(4) [OF b(2) x(1)] x(2) wf by (simp add: well_formed_def)
  ultimately show ?thesis using wf by (simp add: well_formed_def) (simp add: log_disciplined_def)
qed

lemma work_dropped:
  assumes wf: "wf K w" and v: "Work w v = Some k" and x: "works w k = Some x" "work_resources x = 1"
  shows "well_formed K None (f_parent x) 1 (w\<lparr>works := (works w)(k := None), Work := (Work w)(v := None)\<rparr>)"
proof -
  let ?u = "w\<lparr>works := (works w)(k := None)\<rparr>"
  let ?w = "?u\<lparr>Work := (Work w)(v := None)\<rparr>"
  have b: "base w" "heaps_below w" using wf by (simp_all add: well_formed_def base_def)
  have holders: "connection_holders e w = connection_holders e ?w + points e (f_parent x)" for e
    using msum_delete [OF finite_heaps(6) [OF wf] x(1), of "\<lambda>x. points e (f_parent x)"]
    by (simp add: connection_holders_def)
  have same: "database_holders d ?w = database_holders d w" for d by (simp add: database_holders_def)
  have "base ?w" using base_delete(5) [OF b(1)] base_forget_slot(5) [of ?u] by simp
  moreover have "slots_valid ?w" using wf v by (simp add: well_formed_def slots_valid_def sole_drop)
  moreover have "counted None (f_parent x) ?w"
  proof -
    have "counted None None w" using wf by (simp add: well_formed_def)
    then show ?thesis unfolding counted_def holders same by (auto simp: points_def)
  qed
  moreover have "linked K ?w" using wf by (auto simp: well_formed_def linked_def connection_ok_def request_ok_def)
  moreover have "slack ?w = 1" using slack_delete(5) [OF b(2) x(1)] x(2) wf by (simp add: well_formed_def)
  ultimately show ?thesis using wf by (simp add: well_formed_def) (simp add: log_disciplined_def)
qed

lemma request_dropped:
  assumes wf: "well_formed K ed ea k w" and v: "Native_request w v = Some r" and q: "requests w r = Some q" "r_owner q = None"
  shows "well_formed K ed ea (k + 1) (w\<lparr>requests := (requests w)(r := None), Native_request := (Native_request w)(v := None)\<rparr>)"
proof -
  let ?u = "w\<lparr>requests := (requests w)(r := None), Native_request := (Native_request w)(v := None)\<rparr>"
  have holders: "connection_holders e ?u = connection_holders e w" "database_holders d ?u = database_holders d w" for e d
    using msum_delete [OF finite_heaps(3) [OF wf] q(1), of "\<lambda>q. points e (r_owner q)"] q(2)
    by (simp_all add: connection_holders_def database_holders_def)
  have "base ?u" using wf by (auto simp: well_formed_def base_def heaps_below_def disjoint_owners_def)
  moreover have "slots_valid ?u" using wf v by (simp add: well_formed_def slots_valid_def sole_drop)
  moreover have "counted ed ea ?u" using wf unfolding counted_def holders well_formed_def by simp
  moreover have "linked K ?u"
  proof -
    have l: "linked K w" using wf by (simp add: well_formed_def)
    have "connection_ok a c ?u" if "connections w a = Some c" for a c
      using l that link_target(6) [OF wf that, of r] q by (auto simp: linked_def connection_ok_def)
    then show ?thesis using l by (simp add: linked_def request_ok_def)
  qed
  moreover have "slack ?u = k + 1"
    using wf msum_delete [OF finite_heaps(3) [OF wf] q(1), of "\<lambda>_. 1"] by (simp add: slack_requests well_formed_def)
  ultimately show ?thesis using wf by (simp add: well_formed_def log_disciplined_def)
qed

lemma request_freed:
  assumes "wf K w" and "Native_request w v = Some r" and "requests w r = Some q" and "r_owner q = None"
  shows "wf K (free_request v r w)"
  unfolding free_request_def by (rule well_formed_released) (rule request_dropped [OF assms])

lemma fallback_frame [simp]:
  "Database (count_fallback w) = Database w" "Connection (count_fallback w) = Connection w"
  "Native_request (count_fallback w) = Native_request w" "Prepared (count_fallback w) = Prepared w"
  "requests (count_fallback w) = requests w"
  by (simp_all add: count_fallback_def)

lemma distinct_owners:
  assumes "base w"
  shows "databases w d \<noteq> None \<Longrightarrow> prepareds w d = None \<and> appenders w d = None"
    and "connections w d \<noteq> None \<Longrightarrow> prepareds w d = None \<and> appenders w d = None"
    and "prepareds w d \<noteq> None \<Longrightarrow> appenders w d = None" and "appenders w d \<noteq> None \<Longrightarrow> prepareds w d = None"
    and "works w d \<noteq> None \<Longrightarrow> prepareds w d = None \<and> appenders w d = None"
  using assms by (auto simp: base_def disjoint_owners_def)

subsection \<open>Connections between stubs\<close>

lemma wf_quiescent:
  assumes "well_formed K ed ea k w" and "connections w a = Some c"
  shows "quiescent a (c_native_closing c) w"
proof -
  have "connection_ok a c w" using assms by (simp add: well_formed_def linked_def)
  then show ?thesis
    using assms by (auto simp: well_formed_def base_def quiescent_def native_def connection_ok_def)
qed

lemma wf_owned:
  assumes "well_formed K ed ea k w" and "prepareds w p = Some pr"
  shows "owned p (p_parent pr) w"
  using assms by (auto simp: well_formed_def linked_def owned_def)

text \<open>A stub that evolves the world and leaves its connection quiescent keeps the invariant.\<close>

lemma settled_well_formed:
  assumes "settled a Y cl w w'" and "well_formed K ed ea k w"
    and "\<And>p pr. p \<in> Y \<Longrightarrow> prepareds w' p = Some pr \<Longrightarrow> cache_ok pr" and "\<And>p x. p \<in> Y \<Longrightarrow> appenders w' p = Some x \<Longrightarrow> K x"
  shows "well_formed K ed ea k w'"
  using evo_well_formed [of "{a}" Y 0 w w' K ed ea k] assms by (auto simp: settled_def quiescent_def)

lemma settled_owned:
  assumes "settled a {p} cl w w'" and "owned p a w'" and "well_formed K ed ea k w"
  shows "well_formed K ed ea k w'"
proof (rule settled_well_formed [OF assms(1,3)])
  have "evo {a} {p} 0 w w'" using assms(1) by (simp add: settled_def)
  from evo_base [OF this well_formed_base [OF assms(3)]] have "appenders w' p = None"
    using distinct_owners(3) [of w' p] assms(2) by (auto simp: owned_def)
  then show "K x" if "q \<in> {p}" "appenders w' q = Some x" for q x using that by simp
qed (use assms(2) in \<open>auto simp: owned_def\<close>)

lemma settled_connection:
  assumes "settled a {a} cl w w'" and "well_formed K ed ea k w" and "connections w a \<noteq> None"
  shows "well_formed K ed ea k w'"
proof -
  have e: "evo {a} {a} 0 w w'" using assms(1) by (simp add: settled_def)
  have "prepareds w' a = None \<and> appenders w' a = None"
    using distinct_owners(2) [OF well_formed_base [OF assms(2)] assms(3)] heap_rel_None [OF evo_heaps(3) [OF e]]
      heap_rel_None [OF evo_heaps(4) [OF e]] by simp
  then show ?thesis by (intro settled_well_formed [OF assms(1,2)]) auto
qed

lemma database_settled_well_formed:
  assumes "database_settled d w w'" and "well_formed K ed ea k w" and "databases w d \<noteq> None"
  shows "well_formed K ed ea k w'"
proof -
  have e: "evo {} {d} 0 w w'" using assms(1) by (simp add: database_settled_def)
  have "prepareds w' d = None \<and> appenders w' d = None"
    using distinct_owners(1) [OF well_formed_base [OF assms(2)] assms(3)] heap_rel_None [OF evo_heaps(3) [OF e]]
      heap_rel_None [OF evo_heaps(4) [OF e]] by simp
  then show ?thesis using evo_well_formed [OF e assms(2)] by simp
qed

subsection \<open>Databases\<close>

lemma small_frame [simp]: "small (count_fallback w) = small w" "small (w\<lparr>Database := s\<rparr>) = small w"
  "small (w\<lparr>Connection := s\<rparr>) = small w" "small (put_connection a c w) = small w" "small (put_request r q w) = small w"
  by (simp_all add: small_def count_fallback_def)

lemma drop_database:
  assumes "wf K w" and "small w" and "session_releases S"
  shows "runs (bind (database_unref S (Database w v) w) (\<lambda>w. Inr (w\<lparr>Database := (Database w)(v := None)\<rparr>))) (wf K)"
proof (cases "Database w v")
  case None
  then show ?thesis using assms(1) by (simp add: database_unref_def fun_upd_idem)
next
  case (Some d)
  then have "databases w d \<noteq> None" using slot_target(1) [OF assms(1)] by blast
  from slot_of_database.unref [OF database_slot_dropped [OF assms(1) Some] well_formed_base [OF assms(1)] assms(2) this assms(3)]
  show ?thesis unfolding Some by (rule runs_bindI) simp
qed

lemma ml_duckdb_finish_database_close_wf:
  "wf K w \<Longrightarrow> small w \<Longrightarrow> session_releases S \<Longrightarrow> runs (ml_duckdb_finish_database_close S v w) (wf K)"
  unfolding ml_duckdb_finish_database_close_def by (rule drop_database)

lemma finalize_database_wf:
  assumes "wf K w" and "small w" and "session_releases S"
  shows "runs (finalize_database S v w) (wf K)"
proof (cases "Database w v")
  case (Some d)
  then show ?thesis
    using drop_database [of K "count_fallback w" S v] assms by (simp add: finalize_database_def)
qed (simp add: finalize_database_def assms(1))

subsection \<open>Connections\<close>

lemma drop_connection:
  assumes "wf K w" and "small w" and "session_releases S" and "statement_releases T"
  shows "runs (bind (connection_delete S T (Connection w v) w) (\<lambda>w. Inr (w\<lparr>Connection := (Connection w)(v := None)\<rparr>))) (wf K)"
proof (cases "Connection w v")
  case None
  then show ?thesis using assms(1) by (simp add: connection_delete_def fun_upd_idem)
next
  case (Some a)
  then have "connections w a \<noteq> None" using slot_target(2) [OF assms(1)] by blast
  from slot_of_connection.delete [OF connection_slot_dropped [OF assms(1) Some] well_formed_base [OF assms(1)] assms(2) this assms(3,4)]
  show ?thesis unfolding Some by (rule runs_bindI) simp
qed

lemma ml_duckdb_finish_connection_close_wf:
  "wf K w \<Longrightarrow> small w \<Longrightarrow> session_releases S \<Longrightarrow> statement_releases T \<Longrightarrow> runs (ml_duckdb_finish_connection_close S T v w) (wf K)"
  unfolding ml_duckdb_finish_connection_close_def by (rule drop_connection)

lemma finalize_connection_wf:
  assumes "wf K w" and "small w" and "session_releases S" and "statement_releases T"
  shows "runs (finalize_connection S T v w) (wf K)"
proof (cases "Connection w v")
  case (Some a)
  then show ?thesis
    using drop_connection [of K "count_fallback w" S T v] assms by (simp add: finalize_connection_def)
qed (simp add: finalize_connection_def assms(1))

subsection \<open>Prepared statements\<close>

lemma delete_prepared_wf:
  assumes wf: "wf K w" and small: "small w" and v: "Prepared w v = Some p"
    and S: "session_releases S" and T: "statement_releases T" and C: "chunk_releases C"
  shows "runs (bind (delete_prepared S T C (Some p) w) (\<lambda>w. Inr (w\<lparr>Prepared := (Prepared w)(v := None)\<rparr>))) (wf K)"
proof -
  obtain pr where pr: "prepareds w p = Some pr" using slot_target(4) [OF wf v] by blast
  let ?a = "p_parent pr"
  obtain c where c: "connections w ?a = Some c" using link_target(3) [OF wf pr] by blast
  have "busy ?a {p} False 0 (c_native_closing c) False 0 w (owned p ?a) w"
    by (rule quiescent_owned [OF wf_quiescent [OF wf c] wf_owned [OF wf pr]])
  then have "runs (clear_prepared T C (Some p) DUCKDB_ML_RUNTIME_HELD w)
      (busy ?a {p} False 0 (c_native_closing c) False 0 w (has_prepared p ?a False False False False False False True))"
    by (rule clear_prepared_owned) (simp_all add: T C)
  then have "runs (delete_prepared S T C (Some p) w) (\<lambda>w'. wf K (w'\<lparr>Prepared := (Prepared w')(v := None)\<rparr>))"
    unfolding delete_prepared_def option.case
  proof (rule runs_bindI)
    fix w1
    assume b: "busy ?a {p} False 0 (c_native_closing c) False 0 w (has_prepared p ?a False False False False False False True) w1"
    then have e: "evo {?a} {p} 0 w w1" by (auto simp: busy_def during_def)
    have wf1: "wf K w1"
      using settled_owned [of ?a p "c_native_closing c" w w1 K None None 0] busy_settled [OF has_prepared_weaken [OF b]] wf by blast
    obtain pr1 where pr1: "prepareds w1 p = Some pr1" "prepared_is ?a False False False False False False True pr1" "p_parent pr1 = ?a"
      using b by (rule has_prepared_owner)
    have v1: "Prepared w1 v = Some p" using v evo_same(5) [OF e] by simp
    have a1: "connections w1 ?a \<noteq> None" using c evo_none(2) [OF e] by simp
    have small1: "small w1" using small evo_same(8) [OF e] by (simp add: small_def)
    have "prepared_resources pr1 = 1" using prepared_resources_is [OF pr1(2)] by simp
    from prepared_gone.delete [OF prepared_dropped [OF wf1 v1 pr1(1) this, unfolded pr1(3)] well_formed_base [OF wf1] small1 a1 S T]
    have "runs (connection_delete S T (Some ?a) w1) (\<lambda>w'. base w' \<and> w_next w' = w_next w1 \<and> well_formed K None None 1
        (w'\<lparr>prepareds := (prepareds w')(p := None), Prepared := (Prepared w')(v := None)\<rparr>))" .
    then have "runs (bind (connection_delete S T (Some ?a) w1) (\<lambda>w. Inr (released (w\<lparr>prepareds := (prepareds w)(p := None)\<rparr>))))
        (\<lambda>w'. wf K (w'\<lparr>Prepared := (Prepared w')(v := None)\<rparr>))"
    proof (rule runs_bindI)
      fix w2
      assume w2: "base w2 \<and> w_next w2 = w_next w1 \<and> well_formed K None None 1
        (w2\<lparr>prepareds := (prepareds w2)(p := None), Prepared := (Prepared w2)(v := None)\<rparr>)"
      have "wf K (released (w2\<lparr>prepareds := (prepareds w2)(p := None), Prepared := (Prepared w2)(v := None)\<rparr>))"
        by (rule well_formed_released) (use w2 in simp)
      moreover have "released (w2\<lparr>prepareds := (prepareds w2)(p := None), Prepared := (Prepared w2)(v := None)\<rparr>) =
          released (w2\<lparr>prepareds := (prepareds w2)(p := None)\<rparr>)\<lparr>Prepared := (Prepared w2)(v := None)\<rparr>"
        by (simp add: released_def)
      ultimately show "runs (Inr (released (w2\<lparr>prepareds := (prepareds w2)(p := None)\<rparr>))) (\<lambda>w'. wf K (w'\<lparr>Prepared := (Prepared w')(v := None)\<rparr>))"
        by simp
    qed
    then show "runs (bind (deref (prepareds w1) p) (\<lambda>pr. bind (duckdb_ml_connection_unref S T (Some (p_parent pr)) w1) (\<lambda>w.
        Inr (released (w\<lparr>prepareds := (prepareds w)(p := None)\<rparr>))))) (\<lambda>w'. wf K (w'\<lparr>Prepared := (Prepared w')(v := None)\<rparr>))"
      using pr1 by (simp add: duckdb_ml_connection_unref_def)
  qed
  then show ?thesis by (rule runs_bindI) simp
qed

lemma ml_duckdb_finish_prepared_close_wf:
  assumes "wf K w" and "small w" and "session_releases S" and "statement_releases T" and "chunk_releases C"
  shows "runs (ml_duckdb_finish_prepared_close S T C v w) (wf K)"
proof (cases "Prepared w v")
  case None
  then show ?thesis using assms(1) by (simp add: ml_duckdb_finish_prepared_close_def delete_prepared_def fun_upd_idem)
next
  case (Some p)
  then show ?thesis using delete_prepared_wf [OF assms(1,2) Some assms(3-)] by (simp add: ml_duckdb_finish_prepared_close_def)
qed

lemma finalize_prepared_wf:
  assumes "wf K w" and "small w" and "session_releases S" and "statement_releases T" and "chunk_releases C"
  shows "runs (finalize_prepared S T C v w) (wf K)"
proof (cases "Prepared w v")
  case (Some p)
  then show ?thesis
    using delete_prepared_wf [of K "count_fallback w" v p S T C] assms by (simp add: finalize_prepared_def)
qed (simp add: finalize_prepared_def assms(1))

end
