(* ===== verification/Stubs.thy ===== *)
theory Stubs
  imports Lifecycle Staging Local_Files
begin

text \<open>
  The stubs as the safe layer calls them, one at a time: \<open>stub\<close> names a call with its
  arguments, \<open>perform\<close> runs it, \<open>permitted\<close> is the discipline of the safe layer
  (\<open>src/lib/duckdb/resource.ml\<close>, \<open>query.ml\<close>): work needs an open connection whose
  previous work has been cleared, a statement is prepared once and executed with no result
  open, an appender is created once and used while its connection is open, a file work
  publishes or removes once, a connection is closed after its request has been uninstalled.
  A permitted call started from the global invariant returns and keeps it.
\<close>

record 'e apis =
  session :: "'e session_api"
  statement :: "'e statement_api"
  chunk :: "'e chunk_api"
  binding :: "'e bind_api"
  narrow :: "64 word \<Rightarrow> 32 word"
  appender :: "'e appender_api"
  files :: "'e file_api"

definition releases :: "'e apis \<Rightarrow> bool" where
  "releases A \<longleftrightarrow> session_releases (session A) \<and> statement_releases (statement A) \<and> chunk_releases (chunk A)"

datatype stub =
    New_database | Open_database nat string int int bool | Close_database nat | Finish_database nat | Finalize_database nat
  | New_connection nat | Connect_connection nat | Close_connection nat | Finish_connection nat | Finalize_connection nat
  | Clear_work nat | Interrupt_connection nat
  | New_request | Cancel_request nat | Install_request nat nat | Uninstall_request nat | Reserve_delivery nat
  | Deliver nat | Retire_delivery nat | Dispose_request nat | Finalize_request nat
  | Execute_sql nat string bool | Execute_control nat control_statement | Admit_local_file nat
  | New_prepared nat | Prepare_sql nat string | Execute_prepared nat | Fetch_chunk nat | Close_result nat
  | Finish_result nat | Close_prepared nat | Finish_prepared nat | Finalize_prepared nat | Clear_input nat
  | Bind_null nat nat | Bind_int64 nat nat duckdb_type "64 word" | Bind_float nat nat duckdb_type "64 word"
  | Bind_string nat nat duckdb_type string | Reset_bindings nat
  | New_appender nat | Create_appender nat string string | Clear_stage nat | Append_staged nat | Flush_appender nat
  | Stage_begin nat int | Stage_int64 nat int int "64 word" | Stage_float nat int int "64 word" | Stage_string nat int int string
  | Stage_null nat int int | Stage_blit nat int caml_ba_array int int | Stage_mask nat int caml_ba_array int int
  | Close_appender nat bool | Finish_appender nat | Finalize_appender nat
  | New_work | Publish_file nat string string | Publish_admitted nat nat string string | Remove_file nat string
  | Finish_work nat | Finalize_work nat

text \<open>The state a call leaves; its value is the safe layer's business.\<close>

definition state_of :: "('r \<times> 'e world) run \<Rightarrow> 'e world run" where
  "state_of m = bind m (\<lambda>(_, w). Inr w)"

fun perform :: "'e apis \<Rightarrow> stub \<Rightarrow> 'e world \<Rightarrow> 'e world run" where
  "perform A New_database w = state_of (ml_duckdb_database_owner w)"
| "perform A (Open_database v path threads memory read_only) w =
     state_of (ml_duckdb_open (session A) v path threads memory read_only w)"
| "perform A (Close_database v) w = state_of (ml_duckdb_close_database (session A) v w)"
| "perform A (Finish_database v) w = ml_duckdb_finish_database_close (session A) v w"
| "perform A (Finalize_database v) w = finalize_database (session A) v w"
| "perform A (New_connection v) w = state_of (ml_duckdb_connection_owner v w)"
| "perform A (Connect_connection v) w = state_of (ml_duckdb_connect (session A) v w)"
| "perform A (Close_connection v) w = state_of (ml_duckdb_close_connection (session A) (statement A) v w)"
| "perform A (Finish_connection v) w = ml_duckdb_finish_connection_close (session A) (statement A) v w"
| "perform A (Finalize_connection v) w = finalize_connection (session A) (statement A) v w"
| "perform A (Clear_work v) w = ml_duckdb_clear_work (statement A) v w"
| "perform A (Interrupt_connection v) w = ml_duckdb_interrupt (session A) v w"
| "perform A New_request w = state_of (ml_duckdb_native_request_create w)"
| "perform A (Cancel_request v) w = ml_duckdb_native_request_cancel v w"
| "perform A (Install_request x v) w = state_of (ml_duckdb_native_request_install x v w)"
| "perform A (Uninstall_request v) w = state_of (ml_duckdb_native_request_uninstall (session A) (statement A) v w)"
| "perform A (Reserve_delivery v) w = state_of (ml_duckdb_native_request_reserve_delivery v w)"
| "perform A (Deliver v) w = state_of (ml_duckdb_native_request_deliver (session A) v w)"
| "perform A (Retire_delivery v) w = ml_duckdb_native_request_retire_delivery v w"
| "perform A (Dispose_request v) w = state_of (ml_duckdb_native_request_dispose v w)"
| "perform A (Finalize_request v) w = finalize_native_request (session A) (statement A) v w"
| "perform A (Execute_sql v sql is_control) w = state_of (ml_duckdb_execute (statement A) v sql is_control w)"
| "perform A (Execute_control v s) w = state_of (ml_duckdb_execute_control (statement A) v s w)"
| "perform A (Admit_local_file v) w = state_of (ml_duckdb_admit_local_file v w)"
| "perform A (New_prepared v) w = state_of (ml_duckdb_prepared_owner v w)"
| "perform A (Prepare_sql v sql) w = state_of (ml_duckdb_prepare (statement A) v sql w)"
| "perform A (Execute_prepared v) w = state_of (ml_duckdb_execute_prepared (statement A) v w)"
| "perform A (Fetch_chunk v) w = state_of (ml_duckdb_fetch (statement A) (chunk A) v w)"
| "perform A (Close_result v) w = state_of (ml_duckdb_close_result (statement A) (chunk A) v w)"
| "perform A (Finish_result v) w = ml_duckdb_finish_result_close (statement A) (chunk A) v w"
| "perform A (Close_prepared v) w = state_of (ml_duckdb_close_prepared (statement A) (chunk A) v w)"
| "perform A (Finish_prepared v) w = ml_duckdb_finish_prepared_close (session A) (statement A) (chunk A) v w"
| "perform A (Finalize_prepared v) w = finalize_prepared (session A) (statement A) (chunk A) v w"
| "perform A (Clear_input v) w = ml_duckdb_clear_prepared_input v w"
| "perform A (Bind_null v i) w = state_of (ml_duckdb_bind_null (statement A) (binding A) v i w)"
| "perform A (Bind_int64 v i t x) w = state_of (ml_duckdb_bind_int64 (statement A) (binding A) v i t x w)"
| "perform A (Bind_float v i t x) w = state_of (ml_duckdb_bind_float (statement A) (binding A) (narrow A) v i t x w)"
| "perform A (Bind_string v i t text) w = state_of (ml_duckdb_bind_string (statement A) (binding A) v i t text w)"
| "perform A (Reset_bindings v) w = state_of (ml_duckdb_reset (statement A) (binding A) v w)"
| "perform A (New_appender v) w = state_of (ml_duckdb_appender_owner v w)"
| "perform A (Create_appender v schema table) w =
     state_of (ml_duckdb_create_appender (statement A) (chunk A) (appender A) v schema table w)"
| "perform A (Clear_stage v) w = ml_duckdb_clear_stage v w"
| "perform A (Stage_begin v rows) w = ml_duckdb_stage_begin (chunk A) (appender A) v rows w"
| "perform A (Stage_int64 v c r x) w = ml_duckdb_stage_int64 (chunk A) (appender A) v c r x w"
| "perform A (Stage_float v c r x) w = ml_duckdb_stage_float (chunk A) (appender A) (narrow A) v c r x w"
| "perform A (Stage_string v c r text) w = ml_duckdb_stage_string (chunk A) (appender A) v c r text w"
| "perform A (Stage_null v c r) w = ml_duckdb_stage_null (chunk A) (appender A) v c r w"
| "perform A (Stage_blit v c b at' n) w = ml_duckdb_stage_blit (chunk A) (appender A) v c b at' n w"
| "perform A (Stage_mask v c b at' n) w = ml_duckdb_stage_mask (chunk A) (appender A) v c b at' n w"
| "perform A (Append_staged v) w = state_of (ml_duckdb_append_staged (chunk A) (appender A) v w)"
| "perform A (Flush_appender v) w = state_of (ml_duckdb_flush_appender (appender A) v w)"
| "perform A (Close_appender v flush) w = state_of (ml_duckdb_close_appender (chunk A) (appender A) v flush w)"
| "perform A (Finish_appender v) w = ml_duckdb_finish_appender_close (session A) (statement A) (chunk A) (appender A) v w"
| "perform A (Finalize_appender v) w = finalize_appender (session A) (statement A) (chunk A) (appender A) v w"
| "perform A New_work w = state_of (ml_duckdb_local_file_work w)"
| "perform A (Publish_file v source destination) w = state_of (ml_duckdb_publish_local_file (files A) v source destination w)"
| "perform A (Publish_admitted c v source destination) w =
     state_of (ml_duckdb_publish_local_file_admitted (files A) c v source destination w)"
| "perform A (Remove_file v source) w = state_of (ml_duckdb_remove_local_file (files A) v source w)"
| "perform A (Finish_work v) w = ml_duckdb_finish_local_file_work (session A) (statement A) v w"
| "perform A (Finalize_work v) w = finalize_work (session A) (statement A) v w"

subsection \<open>The discipline of the safe layer\<close>

definition with_database :: "nat \<Rightarrow> (database_owner \<Rightarrow> bool) \<Rightarrow> 'e world \<Rightarrow> bool" where
  "with_database v P w = (case Database w v of None \<Rightarrow> False | Some d \<Rightarrow>
     (case databases w d of None \<Rightarrow> False | Some x \<Rightarrow> P x))"

definition with_connection :: "nat \<Rightarrow> (connection_owner \<Rightarrow> bool) \<Rightarrow> 'e world \<Rightarrow> bool" where
  "with_connection v P w = (case Connection w v of None \<Rightarrow> False | Some a \<Rightarrow>
     (case connections w a of None \<Rightarrow> False | Some c \<Rightarrow> P c))"

text \<open>A prepared statement of an open connection.\<close>

definition with_prepared :: "nat \<Rightarrow> (prepared_owner \<Rightarrow> bool) \<Rightarrow> 'e world \<Rightarrow> bool" where
  "with_prepared v P w = (case Prepared w v of None \<Rightarrow> False | Some p \<Rightarrow>
     (case prepareds w p of None \<Rightarrow> False | Some pr \<Rightarrow>
        P pr \<and> (case connections w (p_parent pr) of None \<Rightarrow> False | Some c \<Rightarrow> \<not> c_native_closing c)))"

text \<open>An appender of an open connection; a file work.\<close>

definition with_appender :: "nat \<Rightarrow> (appender_owner \<Rightarrow> bool) \<Rightarrow> 'e world \<Rightarrow> bool" where
  "with_appender v P w = (case Appender w v of None \<Rightarrow> False | Some p \<Rightarrow>
     (case appenders w p of None \<Rightarrow> False | Some x \<Rightarrow>
        P x \<and> (case connections w (a_parent x) of None \<Rightarrow> False | Some c \<Rightarrow> \<not> c_native_closing c)))"

definition with_work :: "nat \<Rightarrow> (file_work \<Rightarrow> bool) \<Rightarrow> 'e world \<Rightarrow> bool" where
  "with_work v P w = (case Work w v of None \<Rightarrow> False | Some k \<Rightarrow>
     (case works w k of None \<Rightarrow> False | Some x \<Rightarrow> P x))"

fun permitted :: "stub \<Rightarrow> 'e world \<Rightarrow> bool" where
  "permitted (Open_database v path threads memory read_only) w =
     with_database v (\<lambda>x. d_database x = None \<and> d_config x = None \<and> d_path x = None) w"
| "permitted (New_connection v) w = (Database w v \<noteq> None)"
| "permitted (Connect_connection v) w = with_connection v (\<lambda>c. \<not> c_native_closing c \<and> c_connection c = None) w"
| "permitted (Close_connection v) w = (Connection w v = None \<or> with_connection v (\<lambda>c. c_active_request c = None) w)"
| "permitted (Interrupt_connection v) w = (Connection w v \<noteq> None)"
| "permitted (Finalize_request v) w = (case Native_request w v of None \<Rightarrow> True | Some r \<Rightarrow>
     (case requests w r of None \<Rightarrow> False | Some q \<Rightarrow> r_owner q = None \<or> \<not> r_reserved q))"
| "permitted (Execute_sql v sql is_control) w = with_connection v (\<lambda>c. \<not> c_native_closing c \<and> no_work c) w"
| "permitted (Execute_control v s) w = with_connection v (\<lambda>c. \<not> c_native_closing c \<and> no_work c) w"
| "permitted (Admit_local_file v) w = with_connection v (\<lambda>c. \<not> c_native_closing c) w"
| "permitted (New_prepared v) w = (Connection w v \<noteq> None)"
| "permitted (Prepare_sql v sql) w = with_prepared v (\<lambda>pr. p_prepared pr = None \<and> p_extracted pr = None \<and> p_input pr = None) w"
| "permitted (Execute_prepared v) w = with_prepared v (\<lambda>pr. \<not> p_has_result pr) w"
| "permitted (Fetch_chunk v) w = with_prepared v (\<lambda>pr. True) w"
| "permitted (Bind_null v i) w = with_prepared v (\<lambda>pr. True) w"
| "permitted (Bind_int64 v i t x) w = with_prepared v (\<lambda>pr. True) w"
| "permitted (Bind_float v i t x) w = with_prepared v (\<lambda>pr. True) w"
| "permitted (Bind_string v i t text) w = with_prepared v (\<lambda>pr. p_input pr = None) w"
| "permitted (Reset_bindings v) w = with_prepared v (\<lambda>pr. True) w"
| "permitted (New_appender v) w = (Connection w v \<noteq> None)"
| "permitted (Create_appender v schema table) w = with_appender v (\<lambda>x. a_appender x = None \<and> a_schema x = None \<and> a_table x = None \<and>
     a_types x = None \<and> a_nullable x = None) w"
| "permitted (Stage_blit v c b at' n) w = (length (ba_bytes b) = caml_ba_byte_size b)"
| "permitted (Stage_mask v c b at' n) w = (length (ba_bytes b) = caml_ba_byte_size b)"
| "permitted (Append_staged v) w = (Appender w v = None \<or> with_appender v (\<lambda>x. True) w)"
| "permitted (Flush_appender v) w = with_appender v (\<lambda>x. True) w"
| "permitted (Close_appender v flush) w = (flush \<longrightarrow> Appender w v = None \<or> with_appender v (\<lambda>x. True) w)"
| "permitted (Publish_file v source destination) w = with_work v (\<lambda>x. f_source x = None \<and> f_destination x = None) w"
| "permitted (Publish_admitted c v source destination) w = (with_work v (\<lambda>x. f_source x = None \<and> f_destination x = None \<and> f_parent x = None) w \<and>
     with_connection c (\<lambda>c. \<not> c_native_closing c) w)"
| "permitted (Remove_file v source) w = with_work v (\<lambda>x. f_source x = None) w"
| "permitted _ w = True"

end
