(* ===== verification/Statement_Properties.thy ===== *)
theory Statement_Properties
  imports Samples Requests_Safety Binding
begin

text \<open>
  What execution does to the engine: nothing once the installed request is cancelled, except
  a ROLLBACK, which is always attempted; only statements of the allow-list; and the schema
  epoch advances on both sides of every schema change.
\<close>

subsection \<open>An idle connection\<close>

definition idle_at :: "nat \<Rightarrow> connection_owner \<Rightarrow> 'e world \<Rightarrow> bool" where
  "idle_at a c w \<longleftrightarrow> connections w a = Some c \<and> \<not> c_native_guard c \<and> \<not> c_foreign_active c \<and> c_cleanup_depth c = 0 \<and>
     \<not> c_native_closing c \<and> c_native_phase c = DUCKDB_ML_NATIVE_IDLE"

text \<open>No allocation fails and no asynchronous exception is pending.\<close>

definition undisturbed :: "'e world \<Rightarrow> bool" where
  "undisturbed w \<longleftrightarrow> w_oom w = [] \<and> w_pending w = []"

definition cancelled_at :: "connection_owner \<Rightarrow> 'e world \<Rightarrow> bool" where
  "cancelled_at c w \<longleftrightarrow> (\<exists>r q. c_active_request c = Some r \<and> requests w r = Some q \<and> r_cancelled q)"

lemma undisturbed_frame [simp]:
  "undisturbed (put_connection a c w) = undisturbed w" "undisturbed (put_prepared p pr w) = undisturbed w"
  "undisturbed (acquired w) = undisturbed w" "undisturbed (released w) = undisturbed w"
  by (simp_all add: undisturbed_def)

text \<open>The counter moves past the heaps, and an acquisition cancels a release.\<close>

lemma counter_moves:
  "(released w)\<lparr>connections := m\<rparr> = released (w\<lparr>connections := m\<rparr>)"
  "(acquired w)\<lparr>connections := m\<rparr> = acquired (w\<lparr>connections := m\<rparr>)"
  "(released w)\<lparr>prepareds := ps\<rparr> = released (w\<lparr>prepareds := ps\<rparr>)"
  "(acquired w)\<lparr>prepareds := ps\<rparr> = acquired (w\<lparr>prepareds := ps\<rparr>)"
  "released (acquired w) = w"
  by (simp_all add: released_def acquired_def)

lemmas run_guard = duckdb_ml_native_user_call_begin_def duckdb_ml_native_noninterruptible_call_begin_def guard_eqs
  set_status_def on_connection_def latched_def phase_of_def counter_moves

lemmas run_clear = clear_work_def clear_result_of_work_def clear_prepared_of_work_def clear_extracted_of_work_def
  clear_sql_of_work_def

lemmas run_outside = blocking_def pending_raises_def malloc_fails_def

lemmas run_prepared_defs = set_prepared_status_def on_prepared_def

subsection \<open>A cancelled request\<close>

text \<open>
  C25: once the request installed on a connection is cancelled, executing a statement, BEGIN
  and COMMIT do nothing but set the status CANCELLED: no call into the engine, no change of
  any other owner or counter, nothing left behind.
\<close>

theorem cancelled_connection_runs_nothing:
  assumes "idle_at a c w" and "no_work c" and "cancelled_at c w" and "undisturbed w" and "Connection w v = Some a"
    and "s = Begin \<or> s = Commit"
  shows "ml_duckdb_execute T v sql False w = Inr (Returned (), put_connection a (c\<lparr>c_status := DUCKDB_ML_STATUS_CANCELLED\<rparr>) w) \<and>
    ml_duckdb_execute_control T v s w = Inr (Returned (), put_connection a (c\<lparr>c_status := DUCKDB_ML_STATUS_CANCELLED\<rparr>) w)"
proof (cases c)
  case c: (fields references parent connection guard active phase closing foreign dirty depth sq extracted prep result has_result
      status msg)
  obtain r q where r: "active = Some r" "requests w r = Some q" "r_cancelled q"
    using assms(3) by (auto simp: cancelled_at_def c)
  note facts = assms [unfolded idle_at_def no_work_def undisturbed_def c, simplified] r
  show ?thesis
    using facts
    by (auto simp: ml_duckdb_execute_def ml_duckdb_execute_control_def execute_body_def execute_control_body_def run_guard run_clear run_outside c)
qed


subsection \<open>Transaction control\<close>

text \<open>No installed request is cancelled.\<close>

definition uncancelled_at :: "connection_owner \<Rightarrow> 'e world \<Rightarrow> bool" where
  "uncancelled_at c w \<longleftrightarrow> (\<forall>r. c_active_request c = Some r \<longrightarrow> (\<exists>q. requests w r = Some q \<and> \<not> r_cancelled q))"

lemma latched_uncancelled: "uncancelled_at c w \<Longrightarrow> latched (c_active_request c) w = Inr False"
  by (cases "c_active_request c") (auto simp: uncancelled_at_def latched_def)

lemma latched_frame:
  "latched r (w\<lparr>connections := m\<rparr>) = latched r w" "latched r (w\<lparr>prepareds := ps\<rparr>) = latched r w"
  "latched r (w\<lparr>w_engine := e\<rparr>) = latched r w" "latched r (w\<lparr>w_log := l\<rparr>) = latched r w"
  "latched r (w\<lparr>w_schema_epoch := x\<rparr>) = latched r w" "latched r (w\<lparr>w_live := n\<rparr>) = latched r w"
  "latched r (acquired w) = latched r w" "latched r (released w) = latched r w"
  by (cases r; simp add: latched_def)+

lemmas run_call = duckdb_ml_native_user_call_begin_def duckdb_ml_native_noninterruptible_call_begin_def guard_eqs
  set_status_def fail_with_def result_failed_def on_connection_def latched_frame phase_of_def call_def acquired_def released_def

text \<open>The phase a call the user waits for runs in.\<close>

definition user_phase :: "connection_owner \<Rightarrow> duckdb_ml_native_phase" where
  "user_phase c = (if c_active_request c = None then DUCKDB_ML_NATIVE_NONINTERRUPTIBLE else DUCKDB_ML_NATIVE_USER)"

text \<open>
  C24: a control statement reaches the engine exactly once, BEGIN and COMMIT in the phase in
  which they may be interrupted, ROLLBACK in a phase in which it may not and even if the
  request is cancelled. COMMIT and ROLLBACK settle the schema changes of the transaction:
  the epoch advances once more if there were any; after every control statement none are
  pending, and the status tells whether the engine succeeded.
\<close>

theorem control_statement_effect:
  assumes "idle_at a c w" and "no_work c" and "undisturbed w" and "Connection w v = Some a"
    and "s = Rollback \<or> uncancelled_at c w"
    and "duckdb_query T (c_connection c) (control_sql s) (w_engine w) = ((state, r), e)"
  shows "\<exists>w' c'. ml_duckdb_execute_control T v s w = Inr (Returned (), w') \<and> connections w' a = Some c' \<and>
    w_log w' = Engine a DUCKDB_ML_NATIVE_CLEANUP Destroy_result #
      (if s \<noteq> Begin \<and> c_schema_dirty c then [Epoch_advanced] else []) @
      Engine a (if s = Rollback then DUCKDB_ML_NATIVE_NONINTERRUPTIBLE else user_phase c) (Query (control_sql s)) # w_log w \<and>
    w_schema_epoch w' = w_schema_epoch w + (if s \<noteq> Begin \<and> c_schema_dirty c then 1 else 0) \<and>
    \<not> c_schema_dirty c' \<and> (c_status c' = DUCKDB_ML_STATUS_OK \<longleftrightarrow> state = DuckDBSuccess)"
proof (cases c)
  case c: (fields references parent connection guard active phase closing foreign dirty depth sq extracted prep result has_result
      status msg)
  have latch: "s \<noteq> Rollback \<Longrightarrow> latched active w = Inr False" using assms(5) latched_uncancelled by (force simp: c)
  note facts = assms [unfolded idle_at_def no_work_def undisturbed_def c, simplified] latch
  show ?thesis
    using facts
    by (cases s; cases state; cases dirty; cases "fst (duckdb_destroy_result T r e)"; cases "duckdb_destroy_result T r e")
      (simp_all add: ml_duckdb_execute_control_def execute_control_body_def query_into_def settle_schema_def
        duckdb_ml_schema_leave_def advance_epoch_def run_call run_clear run_outside c user_phase_def)
qed

subsection \<open>A statement\<close>

text \<open>
  What executing a text means, straight through: extract, exactly one statement, prepare,
  allow-list, execute. The events are the newest first; releases are not listed.
\<close>

definition reference_execute :: "'e statement_api \<Rightarrow> (engine_call \<Rightarrow> event) \<Rightarrow> nat option \<Rightarrow> string \<Rightarrow> 'e
    \<Rightarrow> duckdb_ml_status \<times> event list" where
  "reference_execute T ev h sql e =
     (case duckdb_extract_statements T h sql e of ((n, x), e1) \<Rightarrow>
      if x = None \<or> nonempty (duckdb_extract_statements_error T (the x) e1)
      then (DUCKDB_ML_STATUS_ERROR, [ev (Extract sql)])
      else if n \<noteq> 1 then (DUCKDB_ML_STATUS_UNSUPPORTED, [ev (Extract sql)])
      else case duckdb_prepare_extracted_statement T h x 0 e1 of ((prepared, p), e2) \<Rightarrow>
      let t = duckdb_prepared_statement_type T p e2 in
      if prepared = DuckDBError then (DUCKDB_ML_STATUS_ERROR, [ev Prepare, ev (Extract sql)])
      else if \<not> duckdb_ml_allowed_statement t
      then (DUCKDB_ML_STATUS_UNSUPPORTED, [ev Prepare, ev (Extract sql)])
      else (if fst (fst (duckdb_execute_prepared T p e2)) = DuckDBSuccess then DUCKDB_ML_STATUS_OK else DUCKDB_ML_STATUS_ERROR,
            (if statement_changes_schema t then [Epoch_advanced, ev (Execute t), Epoch_advanced] else [ev (Execute t)])
              @ [ev Prepare, ev (Extract sql)]))"

definition release_event :: "event \<Rightarrow> bool" where
  "release_event x = (case x of Engine a ph k \<Rightarrow> destructor k | Epoch_advanced \<Rightarrow> False)"

lemma release_event_simps [simp]:
  "release_event (Engine a ph k) = destructor k" "\<not> release_event Epoch_advanced"
  by (simp_all add: release_event_def)

text \<open>
  The releases that follow a statement neither change the status nor add events. \<open>settling\<close>
  describes the connection from the start of the cleanup on: \<open>k\<close> is the cleanup depth.
\<close>

definition settling :: "nat \<Rightarrow> duckdb_ml_status \<Rightarrow> event list \<Rightarrow> 32 word \<Rightarrow> 'e world \<Rightarrow> bool" where
  "settling a s events k w \<longleftrightarrow> w_pending w = [] \<and> filter (\<lambda>x. \<not> release_event x) (w_log w) = events \<and>
     (\<exists>c. connections w a = Some c \<and> \<not> c_native_guard c \<and> c_foreign_active c \<and> c_cleanup_depth c = k \<and> c_status c = s)"

lemma settling_engine [simp]:
  "destructor k \<Longrightarrow> settling a s events n (w\<lparr>w_engine := e, w_log := Engine b ph k # w_log w\<rparr>) = settling a s events n w"
  by (simp add: settling_def)

lemma settling_counter [simp]: "settling a s events n (released w) = settling a s events n w"
  by (simp add: settling_def)

lemma settling_call:
  assumes "settling a s events n w" and "destructor k"
    and "\<And>r c. c_native_guard (g r c) = c_native_guard c \<and> c_foreign_active (g r c) = c_foreign_active c \<and>
      c_cleanup_depth (g r c) = c_cleanup_depth c \<and> c_status (g r c) = c_status c"
  shows "runs (bind (call a k f w) (\<lambda>(r, w). bind (on_connection a (g r) w) (\<lambda>w. Inr (released w)))) (settling a s events n)"
  using assms by (auto simp: settling_def call_def on_connection_def split: prod.splits)

lemma settling_result: "settling a s events n w \<Longrightarrow> runs (clear_result_of_work T a w) (settling a s events n)"
  unfolding clear_result_of_work_def
  by (rule runs_bindI [where P = "\<lambda>c. connections w a = Some c"], force simp: settling_def, rule runs_cond, rule settling_call, simp_all)

lemma settling_prepared: "settling a s events n w \<Longrightarrow> runs (clear_prepared_of_work T a w) (settling a s events n)"
  unfolding clear_prepared_of_work_def
  by (rule runs_bindI [where P = "\<lambda>c. connections w a = Some c"], force simp: settling_def, rule runs_option, simp, rule settling_call, simp_all)

lemma settling_extracted: "settling a s events n w \<Longrightarrow> runs (clear_extracted_of_work T a w) (settling a s events n)"
  unfolding clear_extracted_of_work_def
  by (rule runs_bindI [where P = "\<lambda>c. connections w a = Some c"], force simp: settling_def, rule runs_option, simp, rule settling_call, simp_all)

lemma settling_sql: "settling a s events n w \<Longrightarrow> runs (clear_sql_of_work a w) (settling a s events n)"
  by (auto simp: clear_sql_of_work_def on_connection_def settling_def split: option.splits)

lemma settling_begin:
  "settling a s events n w \<Longrightarrow> n + 1 \<noteq> 0 \<Longrightarrow> runs (duckdb_ml_native_cleanup_begin a DUCKDB_ML_RUNTIME_RELEASED w) (settling a s events (n + 1))"
  by (auto simp: settling_def cleanup_begin_eq)

lemma settling_end:
  "settling a s events (n + 1) w \<Longrightarrow> n + 1 \<noteq> 0 \<Longrightarrow> runs (duckdb_ml_native_cleanup_end a DUCKDB_ML_RUNTIME_RELEASED w) (settling a s events n)"
  by (auto simp: settling_def cleanup_end_eq)

lemmas settling_steps = settling_begin settling_result settling_prepared settling_extracted settling_sql

lemma settled:
  assumes "settling a s events 1 w"
  shows "runs (bind (clear_work T (Some a) DUCKDB_ML_RUNTIME_RELEASED w) (\<lambda>w.
     bind (duckdb_ml_native_cleanup_end a DUCKDB_ML_RUNTIME_RELEASED w) (\<lambda>w.
     bind (duckdb_ml_native_work_end a w) (\<lambda>w. Inr ((), w))))) (\<lambda>(x, w). w_pending w = [] \<and>
       filter (\<lambda>x. \<not> release_event x) (w_log w) = events \<and> (\<exists>c. connections w a = Some c \<and> c_status c = s))"
proof -
  have "runs (clear_work T (Some a) DUCKDB_ML_RUNTIME_RELEASED w) (settling a s events 1)"
    unfolding clear_work_def option.case
    by (rule runs_bindI, rule settling_begin [OF assms], simp)
      ((rule runs_bindI, (rule settling_steps; simp))+, rule settling_end, simp_all)
  then show ?thesis
    by (rule runs_bindI) (rule runs_bindI, rule settling_end [where n = 0 and s = s and events = events], auto simp: settling_def work_end_eq)
qed

text \<open>One call after another of the statement, each admitted.\<close>

lemma executed_statement:
  assumes c: "connections w a = Some c" and "\<not> c_native_guard c" and "c_foreign_active c" and "c_cleanup_depth c = 0"
    and "c_native_phase c = u" and "c_status c = DUCKDB_ML_STATUS_OK" and "w_pending w = []"
    and "duckdb_execute_prepared T (c_prepared c) (w_engine w) = ((executed, r), e)"
    and "t = duckdb_prepared_statement_type T (c_prepared c) (w_engine w)"
  shows "runs (execute_admitted T a w) (\<lambda>(started, w'). started \<and>
    settling a (if executed = DuckDBSuccess then DUCKDB_ML_STATUS_OK else DUCKDB_ML_STATUS_ERROR)
      ((if statement_changes_schema t then [Epoch_advanced, Engine a u (Execute t), Epoch_advanced] else [Engine a u (Execute t)])
        @ filter (\<lambda>x. \<not> release_event x) (w_log w)) 1 w')"
  using assms
  by (cases c) (auto simp: execute_admitted_def duckdb_ml_schema_enter_def duckdb_ml_changes_schema_def
      duckdb_ml_schema_leave_def advance_epoch_def run_call settling_def)

lemma prepared_statement:
  assumes c: "connections w a = Some c" and "\<not> c_native_guard c" and "c_foreign_active c" and "c_cleanup_depth c = 0"
    and "\<not> c_native_closing c" and "c_native_phase c = user_phase c" and "c_status c = DUCKDB_ML_STATUS_OK" and "w_pending w = []"
    and "latched (c_active_request c) w = Inr False"
    and "duckdb_prepare_extracted_statement T (c_connection c) (c_extracted c) 0 (w_engine w) = ((prepared, p), e)"
    and "duckdb_execute_prepared T p e = ((executed, r), e')"
    and "t = duckdb_prepared_statement_type T p e" and "u = user_phase c"
  shows "runs (prepare_and_execute T a w) (\<lambda>(started, w').
    settling a (if prepared = DuckDBError then DUCKDB_ML_STATUS_ERROR else if \<not> duckdb_ml_allowed_statement t
        then DUCKDB_ML_STATUS_UNSUPPORTED else if executed = DuckDBSuccess then DUCKDB_ML_STATUS_OK else DUCKDB_ML_STATUS_ERROR)
      ((if prepared = DuckDBError \<or> \<not> duckdb_ml_allowed_statement t then []
        else if statement_changes_schema t then [Epoch_advanced, Engine a u (Execute t), Epoch_advanced] else [Engine a u (Execute t)])
        @ Engine a u Prepare # filter (\<lambda>x. \<not> release_event x) (w_log w)) (if started then 1 else 0) w')"
proof (cases c)
  case c: (fields references parent connection guard active phase closing foreign dirty depth sq extracted prep result has_result st msg)
  note facts = assms [unfolded c, simplified]
  show ?thesis
  proof (cases "prepared = DuckDBError \<or> \<not> duckdb_ml_allowed_statement t")
    case True
    then show ?thesis
      using facts by (cases p; cases prepared) (auto simp: prepare_and_execute_def run_call settling_def user_phase_def c)
  next
    case False
    then have "prepared = DuckDBSuccess" by (cases prepared) auto
    with False show ?thesis
      using facts by (cases p)
       (auto simp: prepare_and_execute_def run_call user_phase_def c intro!: runs_conseq [OF executed_statement])
  qed
qed

lemma extracted_statement:
  assumes c: "connections w a = Some c" and "\<not> c_native_guard c" and "c_foreign_active c" and "c_cleanup_depth c = 0"
    and "\<not> c_native_closing c" and "c_native_phase c = user_phase c" and "c_status c = DUCKDB_ML_STATUS_OK" and "w_pending w = []"
    and "latched (c_active_request c) w = Inr False" and "c_sql c = Some sql" and "u = user_phase c"
    and "reference_execute T (Engine a u) (c_connection c) (c_string sql) (w_engine w) = (status, events)"
  shows "runs (extract_and_execute T a w) (\<lambda>(started, w').
    settling a status (events @ filter (\<lambda>x. \<not> release_event x) (w_log w)) (if started then 1 else 0) w')"
proof (cases c)
  case c: (fields references parent connection guard active phase closing foreign dirty depth sq extracted prep result has_result st msg)
  obtain n x e1 where extraction: "duckdb_extract_statements T connection (c_string sql) (w_engine w) = ((n, x), e1)"
    by (metis prod.collapse)
  obtain prepared p e2 where preparation: "duckdb_prepare_extracted_statement T connection x 0 e1 = ((prepared, p), e2)"
    by (metis prod.collapse)
  obtain executed r e3 where execution: "duckdb_execute_prepared T p e2 = ((executed, r), e3)"
    by (metis prod.collapse)
  note facts = assms [unfolded c, simplified] extraction preparation execution
  show ?thesis
  proof (cases "x = None \<or> nonempty (duckdb_extract_statements_error T (the x) e1) \<or> n \<noteq> 1")
    case True
    then show ?thesis
      using facts by (cases x)
        (auto simp: reference_execute_def extract_and_execute_def run_call settling_def user_phase_def c nonempty_def c_string_def split: if_splits)
  next
    case False
    then obtain h where "x = Some h" "\<not> nonempty (duckdb_extract_statements_error T h e1)" "n = 1" by auto
    then show ?thesis
      using facts
      by (auto simp: reference_execute_def extract_and_execute_def run_call user_phase_def c Let_def
          intro!: runs_conseq [OF prepared_statement [where T = T and prepared = prepared and p = p and e = e2]] split: if_splits)
  qed
qed

text \<open>
  C23: an uncancelled execution does what the reference does: the same calls reach the engine
  in the same order, in the phase in which they may be interrupted, so that one text executes
  at most one statement, of the allow-list, with the epoch advanced before and after a schema
  change; the status is the reference's.
\<close>

theorem execute_meets_reference:
  assumes "idle_at a c w" and "no_work c" and "undisturbed w" and "Connection w v = Some a" and "uncancelled_at c w"
    and "reference_execute T (Engine a (user_phase c)) (c_connection c) (c_string sql) (w_engine w) = (status, events)"
  shows "\<exists>w' c'. ml_duckdb_execute T v sql False w = Inr (Returned (), w') \<and> connections w' a = Some c' \<and>
    c_status c' = status \<and> filter (\<lambda>x. \<not> release_event x) (w_log w') = events @ filter (\<lambda>x. \<not> release_event x) (w_log w)"
proof (cases c)
  case c: (fields references parent connection guard active phase closing foreign dirty depth sq extracted prep result has_result
      st msg)
  have latch: "latched active w = Inr False" using latched_uncancelled [OF assms(5)] by (simp add: c)
  note facts = assms [unfolded idle_at_def no_work_def undisturbed_def c, simplified] latch
  define c1 where "c1 = c\<lparr>c_sql := Some sql, c_foreign_active := True, c_native_phase := user_phase c, c_status := DUCKDB_ML_STATUS_OK\<rparr>"
  let ?w1 = "put_connection a c1 (acquired w)"
  have "runs (extract_and_execute T a ?w1) (\<lambda>(started, w').
      settling a status (events @ filter (\<lambda>x. \<not> release_event x) (w_log ?w1)) (if started then 1 else 0) w')"
    by (rule extracted_statement [where c = c1 and u = "user_phase c" and sql = sql]) (use facts in \<open>simp_all add: c1_def c user_phase_def latched_frame\<close>)
  then obtain started w2 where w2: "extract_and_execute T a ?w1 = Inr (started, w2)"
    "settling a status (events @ filter (\<lambda>x. \<not> release_event x) (w_log w)) (if started then 1 else 0) w2"
    by (auto simp: runs_exists)
  obtain w3 where w3: "(if started then Inr w2 else duckdb_ml_native_cleanup_begin a DUCKDB_ML_RUNTIME_RELEASED w2) = Inr w3"
    "settling a status (events @ filter (\<lambda>x. \<not> release_event x) (w_log w)) 1 w3"
    using w2(2) settling_begin [of a status _ 0 w2] by (cases started) (auto simp: runs_exists)
  have "execute_body T a False (acquired (put_connection a (c\<lparr>c_sql := Some sql\<rparr>) w)) =
      bind (clear_work T (Some a) DUCKDB_ML_RUNTIME_RELEASED w3) (\<lambda>w.
      bind (duckdb_ml_native_cleanup_end a DUCKDB_ML_RUNTIME_RELEASED w) (\<lambda>w.
      bind (duckdb_ml_native_work_end a w) (\<lambda>w. Inr ((), w))))"
    using facts w2(1) w3(1)
    by (auto simp: execute_body_def run_guard latched_frame user_phase_def c c1_def)
  then show ?thesis
    using settled [OF w3(2), of T] facts
    by (auto simp: ml_duckdb_execute_def on_connection_def run_outside c runs_exists)
qed

subsection \<open>Instances\<close>

definition sample_bindings :: "nat bind_api" where
  "sample_bindings = \<lparr>duckdb_bind_null = \<lambda>s i e. (DuckDBSuccess, e), duckdb_bind_boolean = \<lambda>s i x e. (DuckDBSuccess, e),
     duckdb_bind_int8 = \<lambda>s i x e. (DuckDBSuccess, e), duckdb_bind_int16 = \<lambda>s i x e. (DuckDBSuccess, e),
     duckdb_bind_int32 = \<lambda>s i x e. (DuckDBSuccess, e), duckdb_bind_int64 = \<lambda>s i x e. (DuckDBSuccess, e),
     duckdb_bind_date = \<lambda>s i x e. (DuckDBSuccess, e), duckdb_bind_timestamp = \<lambda>s i x e. (DuckDBSuccess, e),
     duckdb_bind_timestamp_tz = \<lambda>s i x e. (DuckDBSuccess, e),
     duckdb_create_timestamp_s = \<lambda>x e. (Some e, Suc e), duckdb_create_timestamp_ms = \<lambda>x e. (Some e, Suc e),
     duckdb_create_timestamp_ns = \<lambda>x e. (Some e, Suc e), duckdb_bind_value = \<lambda>s i h e. (DuckDBSuccess, e),
     duckdb_destroy_value = \<lambda>h e. ((), e), duckdb_bind_float = \<lambda>s i x e. (DuckDBSuccess, e),
     duckdb_bind_double = \<lambda>s i x e. (DuckDBSuccess, e), duckdb_bind_blob = \<lambda>s i text e. (DuckDBSuccess, e),
     duckdb_bind_varchar_length = \<lambda>s i text e. (DuckDBSuccess, e), duckdb_clear_bindings = \<lambda>s e. (DuckDBSuccess, e)\<rparr>"

lemma sample_idle: "idle_at 3 sample_connection (sample_world b)"
  by (simp add: idle_at_def sample_defs)

lemma sample_undisturbed: "undisturbed (sample_world b)"
  by (simp add: undisturbed_def sample_defs)

lemma sample_no_work: "no_work sample_connection"
  by (simp add: no_work_def sample_defs)

lemma sample_cancelled: "cancelled_at sample_connection (sample_world True)"
  by (simp add: cancelled_at_def sample_defs)

lemma sample_uncancelled: "uncancelled_at sample_connection (sample_world False)"
  by (simp add: uncancelled_at_def sample_defs)

lemma sample_slot: "Connection (sample_world b) 11 = Some 3"
  by (simp add: sample_defs)

lemma cancelled_connection_witness:
  "\<exists>w'. ml_duckdb_execute sample_statements 11 ''select 1'' False (sample_world True) = Inr (Returned (), w') \<and>
     w_log w' = [] \<and> map_option c_status (connections w' 3) = Some DUCKDB_ML_STATUS_CANCELLED"
  using cancelled_connection_runs_nothing [OF sample_idle sample_no_work sample_cancelled sample_undisturbed sample_slot
      disjI1 [OF refl], of sample_statements "''select 1''"]
  by (simp add: sample_world_def)


lemma control_statement_witness:
  "\<exists>w'. ml_duckdb_execute_control sample_statements 11 Begin (sample_world False) = Inr (Returned (), w') \<and>
     w_log w' = [Engine 3 DUCKDB_ML_NATIVE_CLEANUP Destroy_result, Engine 3 DUCKDB_ML_NATIVE_USER (Query (control_sql Begin))]"
  using control_statement_effect [OF sample_idle sample_no_work sample_undisturbed sample_slot disjI2 [OF sample_uncancelled],
      of sample_statements Begin DuckDBSuccess 94 95]
  by (auto simp: sample_statements_def user_phase_def) (auto simp: sample_defs)

lemma sample_reference:
  "reference_execute sample_statements (Engine 3 (user_phase sample_connection)) (c_connection sample_connection)
     (c_string ''create'') (w_engine (sample_world False)) = (DUCKDB_ML_STATUS_OK,
     [Epoch_advanced, Engine 3 DUCKDB_ML_NATIVE_USER (Execute DUCKDB_STATEMENT_TYPE_CREATE), Epoch_advanced,
      Engine 3 DUCKDB_ML_NATIVE_USER Prepare, Engine 3 DUCKDB_ML_NATIVE_USER (Extract ''create'')])"
  by (simp add: reference_execute_def sample_statements_def user_phase_def sample_connection_def nonempty_def c_string_def)

lemma execute_reference_witness:
  "\<exists>w'. ml_duckdb_execute sample_statements 11 ''create'' False (sample_world False) = Inr (Returned (), w') \<and>
     filter (\<lambda>x. \<not> release_event x) (w_log w') =
     [Epoch_advanced, Engine 3 DUCKDB_ML_NATIVE_USER (Execute DUCKDB_STATEMENT_TYPE_CREATE), Epoch_advanced,
      Engine 3 DUCKDB_ML_NATIVE_USER Prepare, Engine 3 DUCKDB_ML_NATIVE_USER (Extract ''create'')]"
  using execute_meets_reference [OF sample_idle sample_no_work sample_undisturbed sample_slot sample_uncancelled sample_reference]
  by (auto simp: sample_world_def)

end
