(* ===== verification/Staging_Properties.thy ===== *)
theory Staging_Properties
  imports Statement_Properties
begin

text \<open>
  Staging writes rows into the engine's chunks. \<open>staging_ok\<close> is what the batch's bookkeeping
  promises, \<open>memory_law\<close> what a memory does: a stored byte is read back and nothing else
  changes. Under both, staging a value never faults, writes only its own place, and the
  reader of \<open>Views\<close> gets the value back.
\<close>

subsection \<open>Rows and chunks\<close>

lemma staged_chunks_le:
  assumes "0 < per"
  shows "k < staged_chunks per rows \<longleftrightarrow> k * per < rows"
proof -
  have "k < staged_chunks per rows \<longleftrightarrow> Suc k * per \<le> rows + per - 1"
    using less_eq_div_iff_mult_less_eq [OF assms, of "Suc k" "rows + per - 1"] by (simp add: staged_chunks_def Suc_le_eq)
  then show ?thesis using assms by auto
qed

lemma staged_size_eq:
  assumes "0 < per" and "k < staged_chunks per rows"
  shows "staged_size per rows k = min per (rows - k * per)"
proof (cases "Suc k < staged_chunks per rows")
  case True
  then have "per + k * per < rows" using staged_chunks_le [OF assms(1), of "Suc k" rows] by simp
  then have "per \<le> rows - k * per" by linarith
  then show ?thesis using True by (simp add: staged_size_def)
next
  case False
  then have "rows \<le> per + k * per" using staged_chunks_le [OF assms(1), of "Suc k" rows] by simp
  then have "rows - k * per \<le> per" by linarith
  then show ?thesis using False by (simp add: staged_size_def)
qed

lemma sum_staged_size: "0 < per \<Longrightarrow> n \<le> staged_chunks per rows \<Longrightarrow> (\<Sum>k<n. staged_size per rows k) = min (n * per) rows"
proof (induction n)
  case (Suc n)
  then have n: "n < staged_chunks per rows" by simp
  then have "n * per < rows" using staged_chunks_le [OF Suc.prems(1), of n rows] by simp
  moreover have "(\<Sum>k<n. staged_size per rows k) = min (n * per) rows" using Suc n by simp
  moreover have "staged_size per rows n = min per (rows - n * per)" by (rule staged_size_eq [OF Suc.prems(1) n])
  ultimately show ?case by (auto simp: min_def)
qed simp



subsection \<open>Bytes of a word\<close>

lemma le_bytes_length [simp]: "length (le_bytes (x :: 'a::len word)) = LENGTH('a) div 8"
  by (simp add: le_bytes_def)

lemma le_word_le_bytes:
  assumes "8 dvd LENGTH('a)"
  shows "le_word (le_bytes (x :: 'a::len word)) = x"
proof (rule bit_word_eqI)
  fix n
  assume n: "n < LENGTH('a)"
  obtain m where m: "LENGTH('a) = 8 * m" using assms by (auto simp: dvd_def)
  have "n div 8 < m" using n m by simp
  then show "bit (le_word (le_bytes x) :: 'a word) n = bit x n"
    using n m by (simp add: bit_le_word le_bytes_def bit_ucast_iff bit_drop_bit_eq)
qed

text \<open>The bytes of a narrowed value are the low bytes of the value.\<close>

lemma le_bytes_ucast:
  "LENGTH('b::len) \<le> LENGTH('a::len) \<Longrightarrow>
   le_bytes (ucast (x :: 'a word) :: 'b word) = map (\<lambda>k. ucast (drop_bit (8 * k) x)) [0..<LENGTH('b) div 8]"
  by (auto simp: le_bytes_def intro!: bit_word_eqI) (auto simp: bit_ucast_iff bit_drop_bit_eq)

subsection \<open>The engine's memory\<close>

text \<open>A store to mapped memory changes that byte and nothing else.\<close>

definition memory_law :: "'e chunk_api \<Rightarrow> 'e appender_api \<Rightarrow> bool" where
  "memory_law C A \<longleftrightarrow> (\<forall>e addr b. mapped C e addr \<noteq> None \<longrightarrow>
     mapped C (store A addr b e) = (mapped C e)(addr \<mapsto> b) \<and>
     (\<forall>h c. duckdb_data_chunk_get_vector C h c (store A addr b e) = duckdb_data_chunk_get_vector C h c e) \<and>
     (\<forall>x. duckdb_vector_get_data C x (store A addr b e) = duckdb_vector_get_data C x e))"

primrec stores :: "'e appender_api \<Rightarrow> nat \<Rightarrow> 8 word list \<Rightarrow> 'e \<Rightarrow> 'e" where
  "stores A addr [] e = e"
| "stores A addr (b # bs) e = stores A (Suc addr) bs (store A addr b e)"

lemma poke_stores:
  assumes "memory_law C A" and "readable_range (mapped C (w_engine w)) addr (length bs)"
  shows "poke C A addr bs w = Inr (w\<lparr>w_engine := stores A addr bs (w_engine w)\<rparr>)"
  using assms(2)
proof (induction bs arbitrary: addr w)
  case (Cons b bs)
  have here: "mapped C (w_engine w) addr \<noteq> None" using Cons.prems by (force simp: readable_range_def)
  have later: "mapped C (w_engine w) (Suc addr + k) \<noteq> None" if "k < length bs" for k
    using Cons.prems that by (force simp: readable_range_def dest: spec [of _ "Suc k"])
  have "readable_range (mapped C (store A addr b (w_engine w))) (Suc addr) (length bs)"
    using later assms(1) here by (auto simp: readable_range_def memory_law_def)
  with here show ?case using Cons.IH [of "w\<lparr>w_engine := store A addr b (w_engine w)\<rparr>" "Suc addr"] by auto
qed simp

lemma stores_memory:
  assumes "memory_law C A" and "readable_range (mapped C e) addr (length bs)"
  shows "mapped C (stores A addr bs e) = (\<lambda>k. if addr \<le> k \<and> k < addr + length bs then Some (bs ! (k - addr)) else mapped C e k)"
    and "duckdb_data_chunk_get_vector C h c (stores A addr bs e) = duckdb_data_chunk_get_vector C h c e"
    and "duckdb_vector_get_data C x (stores A addr bs e) = duckdb_vector_get_data C x e"
proof -
  have "mapped C (stores A addr bs e) = (\<lambda>k. if addr \<le> k \<and> k < addr + length bs then Some (bs ! (k - addr)) else mapped C e k) \<and>
    duckdb_data_chunk_get_vector C h c (stores A addr bs e) = duckdb_data_chunk_get_vector C h c e \<and>
    duckdb_vector_get_data C x (stores A addr bs e) = duckdb_vector_get_data C x e"
    using assms(2)
  proof (induction bs arbitrary: addr e)
    case (Cons b bs)
    have here: "mapped C e addr \<noteq> None" using Cons.prems by (force simp: readable_range_def)
    note law = assms(1) [unfolded memory_law_def, rule_format, OF here]
    have later: "mapped C e (Suc addr + k) \<noteq> None" if "k < length bs" for k
      using Cons.prems that by (force simp: readable_range_def dest: spec [of _ "Suc k"])
    have "readable_range (mapped C (store A addr b e)) (Suc addr) (length bs)"
      using later law by (auto simp: readable_range_def)
    from Cons.IH [OF this] law show ?case by (auto simp: fun_eq_iff nth_Cons' Suc_le_eq)
  qed (auto simp: fun_eq_iff)
  then show "mapped C (stores A addr bs e) = (\<lambda>k. if addr \<le> k \<and> k < addr + length bs then Some (bs ! (k - addr)) else mapped C e k)"
    "duckdb_data_chunk_get_vector C h c (stores A addr bs e) = duckdb_data_chunk_get_vector C h c e"
    "duckdb_vector_get_data C x (stores A addr bs e) = duckdb_vector_get_data C x e" by blast+
qed

subsection \<open>The batch's bookkeeping\<close>

text \<open>The bytes of an element of a staged vector.\<close>

definition staged_width :: "'e chunk_api \<Rightarrow> duckdb_type \<Rightarrow> nat" where
  "staged_width C t = (if t = DUCKDB_TYPE_VARCHAR \<or> t = DUCKDB_TYPE_BLOB then sizeof_duckdb_string_t C else duckdb_ml_type_width t)"

text \<open>
  \<open>H\<close> are the handles of chunks of the appender's columns: creating one gives such a handle
  or fails, and its vectors have memory for a full vector of elements.
\<close>

definition chunk_vectors :: "'e chunk_api \<Rightarrow> 'e appender_api \<Rightarrow> duckdb_type list \<Rightarrow> nat set \<Rightarrow> bool" where
  "chunk_vectors C A ts H \<longleftrightarrow>
     (\<forall>h\<in>H. \<forall>e. \<forall>c<length ts. let d = duckdb_vector_get_data C (duckdb_data_chunk_get_vector C (Some h) c e) e
        in d \<noteq> 0 \<and> readable_range (mapped C e) d (duckdb_vector_size A * staged_width C (ts ! c)))"

definition engine_chunks :: "'e chunk_api \<Rightarrow> 'e appender_api \<Rightarrow> duckdb_type list \<Rightarrow> nat set \<Rightarrow> bool" where
  "engine_chunks C A ts H \<longleftrightarrow>
     (\<forall>logical e. case fst (duckdb_create_data_chunk A logical (length ts) e) of None \<Rightarrow> True | Some h \<Rightarrow> h \<in> H) \<and>
     chunk_vectors C A ts H"

lemma engine_chunk_vectors: "engine_chunks C A ts H \<Longrightarrow> chunk_vectors C A ts H"
  by (simp add: engine_chunks_def)

definition staging_ok :: "'e appender_api \<Rightarrow> duckdb_type list \<Rightarrow> nat set \<Rightarrow> appender_owner \<Rightarrow> bool" where
  "staging_ok A ts H x \<longleftrightarrow> a_types x = Some ts \<and> a_columns x = length ts \<and>
     a_staged_rows x \<le> a_staged_capacity x * duckdb_vector_size A \<and>
     (case a_staged x of None \<Rightarrow> a_staged_capacity x = 0
      | Some slots \<Rightarrow> a_staged_capacity x \<le> length slots \<and> (\<forall>k<a_staged_capacity x. \<exists>h\<in>H. slots ! k = Some h))"

lemma staging_chunk:
  assumes "staging_ok A ts H x" and "k < a_staged_capacity x"
  obtains h where "h \<in> H" and "staged_chunk x k = Inr h"
  using assms by (force simp: staging_ok_def staged_chunk_def split: option.splits)

text \<open>Where a row of a column is staged.\<close>

definition staged_vector :: "'e chunk_api \<Rightarrow> 'e appender_api \<Rightarrow> appender_owner \<Rightarrow> nat \<Rightarrow> nat \<Rightarrow> 'e \<Rightarrow> nat" where
  "staged_vector C A x c r e = duckdb_data_chunk_get_vector C (the (a_staged x) ! (r div duckdb_vector_size A)) c e"

definition staged_data :: "'e chunk_api \<Rightarrow> 'e appender_api \<Rightarrow> appender_owner \<Rightarrow> nat \<Rightarrow> nat \<Rightarrow> 'e \<Rightarrow> nat" where
  "staged_data C A x c r e = duckdb_vector_get_data C (staged_vector C A x c r e) e"

lemma staged_place:
  assumes "staging_ok A ts H x" and "chunk_vectors C A ts H" and "0 < duckdb_vector_size A" and "c < length ts" and "r < a_staged_rows x"
  shows "slot C A (Some x) (int c) (int r) w =
      Inr (Some (staged_vector C A x c r (w_engine w), r mod duckdb_vector_size A, staged_data C A x c r (w_engine w)))"
    and "readable_range (mapped C e) (staged_data C A x c r e) (duckdb_vector_size A * staged_width C (ts ! c))"
proof -
  have "r div duckdb_vector_size A < a_staged_capacity x"
    using assms(1,3,5) by (auto simp: staging_ok_def less_mult_imp_div_less)
  moreover from staging_chunk [OF assms(1) this] obtain h where h: "h \<in> H" "staged_chunk x (r div duckdb_vector_size A) = Inr h" .
  ultimately have "the (a_staged x) ! (r div duckdb_vector_size A) = Some h"
    using assms(1) by (auto simp: staged_chunk_def staging_ok_def split: option.splits)
  moreover have "\<forall>e. let d = duckdb_vector_get_data C (duckdb_data_chunk_get_vector C (Some h) c e) e
        in d \<noteq> 0 \<and> readable_range (mapped C e) d (duckdb_vector_size A * staged_width C (ts ! c))"
    using assms(2,4) h(1) by (auto simp: chunk_vectors_def)
  ultimately show "slot C A (Some x) (int c) (int r) w =
      Inr (Some (staged_vector C A x c r (w_engine w), r mod duckdb_vector_size A, staged_data C A x c r (w_engine w)))"
    and "readable_range (mapped C e) (staged_data C A x c r e) (duckdb_vector_size A * staged_width C (ts ! c))"
    using h(2) assms(1,4,5) by (auto simp: slot_def staged_vector_def staged_data_def staging_ok_def Let_def)
qed

text \<open>A call at any other column or row does nothing.\<close>

lemma slot_outside:
  "staging_ok A ts H x \<Longrightarrow> \<not> (0 \<le> c \<and> nat c < length ts \<and> 0 \<le> r \<and> nat r < a_staged_rows x) \<Longrightarrow> slot C A (Some x) c r w = Inr None"
  by (auto simp: slot_def staging_ok_def)

subsection \<open>Staging a value\<close>

lemma load_cong: "(\<And>k. k < n \<Longrightarrow> m (addr + k) = m' (addr + k)) \<Longrightarrow> load m addr n = load m' addr n"
proof (induction n arbitrary: addr)
  case (Suc n)
  have "load m (Suc addr) n = load m' (Suc addr) n"
    by (rule Suc.IH) (use Suc.prems in \<open>metis Suc_less_eq add_Suc_shift\<close>)
  then show ?case using Suc.prems [of 0] by (simp add: deref_def)
qed simp

text \<open>Elements do not overlap.\<close>

lemma element_apart:
  assumes "i * n \<le> j * n + k" and "j * n + k < i * n + n" and "k < n"
  shows "j = (i :: nat)"
proof -
  have "(j * n + k) div n = j" using assms(3) by simp
  moreover have "(j * n + k) div n = i" using assms by (intro div_nat_eqI) (auto simp: mult.commute)
  ultimately show ?thesis by simp
qed

definition integral :: "duckdb_type \<Rightarrow> bool" where
  "integral t \<longleftrightarrow> (\<exists>kind. stage_kind t = Some kind) \<and> t \<noteq> DUCKDB_TYPE_FLOAT \<and> t \<noteq> DUCKDB_TYPE_DOUBLE"

lemma int64_bytes_narrow:
  assumes "integral t" and "LENGTH('a::len) = 8 * duckdb_ml_type_width t"
  shows "int64_bytes t x = le_bytes (if t = DUCKDB_TYPE_BOOLEAN then if x \<noteq> 0 then 1 else 0 else ucast x :: 'a word)"
proof (cases "t = DUCKDB_TYPE_BOOLEAN")
  case True
  then show ?thesis using assms(2) by (auto simp: int64_bytes_def le_bytes_def)
next
  case False
  have "LENGTH('a) \<le> 64" using assms by (cases t) auto
  then have "le_bytes (ucast x :: 'a word) = map (\<lambda>k. ucast (drop_bit (8 * k) x)) [0..<LENGTH('a) div 8]"
    by (intro le_bytes_ucast) simp
  moreover note le_bytes_ucast [where 'a = 64 and 'b = 8, of x] le_bytes_ucast [where 'a = 64 and 'b = 16, of x]
    le_bytes_ucast [where 'a = 64 and 'b = 32, of x] le_bytes_ucast [where 'a = 64 and 'b = 64, of x]
  ultimately show ?thesis using False assms by (cases t) (simp_all add: int64_bytes_def integral_def)
qed

lemma with_slot_inside:
  assumes "Appender w v = Some p" and "appenders w p = Some x" and "staging_ok A ts H x" and "chunk_vectors C A ts H"
    and "0 < duckdb_vector_size A" and "c < length ts" and "r < a_staged_rows x"
  shows "with_slot C A v (int c) (int r) f w =
    f (staged_vector C A x c r (w_engine w)) (r mod duckdb_vector_size A) (staged_data C A x c r (w_engine w)) (ts ! c) w"
  using assms staged_place(1) [OF assms(3-7), of w] by (simp add: with_slot_def appender_at_def staging_ok_def)

lemma place_mapped:
  assumes "staging_ok A ts H x" and "chunk_vectors C A ts H" and "0 < duckdb_vector_size A" and "c < length ts" and "r < a_staged_rows x"
    and "n = staged_width C (ts ! c)"
  shows "readable_range (mapped C e) (staged_data C A x c r e + r mod duckdb_vector_size A * n) n"
proof (rule readable_range_mono [OF staged_place(2) [OF assms(1-5)]])
  have "Suc (r mod duckdb_vector_size A) * n \<le> duckdb_vector_size A * n"
    using assms(3) by (intro mult_le_mono1) (simp add: Suc_le_eq)
  then show "r mod duckdb_vector_size A * n + n \<le> duckdb_vector_size A * staged_width C (ts ! c)" using assms(6) by simp
qed


subsection \<open>No staging call faults\<close>

definition batch :: "'e appender_api \<Rightarrow> duckdb_type list \<Rightarrow> nat set \<Rightarrow> nat \<Rightarrow> nat \<Rightarrow> 'e world \<Rightarrow> bool" where
  "batch A ts H v p w \<longleftrightarrow> Appender w v = Some p \<and> (\<exists>x. appenders w p = Some x \<and> staging_ok A ts H x)"

lemma batch_engine [simp]:
  "batch A ts H v p (w\<lparr>w_engine := e\<rparr>) = batch A ts H v p w"
  "batch A ts H v p (snd (engine f w)) = batch A ts H v p w"
  by (simp_all add: batch_def engine_def split: prod.splits)

lemma batch_update:
  "batch A ts H v p w \<Longrightarrow> (\<And>x. staging_ok A ts H x \<Longrightarrow> staging_ok A ts H (f x)) \<Longrightarrow> runs (on_appender p f w) (batch A ts H v p)"
  by (auto simp: batch_def on_appender_def)

lemma batch_poke:
  assumes "batch A ts H v p w" and "memory_law C A" and "readable_range (mapped C (w_engine w)) addr (length bs)"
  shows "runs (poke C A addr bs w) (batch A ts H v p)"
  using assms(1) by (simp add: poke_stores [OF assms(2,3)])

lemma batch_slot:
  assumes "batch A ts H v p w" and "chunk_vectors C A ts H" and "0 < duckdb_vector_size A"
    and "\<And>x k i. appenders w p = Some x \<Longrightarrow> staging_ok A ts H x \<Longrightarrow> k < length ts \<Longrightarrow> i < a_staged_rows x \<Longrightarrow>
      runs (f (staged_vector C A x k i (w_engine w)) (i mod duckdb_vector_size A) (staged_data C A x k i (w_engine w)) (ts ! k) w) (batch A ts H v p)"
  shows "runs (with_slot C A v c r f w) (batch A ts H v p)"
proof -
  obtain x where x: "Appender w v = Some p" "appenders w p = Some x" "staging_ok A ts H x" using assms(1) by (auto simp: batch_def)
  show ?thesis
  proof (cases "0 \<le> c \<and> nat c < length ts \<and> 0 \<le> r \<and> nat r < a_staged_rows x")
    case True
    then obtain k i where "c = int k" "r = int i" "k < length ts" "i < a_staged_rows x" by (metis nat_0_le)
    then show ?thesis using assms(4) [OF x(2,3)] by (simp add: with_slot_inside [OF x assms(2,3)])
  next
    case False
    then show ?thesis using x assms(1) by (simp add: with_slot_def appender_at_def slot_outside [OF x(3)])
  qed
qed

lemma int64_bytes_length: "length (int64_bytes t x) = (if integral t then duckdb_ml_type_width t else 0)"
  by (cases t) (simp_all add: int64_bytes_def integral_def)

lemma float_bytes_length:
  "length (float_bytes narrow t x) = (if t = DUCKDB_TYPE_FLOAT \<or> t = DUCKDB_TYPE_DOUBLE then duckdb_ml_type_width t else 0)"
  by (cases t) (simp_all add: float_bytes_def)

lemma readable_nothing [simp]: "readable_range m addr 0"
  by (simp add: readable_range_def)

lemma batch_scalar:
  assumes "batch A ts H v p w" and "chunk_vectors C A ts H" and "memory_law C A" and "0 < duckdb_vector_size A"
    and "\<And>t. length (bytes t) = 0 \<or> length (bytes t) = staged_width C t"
  shows "runs (with_slot C A v c r (\<lambda>vec i d t. poke C A (d + i * length (bytes t)) (bytes t)) w) (batch A ts H v p)"
proof (rule batch_slot [OF assms(1,2,4)])
  fix x k i
  assume "appenders w p = Some x" "staging_ok A ts H x" "k < length ts" "i < a_staged_rows x"
  from place_mapped [OF this(2) assms(2,4) this(3,4) refl] assms(5) [of "ts ! k"]
  show "runs (poke C A (staged_data C A x k i (w_engine w) + i mod duckdb_vector_size A * length (bytes (ts ! k))) (bytes (ts ! k)) w)
    (batch A ts H v p)"
    by (intro batch_poke assms(1,3)) auto
qed

lemma stage_int64_batch:
  assumes "batch A ts H v p w" and "chunk_vectors C A ts H" and "memory_law C A" and "0 < duckdb_vector_size A"
  shows "runs (ml_duckdb_stage_int64 C A v c r y w) (batch A ts H v p)"
  unfolding ml_duckdb_stage_int64_def
  by (rule batch_scalar [OF assms]) (auto simp: int64_bytes_length staged_width_def integral_def)

lemma stage_float_batch:
  assumes "batch A ts H v p w" and "chunk_vectors C A ts H" and "memory_law C A" and "0 < duckdb_vector_size A"
  shows "runs (ml_duckdb_stage_float C A narrow v c r y w) (batch A ts H v p)"
  unfolding ml_duckdb_stage_float_def
  by (rule batch_scalar [OF assms]) (auto simp: float_bytes_length staged_width_def)

text \<open>Giving up the batch leaves no rows.\<close>

lemma staging_ok_dropped:
  "staging_ok A ts H x \<Longrightarrow> staging_ok A ts H (x\<lparr>a_stage_message := m, a_staged_rows := 0, a_stage_failed := b\<rparr>)"
  "staging_ok A ts H x \<Longrightarrow> staging_ok A ts H (x\<lparr>a_staged_rows := 0, a_stage_failed := b\<rparr>)"
  by (simp_all add: staging_ok_def split: option.splits)

lemma stage_string_batch:
  assumes "batch A ts H v p w" and "chunk_vectors C A ts H" and "0 < duckdb_vector_size A"
  shows "runs (ml_duckdb_stage_string C A v c r s w) (batch A ts H v p)"
  unfolding ml_duckdb_stage_string_def
proof (rule batch_slot [OF assms])
  fix x k i
  let ?vec = "staged_vector C A x k i (w_engine w)" and ?i = "i mod duckdb_vector_size A"
  have "runs (stage_varchar A p ?vec ?i s w) (batch A ts H v p)"
    using assms(1) by (auto simp: stage_varchar_def Let_def engine_def batch_def on_appender_def staging_ok_dropped
        split: prod.splits option.splits)
  then show "runs (if ts ! k = DUCKDB_TYPE_VARCHAR then bind (deref (Appender w) v) (\<lambda>p. stage_varchar A p ?vec ?i s w)
      else if ts ! k = DUCKDB_TYPE_BLOB
      then case engine (duckdb_vector_assign_string_element_len A ?vec ?i s) w of (_, w) \<Rightarrow> Inr w else Inr w) (batch A ts H v p)"
    using assms(1) by (auto simp: batch_def engine_def split: prod.splits)
qed

lemma stage_null_batch:
  assumes "batch A ts H v p w" and "chunk_vectors C A ts H" and "0 < duckdb_vector_size A"
  shows "runs (ml_duckdb_stage_null C A v c r w) (batch A ts H v p)"
proof -
  obtain x where x: "Appender w v = Some p" "appenders w p = Some x" "staging_ok A ts H x" using assms(1) by (auto simp: batch_def)
  show ?thesis
  proof (cases "0 \<le> c \<and> nat c < length ts \<and> 0 \<le> r \<and> nat r < a_staged_rows x")
    case True
    then obtain k i where "c = int k" "r = int i" "k < length ts" "i < a_staged_rows x" by (metis nat_0_le)
    then show ?thesis
      using x assms(1) by (simp add: ml_duckdb_stage_null_def appender_at_def staged_place(1) [OF x(3) assms(2,3)]
          set_row_invalid_def ensure_validity_writable_def)
  next
    case False
    then show ?thesis using x assms(1) by (simp add: ml_duckdb_stage_null_def appender_at_def slot_outside [OF x(3)])
  qed
qed

subsection \<open>Staging a Bigarray\<close>

text \<open>A Bigarray has the bytes of its elements.\<close>

definition ba_ok :: "caml_ba_array \<Rightarrow> bool" where
  "ba_ok b \<longleftrightarrow> length (ba_bytes b) = caml_ba_byte_size b"

lemma stage_kind_size:
  "stage_kind t = Some kind \<Longrightarrow> caml_ba_element_size kind = duckdb_ml_type_width t \<and> duckdb_ml_type_width t \<noteq> 0 \<and>
    staged_width C t = duckdb_ml_type_width t"
  by (cases t) (auto simp: staged_width_def)

definition stage_refused :: "string \<Rightarrow> appender_owner \<Rightarrow> appender_owner" where
  "stage_refused m x = (if a_stage_failed x then x
     else x\<lparr>a_stage_message := m, a_staged_rows := 0, a_stage_failed := True\<rparr>)"

lemma staging_ok_refused: "staging_ok A ts H x \<Longrightarrow> staging_ok A ts H (stage_refused m x)"
  by (simp add: stage_refused_def staging_ok_dropped)

lemma stage_fail_eq:
  "Appender w v = Some p \<Longrightarrow> appenders w p = Some x \<Longrightarrow>
   stage_fail v m w = Inr (put_appender p (stage_refused (snprintf_s DUCKDB_ML_MESSAGE_SIZE m) x) w)"
  by (simp add: stage_fail_def on_appender_def stage_refused_def)

text \<open>The bytes a blit takes from the array; Booleans become 0 or 1.\<close>

definition column_bytes :: "duckdb_type \<Rightarrow> caml_ba_array \<Rightarrow> nat \<Rightarrow> nat \<Rightarrow> 8 word list" where
  "column_bytes t b at' n = (let s = take (n * duckdb_ml_type_width t) (drop (at' * duckdb_ml_type_width t) (ba_bytes b))
     in if t = DUCKDB_TYPE_BOOLEAN then map (\<lambda>x. if x \<noteq> 0 then 1 else 0) s else s)"

lemma stage_range_row:
  assumes "stage_range A (Some x) c b at' n" and "staging_ok A ts H x" and "ba_ok b"
  shows "nat c < length ts" and "0 < a_staged_rows x" and "nat n \<le> duckdb_vector_size A" and "0 < a_staged_capacity x"
    and "a_types x = Some ts"
    and "nat at' * caml_ba_element_size (ba_kind b) + nat n * caml_ba_element_size (ba_kind b) \<le> length (ba_bytes b)"
proof -
  let ?k = "caml_ba_element_size (ba_kind b)"
  show "nat c < length ts" "0 < a_staged_rows x" "nat n \<le> duckdb_vector_size A" "0 < a_staged_capacity x" "a_types x = Some ts"
    using assms(1,2) by (auto simp: stage_range_def staging_ok_def)
  obtain dim where dim: "ba_dim b = [dim]" using assms(1) by (cases "ba_dim b") (auto simp: stage_range_def)
  then have "nat at' + nat n \<le> dim" using assms(1) by (auto simp: stage_range_def)
  then have "(nat at' + nat n) * ?k \<le> dim * ?k" by (rule mult_le_mono1)
  then show "nat at' * ?k + nat n * ?k \<le> length (ba_bytes b)"
    using assms(3) dim by (simp add: ba_ok_def caml_ba_byte_size_def caml_ba_num_elts_def add_mult_distrib)
qed

lemma first_chunk:
  assumes "staging_ok A ts H x" and "0 < a_staged_capacity x"
  obtains h where "staged_chunk x 0 = Inr h" and "the (a_staged x) ! 0 = Some h"
proof -
  obtain h where h: "staged_chunk x 0 = Inr h" by (rule staging_chunk [OF assms])
  then have "the (a_staged x) ! 0 = Some h"
    by (auto simp: staged_chunk_def bind_Inr_iff not_null_def at_index_def split: option.splits if_splits)
  with h show thesis by (rule that)
qed

lemma stage_blit_writes:
  assumes "Appender w v = Some p" and "appenders w p = Some x" and "staging_ok A ts H x" and "chunk_vectors C A ts H"
    and "memory_law C A" and "0 < duckdb_vector_size A" and "ba_ok b"
    and "stage_range A (Some x) c b at' n" and "stage_kind (ts ! nat c) = Some (ba_kind b)"
    and "d = staged_data C A x (nat c) 0 (w_engine w)" and "bytes = column_bytes (ts ! nat c) b (nat at') (nat n)"
  shows "ml_duckdb_stage_blit C A v c b at' n w = Inr (w\<lparr>w_engine := stores A d bytes (w_engine w)\<rparr>)"
    and "length bytes = nat n * duckdb_ml_type_width (ts ! nat c)"
    and "readable_range (mapped C (w_engine w)) d (length bytes)"
proof -
  note row = stage_range_row [OF assms(8,3,7)] and size = stage_kind_size [OF assms(9), of C]
  let ?k = "duckdb_ml_type_width (ts ! nat c)"
  obtain h where h: "staged_chunk x 0 = Inr h" "the (a_staged x) ! 0 = Some h" by (rule first_chunk [OF assms(3) row(4)])
  have fits: "nat at' * ?k + nat n * ?k \<le> length (ba_bytes b)" using row(6) size by simp
  then have "nat n * ?k \<le> length (ba_bytes b) - nat at' * ?k" by linarith
  then have "length (take (nat n * ?k) (drop (nat at' * ?k) (ba_bytes b))) = nat n * ?k" by simp
  then show len: "length bytes = nat n * ?k" unfolding assms(11) column_bytes_def Let_def by (simp only: length_map if_cancel if_distrib [of length])
  have "nat n * ?k \<le> duckdb_vector_size A * staged_width C (ts ! nat c)"
    using row(3) size by (simp add: mult_le_mono1)
  with readable_range_mono [OF staged_place(2) [OF assms(3,4,6) row(1,2)], of 0 "nat n * ?k"]
  show range: "readable_range (mapped C (w_engine w)) d (length bytes)" by (simp add: len assms(10))
  have "d = duckdb_vector_get_data C (duckdb_data_chunk_get_vector C (Some h) (nat c) (w_engine w)) (w_engine w)"
    by (simp add: assms(10) staged_data_def staged_vector_def h(2))
  then show "ml_duckdb_stage_blit C A v c b at' n w = Inr (w\<lparr>w_engine := stores A d bytes (w_engine w)\<rparr>)"
    using poke_stores [OF assms(5) range] assms(1,2,8,9) size fits row(1,5) h(1)
    by (simp add: ml_duckdb_stage_blit_def appender_at_def Let_def slice_bytes_def assms(11) column_bytes_def)
qed


lemma mask_rows_batch [simp]: "batch A ts H v p (mask_rows C A vec validity ibs w) = batch A ts H v p w"
  by (induction ibs arbitrary: validity w) (simp_all add: Let_def ensure_validity_writable_def)

lemma stage_blit_batch:
  assumes "batch A ts H v p w" and "chunk_vectors C A ts H" and "memory_law C A" and "0 < duckdb_vector_size A" and "ba_ok b"
  shows "runs (ml_duckdb_stage_blit C A v c b at' n w) (batch A ts H v p)"
proof -
  obtain x where x: "Appender w v = Some p" "appenders w p = Some x" "staging_ok A ts H x" using assms(1) by (auto simp: batch_def)
  show ?thesis
  proof (cases "stage_range A (Some x) c b at' n")
    case True
    note row = stage_range_row(1,5) [OF True x(3) assms(5)]
    show ?thesis
    proof (cases "stage_kind (ts ! nat c) = Some (ba_kind b)")
      case kind: True
      show ?thesis using stage_blit_writes(1) [OF x assms(2-5) True kind refl refl] assms(1) by simp
    next
      case False
      then show ?thesis using True row x by (auto simp: ml_duckdb_stage_blit_def appender_at_def stage_fail_eq [OF x(1,2)]
            Let_def batch_def staging_ok_refused)
    qed
  next
    case False
    then show ?thesis using x by (auto simp: ml_duckdb_stage_blit_def appender_at_def stage_fail_eq [OF x(1,2)]
          batch_def staging_ok_refused)
  qed
qed

lemma stage_mask_batch:
  assumes "batch A ts H v p w" and "ba_ok b"
  shows "runs (ml_duckdb_stage_mask C A v c b at' n w) (batch A ts H v p)"
proof -
  obtain x where x: "Appender w v = Some p" "appenders w p = Some x" "staging_ok A ts H x" using assms(1) by (auto simp: batch_def)
  show ?thesis
  proof (cases "stage_range A (Some x) c b at' n \<and> ba_kind b = CAML_BA_UINT8")
    case True
    note row = stage_range_row [OF conjunct1 [OF True] x(3) assms(2)]
    obtain h where "staged_chunk x 0 = Inr h" by (rule first_chunk [OF x(3) row(4)])
    then show ?thesis
      using True row(6) x assms(1) by (simp add: ml_duckdb_stage_mask_def appender_at_def slice_bytes_def)
  next
    case False
    then show ?thesis using x by (auto simp: ml_duckdb_stage_mask_def appender_at_def stage_fail_eq [OF x(1,2)]
          batch_def staging_ok_refused)
  qed
qed

lemma clear_input_batch: "batch A ts H v p w \<Longrightarrow> runs (clear_input (Appender w v) w) (batch A ts H v p)"
  by (auto simp: clear_input_def batch_def on_appender_def staging_ok_dropped)

subsection \<open>Opening a batch\<close>

text \<open>No row is staged yet, at least \<open>k\<close> chunks are there, and \<open>s\<close> tells whether the appender is usable.\<close>

definition opened :: "'e appender_api \<Rightarrow> duckdb_type list \<Rightarrow> nat set \<Rightarrow> nat \<Rightarrow> nat \<Rightarrow> bool \<Rightarrow> nat \<Rightarrow> 'e world \<Rightarrow> bool" where
  "opened A ts H v p s k w \<longleftrightarrow> Appender w v = Some p \<and> (\<exists>x. appenders w p = Some x \<and> staging_ok A ts H x \<and>
     a_staged_rows x = 0 \<and> k \<le> a_staged_capacity x \<and> a_appender x \<noteq> None \<and> (a_status x = DUCKDB_ML_STATUS_OK \<longleftrightarrow> s))"

lemma opened_engine [simp]:
  "opened A ts H v p s k (w\<lparr>w_engine := e\<rparr>) = opened A ts H v p s k w"
  "opened A ts H v p s k (snd (engine f w)) = opened A ts H v p s k w"
  "opened A ts H v p s k (acquired w) = opened A ts H v p s k w"
  "opened A ts H v p s k (w\<lparr>w_oom := bs\<rparr>) = opened A ts H v p s k w"
  by (simp_all add: opened_def engine_def split: prod.splits)

lemma opened_error: "opened A ts H v p s k w \<Longrightarrow> runs (appender_error p m w) (opened A ts H v p False k)"
  by (auto simp: opened_def appender_error_def on_appender_def staging_ok_def split: option.splits)

lemma opened_le: "opened A ts H v p s k w \<Longrightarrow> j \<le> k \<Longrightarrow> opened A ts H v p s j w"
  by (auto simp: opened_def)

lemma opened_logical:
  "opened A ts H v p s k w \<Longrightarrow> runs (on_appender p (\<lambda>x. x\<lparr>a_logical := f x\<rparr>) w) (opened A ts H v p s k)"
  by (auto simp: opened_def on_appender_def staging_ok_def split: option.splits)

lemma stage_logical_opened:
  assumes "opened A ts H v p True k w"
  shows "runs (stage_logical A p w) (\<lambda>(go_on, w). opened A ts H v p go_on k w)"
proof -
  obtain x where x: "appenders w p = Some x" using assms by (auto simp: opened_def)
  obtain fails w1 where malloc: "malloc_fails w = (fails, w1)" by force
  have w1: "opened A ts H v p True k w1" using assms malloc by (auto simp: malloc_fails_def split: list.splits)
  have column: "runs (case engine f w of (t, w) \<Rightarrow> on_appender p (\<lambda>x. x\<lparr>a_logical := g t x\<rparr>) w) (opened A ts H v p True k)"
    if "opened A ts H v p True k w" for f g w
    using opened_logical that opened_engine(2) [of A ts H v p True k f w] by (cases "engine f w") auto
  show ?thesis
  proof (cases "a_logical x = None \<and> a_columns x \<noteq> 0")
    case True
    show ?thesis
    proof (cases fails)
      case True
      then show ?thesis
        using opened_error [OF w1] \<open>a_logical x = None \<and> a_columns x \<noteq> 0\<close> by (auto simp: stage_logical_def x malloc runs_bind intro: runs_conseq)
    next
      case False
      have "runs (bind (on_appender p (\<lambda>x. x\<lparr>a_logical := Some (replicate (a_columns x) 0)\<rparr>) w1) (\<lambda>w.
          bind (for_each (\<lambda>i w. case engine (duckdb_appender_column_type A (a_appender x) i) w of (t, w) \<Rightarrow>
                  on_appender p (\<lambda>x. x\<lparr>a_logical := map_option (\<lambda>types. types[i := t]) (a_logical x)\<rparr>) w)
                 [0..<a_columns x] (acquired w)) (\<lambda>w. Inr (True, w)))) (\<lambda>(go_on, w). opened A ts H v p go_on k w)"
        by (rule runs_bindI [OF opened_logical [OF w1]], rule runs_bindI [OF runs_for_each [where I = "opened A ts H v p True k"]])
          (auto intro: column)
      then show ?thesis using False True by (simp add: stage_logical_def x malloc)
    qed
  next
    case False
    then show ?thesis using assms by (auto simp: stage_logical_def x)
  qed
qed

text \<open>While the slots are filled there are \<open>n\<close> of them, the first \<open>k\<close> in use.\<close>

definition filling :: "'e appender_api \<Rightarrow> duckdb_type list \<Rightarrow> nat set \<Rightarrow> nat \<Rightarrow> nat \<Rightarrow> nat \<Rightarrow> nat \<Rightarrow> 'e world \<Rightarrow> bool" where
  "filling A ts H v p n k w \<longleftrightarrow> Appender w v = Some p \<and> (\<exists>x slots. appenders w p = Some x \<and> staging_ok A ts H x \<and>
     a_staged_rows x = 0 \<and> a_staged x = Some slots \<and> length slots = n \<and> a_staged_capacity x = k \<and> a_appender x \<noteq> None \<and>
     a_status x = DUCKDB_ML_STATUS_OK)"

lemma acquired_appenders: "(acquired w)\<lparr>appenders := m\<rparr> = acquired (w\<lparr>appenders := m\<rparr>)"
  by (simp add: acquired_def)

lemma filling_opened: "filling A ts H v p n k w \<Longrightarrow> opened A ts H v p True k w"
  by (auto simp: filling_def opened_def)

lemma stage_fill_opened:
  assumes "filling A ts H v p n k w" and "engine_chunks C A ts H" and "k \<le> n"
  shows "runs (stage_fill A p [k..<n] w) (\<lambda>(go_on, w). opened A ts H v p go_on (if go_on then n else 0) w)"
  using assms(1,3)
proof (induction "n - k" arbitrary: k w)
  case 0
  then show ?case using filling_opened [OF 0(2)] by simp
next
  case (Suc d)
  then have k: "k < n" by simp
  obtain x slots where x: "Appender w v = Some p" "appenders w p = Some x" "staging_ok A ts H x" "a_staged_rows x = 0"
    "a_staged x = Some slots" "length slots = n" "a_staged_capacity x = k" "a_appender x \<noteq> None" "a_status x = DUCKDB_ML_STATUS_OK"
    using Suc.prems(1) by (auto simp: filling_def)
  obtain chunk e where create: "duckdb_create_data_chunk A (a_logical x) (length ts) (w_engine w) = (chunk, e)" by force
  have columns: "a_columns x = length ts" using x(3) by (simp add: staging_ok_def)
  show ?case
  proof (cases chunk)
    case None
    have "opened A ts H v p True 0 (w\<lparr>w_engine := e\<rparr>)" using opened_le [OF filling_opened [OF Suc.prems(1)], of 0] by simp
    from opened_error [OF this] None show ?thesis
      using k by (auto simp: upt_conv_Cons x(2) columns engine_def create runs_bind intro: runs_conseq)
  next
    case (Some h)
    have "h \<in> H" using assms(2) create Some by (force simp: engine_chunks_def dest: spec [of _ "a_logical x"] spec [of _ "w_engine w"])
    with x k have "staging_ok A ts H (x\<lparr>a_staged := Some (slots[k := Some h]), a_staged_capacity := Suc k\<rparr>)"
      by (auto simp: staging_ok_def nth_list_update less_Suc_eq)
    with x have "filling A ts H v p n (Suc k) (acquired (put_appender p (x\<lparr>a_staged := Some (slots[k := Some h]), a_staged_capacity := Suc k\<rparr>)
        (w\<lparr>w_engine := e\<rparr>)))"
      by (simp add: filling_def)
    moreover have "d = n - Suc k" "Suc k \<le> n" using Suc(2) k by auto
    ultimately have "runs (stage_fill A p [Suc k..<n] (acquired (put_appender p (x\<lparr>a_staged := Some (slots[k := Some h]),
        a_staged_capacity := Suc k\<rparr>) (w\<lparr>w_engine := e\<rparr>)))) (\<lambda>(go_on, w). opened A ts H v p go_on (if go_on then n else 0) w)"
      using Suc.hyps(1) by blast
    then show ?thesis
      using k x Some by (simp add: upt_conv_Cons columns engine_def create on_appender_def acquired_appenders)
  qed
qed

lemma stage_grow_opened:
  assumes "opened A ts H v p True 0 w" and "engine_chunks C A ts H"
  shows "runs (stage_grow A p n w) (\<lambda>(go_on, w). opened A ts H v p go_on (if go_on then n else 0) w)"
proof -
  obtain x where x: "Appender w v = Some p" "appenders w p = Some x" "staging_ok A ts H x" "a_staged_rows x = 0" "a_appender x \<noteq> None"
    "a_status x = DUCKDB_ML_STATUS_OK" using assms(1) by (auto simp: opened_def)
  obtain fails w1 where malloc: "malloc_fails w = (fails, w1)" by force
  have w1: "opened A ts H v p True 0 w1" "appenders w1 = appenders w" "Appender w1 = Appender w"
    using assms(1) malloc by (auto simp: malloc_fails_def split: list.splits)
  show ?thesis
  proof (cases "a_staged_capacity x < n")
    case False
    then show ?thesis using x by (auto simp: stage_grow_def opened_def)
  next
    case grow: True
    show ?thesis
    proof (cases fails)
      case True
      then show ?thesis
        using opened_error [OF w1(1)] grow by (auto simp: stage_grow_def x malloc runs_bind intro: runs_conseq)
    next
      case False
      define slots where "slots = (case a_staged x of None \<Rightarrow> [] | Some slots \<Rightarrow> take n slots)"
      define w2 where "w2 = put_appender p (x\<lparr>a_staged := Some (slots @ replicate (n - length slots) None)\<rparr>)
        (if a_staged x = None then acquired w1 else w1)"
      have "length slots \<le> n" by (auto simp: slots_def split: option.splits)
      moreover have "staging_ok A ts H (x\<lparr>a_staged := Some (slots @ replicate (n - length slots) None)\<rparr>)"
        using x(3) grow by (auto simp: staging_ok_def slots_def nth_append split: option.splits)
      ultimately have "filling A ts H v p n (a_staged_capacity x) w2"
        using x w1(2,3) by (auto simp: filling_def w2_def)
      then have "runs (stage_fill A p [a_staged_capacity x..<n] w2) (\<lambda>(go_on, w). opened A ts H v p go_on (if go_on then n else 0) w)"
        using grow by (intro stage_fill_opened [OF _ assms(2)]) auto
      then show ?thesis
        using grow False by (cases "a_staged x") (simp_all add: stage_grow_def x malloc on_appender_def w1(2) w2_def slots_def Let_def)
    qed
  qed
qed

text \<open>Resetting a chunk zeroes the strings it will hold.\<close>

lemma opened_chunk:
  assumes "opened A ts H v p True n w" and "appenders w p = Some x" and "k < n" and "chunk_vectors C A ts H"
  obtains h where "staged_chunk x k = Inr h" and
    "\<And>e i. i < length ts \<Longrightarrow> readable_range (mapped C e) (duckdb_vector_get_data C (duckdb_data_chunk_get_vector C (Some h) i e) e)
      (duckdb_vector_size A * staged_width C (ts ! i))"
proof -
  have "staging_ok A ts H x" "k < a_staged_capacity x" using assms(1-3) by (auto simp: opened_def)
  then obtain h where h: "h \<in> H" "staged_chunk x k = Inr h" by (rule staging_chunk)
  show thesis
  proof (rule that [OF h(2)])
    fix e i
    assume "i < length ts"
    then show "readable_range (mapped C e) (duckdb_vector_get_data C (duckdb_data_chunk_get_vector C (Some h) i e) e)
        (duckdb_vector_size A * staged_width C (ts ! i))"
      using assms(4) h(1) by (auto simp: chunk_vectors_def Let_def)
  qed
qed

lemma clear_strings_opened:
  assumes "opened A ts H v p True n w" and "chunk_vectors C A ts H" and "memory_law C A" and "k < n" and "i < length ts"
    and "held \<le> duckdb_vector_size A"
  shows "runs (stage_clear_strings C A p k held i w) (opened A ts H v p True n)"
proof -
  obtain x where x: "appenders w p = Some x" "a_types x = Some ts" using assms(1) by (auto simp: opened_def staging_ok_def)
  obtain h where h: "staged_chunk x k = Inr h" "\<And>e i. i < length ts \<Longrightarrow> readable_range (mapped C e)
      (duckdb_vector_get_data C (duckdb_data_chunk_get_vector C (Some h) i e) e) (duckdb_vector_size A * staged_width C (ts ! i))"
    using opened_chunk [OF assms(1) x(1) assms(4,2)] by metis
  let ?d = "duckdb_vector_get_data C (duckdb_data_chunk_get_vector C (Some h) i (w_engine w)) (w_engine w)"
  show ?thesis
  proof (cases "ts ! i = DUCKDB_TYPE_VARCHAR \<or> ts ! i = DUCKDB_TYPE_BLOB")
    case True
    then have "staged_width C (ts ! i) = sizeof_duckdb_string_t C" by (simp add: staged_width_def)
    with readable_range_mono [OF h(2) [OF assms(5)], of 0 "held * sizeof_duckdb_string_t C" "w_engine w"] assms(6)
    have "readable_range (mapped C (w_engine w)) ?d (length (replicate (held * sizeof_duckdb_string_t C) (0 :: 8 word)))"
      by (simp add: mult_le_mono1)
    from poke_stores [OF assms(3) this] show ?thesis
      using True assms(1,5) x h(1) by (auto simp: stage_clear_strings_def)
  next
    case False
    then show ?thesis using assms(1,5) x by (auto simp: stage_clear_strings_def)
  qed
qed

lemma stage_reset_opened:
  assumes "opened A ts H v p True n w" and "chunk_vectors C A ts H" and "memory_law C A" and "k < n"
  shows "runs (stage_reset C A p rows k w) (opened A ts H v p True n)"
proof -
  obtain x where x: "appenders w p = Some x" "a_columns x = length ts" using assms(1) by (auto simp: opened_def staging_ok_def)
  obtain h where h: "staged_chunk x k = Inr h" using opened_chunk [OF assms(1) x(1) assms(4,2)] by metis
  let ?held = "if rows - k * duckdb_vector_size A < duckdb_vector_size A then rows - k * duckdb_vector_size A else duckdb_vector_size A"
  have "runs (for_each (stage_clear_strings C A p k ?held) [0..<length ts] (snd (engine (duckdb_data_chunk_reset A h) w)))
    (opened A ts H v p True n)"
    by (rule runs_for_each) (use assms in \<open>auto intro!: clear_strings_opened\<close>)
  then show ?thesis using x h by (simp add: stage_reset_def Let_def split_beta)
qed

lemma stage_begin_runs:
  fixes w :: "'e world"
  assumes "batch A ts H v p w" and "engine_chunks C A ts H" and "memory_law C A" and "0 < duckdb_vector_size A"
  shows "runs (ml_duckdb_stage_begin C A v rows w) (\<lambda>w'. Appender w' v = Some p \<and> (\<exists>x'. appenders w' p = Some x' \<and>
    staging_ok A ts H x' \<and> a_staged_rows x' =
      (if a_appender x' \<noteq> None \<and> a_status x' = DUCKDB_ML_STATUS_OK \<and> 0 \<le> rows then nat rows else 0)))"
proof -
  let ?n = "staged_chunks (duckdb_vector_size A) (nat rows)"
  define Q where "Q w' \<longleftrightarrow> Appender w' v = Some p \<and> (\<exists>x'. appenders w' p = Some x' \<and>
    staging_ok A ts H x' \<and> a_staged_rows x' =
      (if a_appender x' \<noteq> None \<and> a_status x' = DUCKDB_ML_STATUS_OK \<and> 0 \<le> rows then nat rows else 0))" for w' :: "'e world"
  obtain x where x: "Appender w v = Some p" "appenders w p = Some x" "staging_ok A ts H x" using assms(1) by (auto simp: batch_def)
  define x1 where "x1 = x\<lparr>a_staged_rows := 0, a_stage_failed := False\<rparr>"
  define w1 where "w1 = put_appender p x1 w"
  have w1: "clear_input (Appender w v) w = Inr w1" "appenders w1 p = Some x1" "Appender w1 v = Some p"
    by (simp_all add: clear_input_def x on_appender_def w1_def x1_def)
  have ok: "staging_ok A ts H x1" "a_staged_rows x1 = 0" using x(3) by (simp_all add: x1_def staging_ok_dropped)
  have failed: "Q w" if "opened A ts H v p False k w" for k w using that by (auto simp: opened_def Q_def)
  have filled: "runs (bind (for_each (stage_reset C A p (nat rows)) [0..<?n] w) (on_appender p (\<lambda>x. x\<lparr>a_staged_rows := nat rows\<rparr>))) Q"
    if "opened A ts H v p True ?n w" and "0 \<le> rows" for w
  proof (rule runs_bindI [OF runs_for_each [where I = "opened A ts H v p True ?n"]])
    fix w
    assume "opened A ts H v p True ?n w"
    then obtain y where y: "Appender w v = Some p" "appenders w p = Some y" "staging_ok A ts H y" "?n \<le> a_staged_capacity y"
      "a_appender y \<noteq> None" "a_status y = DUCKDB_ML_STATUS_OK" by (auto simp: opened_def)
    have "nat rows \<le> ?n * duckdb_vector_size A"
      using staged_chunks_le [OF assms(4), of ?n "nat rows"] by simp
    also have "\<dots> \<le> a_staged_capacity y * duckdb_vector_size A" using y(4) by (rule mult_le_mono1)
    finally show "runs (on_appender p (\<lambda>x. x\<lparr>a_staged_rows := nat rows\<rparr>) w) Q"
      using y that(2) by (auto simp: on_appender_def staging_ok_def Q_def split: option.splits)
  qed (use that assms in \<open>auto intro: stage_reset_opened engine_chunk_vectors\<close>)
  have "runs (ml_duckdb_stage_begin C A v rows w) Q"
  proof (cases "a_appender x1 = None \<or> a_status x1 \<noteq> DUCKDB_ML_STATUS_OK \<or> rows < 0")
    case True
    then show ?thesis using ok w1 by (auto simp: ml_duckdb_stage_begin_def Q_def)
  next
    case False
    then have "opened A ts H v p True 0 w1" using ok w1(2,3) by (simp add: opened_def)
    then have "runs (stage_logical A p w1) (\<lambda>(go_on, w). opened A ts H v p go_on 0 w)" by (rule stage_logical_opened)
    then have "runs (bind (stage_logical A p w1) (\<lambda>(go_on, w).
       if \<not> go_on then Inr w
       else bind (stage_grow A p ?n w) (\<lambda>(go_on, w).
       if \<not> go_on then Inr w
       else bind (for_each (stage_reset C A p (nat rows)) [0..<?n] w) (\<lambda>w.
            on_appender p (\<lambda>x. x\<lparr>a_staged_rows := nat rows\<rparr>) w)))) Q"
    proof (rule runs_bind_pair)
      fix go_on w
      assume "opened A ts H v p go_on 0 w"
      then show "runs (if \<not> go_on then Inr w
         else bind (stage_grow A p ?n w) (\<lambda>(go_on, w).
         if \<not> go_on then Inr w
         else bind (for_each (stage_reset C A p (nat rows)) [0..<?n] w) (\<lambda>w.
              on_appender p (\<lambda>x. x\<lparr>a_staged_rows := nat rows\<rparr>) w))) Q"
        using failed filled False
        by (cases go_on) (auto intro!: runs_bind_pair [OF stage_grow_opened [OF _ assms(2)]])
    qed
    then show ?thesis using False w1 by (auto simp: ml_duckdb_stage_begin_def Let_def)
  qed
  then show ?thesis by (rule runs_conseq) (simp add: Q_def)
qed



subsection \<open>Instances\<close>

text \<open>An engine whose state is its memory, with one chunk handle.\<close>

definition memory_chunks :: "(nat \<Rightarrow> 8 word) chunk_api" where
  "memory_chunks = \<lparr>duckdb_fetch_chunk = \<lambda>r e. (None, e), duckdb_destroy_data_chunk = \<lambda>h e. (None, e),
     duckdb_data_chunk_get_column_count = \<lambda>h e. 2, duckdb_data_chunk_get_size = \<lambda>h e. 0,
     duckdb_data_chunk_get_vector = \<lambda>h c e. c, duckdb_vector_get_data = \<lambda>x e. 65536 * Suc x,
     duckdb_vector_get_validity = \<lambda>x e. None, duckdb_column_count = \<lambda>r e. 2, duckdb_column_type = \<lambda>r c e. DUCKDB_TYPE_BIGINT,
     duckdb_nparams = \<lambda>h e. 0, duckdb_param_type = \<lambda>h i e. DUCKDB_TYPE_BIGINT,
     duckdb_prepared_statement_column_count = \<lambda>h e. 0, duckdb_prepared_statement_column_type = \<lambda>h c e. DUCKDB_TYPE_BIGINT,
     sizeof_duckdb_string_t = 16, duckdb_string_t_length = \<lambda>x e. 0, duckdb_string_t_data = \<lambda>x e. 0, mapped = \<lambda>e k. Some (e k)\<rparr>"

definition memory_appender :: "(nat \<Rightarrow> 8 word) appender_api" where
  "memory_appender = \<lparr>duckdb_appender_create_ext = \<lambda>h c s t e. ((DuckDBSuccess, Some 1), e),
     duckdb_appender_error_data = \<lambda>h e. (None, e), duckdb_error_data_message = \<lambda>d e. None, duckdb_destroy_error_data = \<lambda>d e. ((), e),
     duckdb_appender_close = \<lambda>h e. (DuckDBSuccess, e), duckdb_appender_flush = \<lambda>h e. (DuckDBSuccess, e),
     duckdb_appender_clear = \<lambda>h e. (DuckDBSuccess, e), duckdb_appender_destroy = \<lambda>h e. (None, e),
     duckdb_appender_column_count = \<lambda>h e. 2, duckdb_appender_column_type = \<lambda>h i e. (0, e), duckdb_get_type_id = \<lambda>t e. DUCKDB_TYPE_BIGINT,
     duckdb_destroy_logical_type = \<lambda>t e. ((), e), duckdb_appender_add_column = \<lambda>h n e. (DuckDBSuccess, e),
     duckdb_append_data_chunk = \<lambda>h k e. (DuckDBSuccess, e), duckdb_create_data_chunk = \<lambda>ts n e. (Some 1, e),
     duckdb_data_chunk_reset = \<lambda>h e. ((), e), duckdb_data_chunk_set_size = \<lambda>h n e. ((), e), duckdb_bind_varchar = \<lambda>h i s e. (DuckDBSuccess, e),
     duckdb_vector_size = 2048, duckdb_valid_utf8_check = \<lambda>s e. (None, e),
     duckdb_unsafe_vector_assign_string_element_len = \<lambda>x i s e. ((), e), duckdb_vector_assign_string_element_len = \<lambda>x i s e. ((), e),
     duckdb_vector_ensure_validity_writable = \<lambda>x e. ((), e), duckdb_validity_set_row_invalid = \<lambda>m i e. ((), e),
     store = \<lambda>addr b e. e(addr := b)\<rparr>"

definition sample_types :: "duckdb_type list" where
  "sample_types = [DUCKDB_TYPE_BIGINT, DUCKDB_TYPE_SMALLINT]"

definition sample_appender :: appender_owner where
  "sample_appender = appender_owner0\<lparr>a_parent := 3, a_appender := Some 95, a_types := Some sample_types, a_columns := 2,
     a_staged := Some [Some 1], a_staged_capacity := 1, a_staged_rows := 3\<rparr>"

definition staging_world :: "(nat \<Rightarrow> 8 word) world" where
  "staging_world = (empty_world (\<lambda>_. 0))\<lparr>connections := [3 \<mapsto> sample_connection], requests := [4 \<mapsto> sample_request False],
     appenders := [7 \<mapsto> sample_appender], Appender := [17 \<mapsto> 7]\<rparr>"

lemma sample_memory_law: "memory_law memory_chunks memory_appender"
  by (auto simp: memory_law_def memory_chunks_def memory_appender_def)

lemma sample_engine_chunks: "engine_chunks memory_chunks memory_appender sample_types {1}"
  by (simp add: engine_chunks_def chunk_vectors_def memory_chunks_def memory_appender_def readable_range_def Let_def)

lemma sample_staging:
  "Appender staging_world 17 = Some 7" "appenders staging_world 7 = Some sample_appender"
  "staging_ok memory_appender sample_types {1} sample_appender" "0 < duckdb_vector_size memory_appender"
  by (simp_all add: staging_world_def staging_ok_def sample_appender_def sample_types_def appender_owner0_def memory_appender_def)



definition staged_array :: caml_ba_array where
  "staged_array = \<lparr>ba_bytes = map word_of_nat [0..<24], ba_dim = [3], ba_kind = CAML_BA_INT64\<rparr>"

lemma staged_array_ok: "ba_ok staged_array"
  by (simp add: ba_ok_def staged_array_def caml_ba_byte_size_def caml_ba_num_elts_def)



end
