(* ===== verification/Appender_Safety.thy ===== *)
theory Appender_Safety
  imports Staging_Properties Prepared_Calls
begin

text \<open>
  The stubs of an appender run to completion from an idle connection and leave it idle.
  \<open>appender_ok\<close> is what holds of an appender between two stubs: a usable appender knows the
  type and the NULL-ability of every active column, the staged chunks exist and have the
  columns' types, and no more rows are staged than the chunks hold.
\<close>

subsection \<open>What the code relies on\<close>

text \<open>
  Names for what the engine knows of its handles: the type a logical type stands for, the type
  of a column of an appender, the chunks that were made for a list of types, and the handles
  that stem from the metadata query.
\<close>

record engine_types =
  type_of :: "nat \<Rightarrow> duckdb_type"
  column_of :: "nat \<Rightarrow> nat \<Rightarrow> duckdb_type"
  chunks_of :: "duckdb_type list \<Rightarrow> nat set"
  metadata_handles :: "nat set"

definition appender_releases :: "'e appender_api \<Rightarrow> bool" where
  "appender_releases A \<longleftrightarrow> 0 < duckdb_vector_size A \<and> (\<forall>g e. fst (duckdb_appender_destroy A g e) = None)"

text \<open>
  A logical type has one type, the columns of an appender keep theirs, and a chunk made for
  some logical types has room for a vector of each.
\<close>

definition typed_engine :: "'e chunk_api \<Rightarrow> 'e appender_api \<Rightarrow> engine_types \<Rightarrow> bool" where
  "typed_engine C A G \<longleftrightarrow> (\<forall>t e. duckdb_get_type_id A t e = type_of G t) \<and>
     (\<forall>g i e. type_of G (fst (duckdb_appender_column_type A (Some g) i e)) = column_of G g i) \<and>
     (\<forall>ls e h. fst (duckdb_create_data_chunk A (if ls = [] then None else Some ls) (length ls) e) = Some h \<longrightarrow>
        h \<in> chunks_of G (map (type_of G) ls)) \<and>
     (\<forall>ts. chunk_vectors C A ts (chunks_of G ts))"

text \<open>The metadata query has a column of names and a column of Booleans.\<close>

definition metadata_engine :: "'e statement_api \<Rightarrow> 'e chunk_api \<Rightarrow> engine_types \<Rightarrow> bool" where
  "metadata_engine T C G \<longleftrightarrow>
     (\<forall>c e. fst (fst (duckdb_extract_statements T c metadata_sql e)) = 1 \<longrightarrow>
        (\<exists>h\<in>metadata_handles G. snd (fst (duckdb_extract_statements T c metadata_sql e)) = Some h)) \<and>
     (\<forall>h\<in>metadata_handles G. \<forall>c e. fst (fst (duckdb_prepare_extracted_statement T c (Some h) 0 e)) = DuckDBSuccess \<longrightarrow>
        (\<exists>s\<in>metadata_handles G. snd (fst (duckdb_prepare_extracted_statement T c (Some h) 0 e)) = Some s)) \<and>
     (\<forall>s\<in>metadata_handles G. \<forall>e. fst (fst (duckdb_execute_prepared T (Some s) e)) = DuckDBSuccess \<longrightarrow>
        snd (fst (duckdb_execute_prepared T (Some s) e)) \<in> metadata_handles G) \<and>
     (\<forall>r\<in>metadata_handles G. \<forall>e h. fst (duckdb_fetch_chunk C r e) = Some h \<longrightarrow> h \<in> metadata_handles G) \<and>
     (\<forall>h\<in>metadata_handles G. \<forall>e e'. 0 < duckdb_data_chunk_get_size C (Some h) e \<longrightarrow>
        (let names = duckdb_vector_get_data C (duckdb_data_chunk_get_vector C (Some h) 0 e') e';
             flags = duckdb_vector_get_data C (duckdb_data_chunk_get_vector C (Some h) 1 e') e'
         in readable_range (mapped C e') (duckdb_string_t_data C names e') (duckdb_string_t_length C names e') \<and>
            readable_range (mapped C e') flags (duckdb_data_chunk_get_size C (Some h) e)))"

subsection \<open>The invariant of an appender\<close>

definition appender_ok :: "'e appender_api \<Rightarrow> engine_types \<Rightarrow> appender_owner \<Rightarrow> bool" where
  "appender_ok A G x \<longleftrightarrow> (a_appender x = None \<longrightarrow> a_staged x = None \<and> a_logical x = None) \<and> (case a_types x of
      None \<Rightarrow> a_staged x = None \<and> a_staged_capacity x = 0 \<and> a_staged_rows x = 0 \<and> a_logical x = None \<and>
        (a_appender x = None \<or> a_status x \<noteq> DUCKDB_ML_STATUS_OK)
    | Some ts \<Rightarrow> staging_ok A ts (chunks_of G ts) x \<and> (\<forall>ls. a_logical x = Some ls \<longrightarrow> ls \<noteq> [] \<and> map (type_of G) ls = ts) \<and>
        (\<forall>g. a_appender x = Some g \<longrightarrow> a_status x = DUCKDB_ML_STATUS_OK \<longrightarrow> map (column_of G g) [0..<a_columns x] = ts \<and>
           (\<exists>bs. a_nullable x = Some bs \<and> length bs = a_columns x)))"

text \<open>It belongs to connection \<open>a\<close>, is open or not, and \<open>m\<close> chunks are staged at least.\<close>

definition tended :: "nat \<Rightarrow> 'e appender_api \<Rightarrow> engine_types \<Rightarrow> bool \<Rightarrow> nat \<Rightarrow> appender_owner \<Rightarrow> bool" where
  "tended a A G b m x \<longleftrightarrow> a_parent x = a \<and> appender_ok A G x \<and> (a_appender x \<noteq> None) = b \<and> m \<le> a_staged_capacity x"

definition at_appender :: "nat \<Rightarrow> (appender_owner \<Rightarrow> bool) \<Rightarrow> 'e world \<Rightarrow> bool" where
  "at_appender p P w \<longleftrightarrow> (\<exists>x. appenders w p = Some x \<and> P x)"

lemma stable_at_appender [simp]: "stable (at_appender p P :: 'e world \<Rightarrow> bool)"
proof (unfold stable_def, intro allI impI)
  fix b j and w w' :: "'e world"
  assume e: "evo {b} {} j w w'" and h: "at_appender p P w"
  have "heap_rel (evo_appender {}) (appenders w) (appenders w')" using e by (simp add: evo_def)
  then have "rel_option (evo_appender {} p) (appenders w p) (appenders w' p)" by (simp add: heap_rel_def)
  then have "appenders w' p = appenders w p"
    by (cases "appenders w p"; cases "appenders w' p") (auto simp: evo_appender_def)
  then show "at_appender p P w'" using h by (simp add: at_appender_def)
qed

lemma at_appenderE:
  assumes "busy a Y f n cl u k w0 (at_appender p P) w"
  obtains x where "appenders w p = Some x" and "P x" and "busy a Y f n cl u k w0 (at_appender p ((=) x)) w"
  using assms by (auto simp: busy_def at_appender_def)

lemma at_appender_weaken:
  "busy a Y f n cl u k w0 (at_appender p P) w \<Longrightarrow> (\<And>x. P x \<Longrightarrow> Q x) \<Longrightarrow> busy a Y f n cl u k w0 (at_appender p Q) w"
  by (auto simp: busy_def at_appender_def)

lemma read_appender:
  assumes "busy a Y f n cl u k w0 (at_appender p P) w" and "\<And>x. appenders w p = Some x \<Longrightarrow> P x \<Longrightarrow> runs (g x) Q"
  shows "runs (bind (deref (appenders w) p) g) Q"
  using assms by (auto simp: busy_def at_appender_def)

lemma on_appender_step:
  assumes "busy a Y f n cl u k w0 (at_appender p P) w" and "p \<in> Y"
    and "\<And>x. P x \<Longrightarrow> a_parent (g x) = a_parent x \<and> of_nat (appender_resources (g x)) = of_nat (appender_resources x) + d \<and> Q (g x)"
  shows "runs (on_appender p g w) (busy a Y f n cl u (k - d) w0 (at_appender p Q))"
proof (rule on_appender_busy [OF assms(1,2)])
  have "heap_rel (evo_appender Y) (appenders w0) (appenders w)" using assms(1) by (simp add: busy_def during_def evo_def)
  moreover have "appenders w p \<noteq> None" using assms(1) by (auto simp: busy_def at_appender_def)
  ultimately show "appenders w0 p \<noteq> None" using heap_rel_None by force
qed (use assms(3) in \<open>auto simp: at_appender_def\<close>)

lemmas keep_appender_step = on_appender_step [where d = 0, simplified]

subsection \<open>Admission and errors\<close>

text \<open>An assertion on an appender that no failure breaks.\<close>

locale appender_assertion =
  fixes a :: nat and P :: "appender_owner \<Rightarrow> bool"
  assumes parent: "P x \<Longrightarrow> a_parent x = a"
    and failed: "P x \<Longrightarrow> s \<noteq> DUCKDB_ML_STATUS_OK \<Longrightarrow> P (x\<lparr>a_status := s, a_message := m\<rparr>)"
begin

lemma cancelled: "P x \<Longrightarrow> P (x\<lparr>a_status := DUCKDB_ML_STATUS_CANCELLED\<rparr>)"
  using failed [of x DUCKDB_ML_STATUS_CANCELLED "a_message x"] by simp

lemma appender_error_busy:
  assumes "busy a Y f n cl u k w0 (at_appender p P) w" and "p \<in> Y"
  shows "runs (appender_error p m w) (busy a Y f n cl u k w0 (at_appender p (\<lambda>x. P x \<and> a_status x \<noteq> DUCKDB_ML_STATUS_OK)))"
  unfolding appender_error_def
  by (rule keep_appender_step [OF assms]) (auto simp: appender_resources_def intro: failed)

text \<open>Both admissions, told by what the native call leaves; \<open>v\<close> says whether it is interruptible.\<close>

lemma admission_busy:
  assumes "runs m (\<lambda>(admission, w'). busy a Y True 0 False (v \<and> admission = DUCKDB_ML_CALL_ADMITTED) k w0 (at_appender p ((=) x)) w')"
    and "P x" and "a_status x = DUCKDB_ML_STATUS_OK" and "p \<in> Y"
  shows "runs (bind m (\<lambda>(admission, w). if admission = DUCKDB_ML_CALL_CANCELLED
      then bind (on_appender p (\<lambda>x. x\<lparr>a_status := DUCKDB_ML_STATUS_CANCELLED\<rparr>) w) (\<lambda>w. Inr (False, w)) else Inr (True, w)))
    (\<lambda>(b, w'). busy a Y True 0 False (v \<and> b) k w0 (at_appender p (\<lambda>x. P x \<and> (a_status x = DUCKDB_ML_STATUS_OK) = b)) w')"
proof (rule runs_bind_pair [OF assms(1)])
  fix admission w1
  assume b: "busy a Y True 0 False (v \<and> admission = DUCKDB_ML_CALL_ADMITTED) k w0 (at_appender p ((=) x)) w1"
  have "runs (on_appender p (\<lambda>x. x\<lparr>a_status := DUCKDB_ML_STATUS_CANCELLED\<rparr>) w1)
      (busy a Y True 0 False False k w0 (at_appender p (\<lambda>x. P x \<and> a_status x \<noteq> DUCKDB_ML_STATUS_OK)))" if "admission = DUCKDB_ML_CALL_CANCELLED"
    using b that assms(2) by (intro keep_appender_step [where P = "(=) x", OF _ assms(4)]) (auto simp: appender_resources_def intro: cancelled)
  moreover have "busy a Y True 0 False v k w0 (at_appender p (\<lambda>x. P x \<and> a_status x = DUCKDB_ML_STATUS_OK)) w1"
    if "admission \<noteq> DUCKDB_ML_CALL_CANCELLED"
    using b that assms(2,3) by (cases admission) (auto elim: at_appender_weaken)
  ultimately show "runs (if admission = DUCKDB_ML_CALL_CANCELLED
      then bind (on_appender p (\<lambda>x. x\<lparr>a_status := DUCKDB_ML_STATUS_CANCELLED\<rparr>) w1) (\<lambda>w. Inr (False, w)) else Inr (True, w1))
    (\<lambda>(b, w'). busy a Y True 0 False (v \<and> b) k w0 (at_appender p (\<lambda>x. P x \<and> (a_status x = DUCKDB_ML_STATUS_OK) = b)) w')"
    by (cases "admission = DUCKDB_ML_CALL_CANCELLED") (auto elim!: runs_bindI)
qed

lemma not_admitted:
  assumes "busy a Y True 0 False False k w0 (at_appender p ((=) x)) w" and "P x" and "a_status x \<noteq> DUCKDB_ML_STATUS_OK"
  shows "busy a Y True 0 False False k w0 (at_appender p (\<lambda>x. P x \<and> a_status x \<noteq> DUCKDB_ML_STATUS_OK)) w"
  using assms by (auto elim: at_appender_weaken)

lemma admit_user_busy:
  assumes "busy a Y True 0 False False k w0 (at_appender p P) w" and "p \<in> Y"
  shows "runs (admit_user p w) (\<lambda>(b, w'). busy a Y True 0 False b k w0 (at_appender p (\<lambda>x. P x \<and> (a_status x = DUCKDB_ML_STATUS_OK) = b)) w')"
proof -
  obtain x where x: "appenders w p = Some x" "P x" "busy a Y True 0 False False k w0 (at_appender p ((=) x)) w"
    using assms(1) by (rule at_appenderE)
  have "runs (duckdb_ml_native_user_call_begin a w)
      (\<lambda>(admission, w'). busy a Y True 0 False (True \<and> admission = DUCKDB_ML_CALL_ADMITTED) k w0 (at_appender p ((=) x)) w')"
    unfolding simp_thms by (rule frame_pair [OF x(3)]) (rule user_call_begin_runs)
  from admission_busy [OF this x(2) _ assms(2)] not_admitted [OF x(3,2)] show ?thesis
    using x(1) parent [OF x(2)] by (cases "a_status x = DUCKDB_ML_STATUS_OK") (simp_all add: admit_user_def)
qed

lemma admit_scalar_busy:
  assumes "busy a Y True 0 False False k w0 (at_appender p P) w" and "p \<in> Y"
  shows "runs (admit_scalar p w) (\<lambda>(b, w'). busy a Y True 0 False False k w0 (at_appender p (\<lambda>x. P x \<and> (a_status x = DUCKDB_ML_STATUS_OK) = b)) w')"
proof -
  obtain x where x: "appenders w p = Some x" "P x" "busy a Y True 0 False False k w0 (at_appender p ((=) x)) w"
    using assms(1) by (rule at_appenderE)
  have "runs (duckdb_ml_native_noninterruptible_call_begin a w)
      (\<lambda>(admission, w'). busy a Y True 0 False (False \<and> admission = DUCKDB_ML_CALL_ADMITTED) k w0 (at_appender p ((=) x)) w')"
    unfolding simp_thms by (rule noninterruptible_call_begin_busy [OF x(3)])
  from admission_busy [OF this x(2) _ assms(2)] not_admitted [OF x(3,2)] show ?thesis
    using x(1) parent [OF x(2)] by (cases "a_status x = DUCKDB_ML_STATUS_OK") (simp_all add: admit_scalar_def)
qed

text \<open>A refused call makes the appender fail; its diagnosis is released in a cleanup.\<close>

lemma check_busy:
  assumes "busy a Y f n cl False k w0 (at_appender p P) w" and "p \<in> Y" and "n < 98" and "rt = DUCKDB_ML_RUNTIME_HELD \<Longrightarrow> \<not> f"
  shows "runs (check A p state rt w)
    (busy a Y f n cl False k w0 (at_appender p (\<lambda>x. P x \<and> (state \<noteq> DuckDBSuccess \<longrightarrow> a_status x \<noteq> DUCKDB_ML_STATUS_OK))))"
proof (cases "state = DuckDBSuccess")
  case True
  then show ?thesis using assms(1) by (simp add: check_def)
next
  case False
  let ?R = "at_appender p (\<lambda>x. P x \<and> a_status x \<noteq> DUCKDB_ML_STATUS_OK)"
  obtain x where x: "appenders w p = Some x" "P x" using assms(1) by (rule at_appenderE)
  obtain data w1 where data: "engine (duckdb_appender_error_data A (a_appender x)) w = (data, w1)" by (meson surj_pair)
  note error = appender_error_busy [OF engine_busy [OF assms(1) data] assms(2)]
  have release: "runs (bind (duckdb_ml_native_cleanup_begin a rt w) (\<lambda>w.
      bind (call a Destroy_error_data (duckdb_destroy_error_data A d) w) (\<lambda>(_, w). duckdb_ml_native_cleanup_end a rt w)))
      (busy a Y f n cl False k w0 ?R)" if "busy a Y f n cl False k w0 ?R w" for d w
    by (insert that assms(3)) (rule steps cleanup_end_busy | assumption | rule assms(4) | (simp; fail))+
  show ?thesis
    using x False parent [OF x(2)] by (simp add: check_def data) (auto intro!: runs_bindI [OF error] release [unfolded parent [OF x(2), symmetric]] split: option.splits)
qed

end

lemma tended_failed: "tended a A G b m x \<Longrightarrow> s \<noteq> DUCKDB_ML_STATUS_OK \<Longrightarrow> tended a A G b m (x\<lparr>a_status := s, a_message := e\<rparr>)"
  by (auto simp: tended_def appender_ok_def staging_ok_def split: option.splits)

interpretation tending: appender_assertion a "tended a A G b m" for a A G b m
  by unfold_locales (simp_all add: tended_failed tended_def [THEN iffD1])

subsection \<open>Releasing the staging memory\<close>

text \<open>
  During the loops that destroy chunks: \<open>c\<close> chunks are counted, those from \<open>i\<close> on exist, and
  \<open>J\<close> holds.
\<close>

definition releasing :: "nat \<Rightarrow> (appender_owner \<Rightarrow> bool) \<Rightarrow> nat \<Rightarrow> nat \<Rightarrow> appender_owner \<Rightarrow> bool" where
  "releasing a J c i x \<longleftrightarrow> a_parent x = a \<and> J x \<and> a_staged_capacity x = c \<and>
     (\<forall>k. i \<le> k \<longrightarrow> k < c \<longrightarrow> (\<exists>slots h. a_staged x = Some slots \<and> k < length slots \<and> slots ! k = Some h))"

lemma destroy_staged_busy:
  assumes "busy a Y f n cl u k w0 (at_appender p (releasing a J c i)) w" and "p \<in> Y" and "i < c" and "allowed_call n cl u Destroy_chunk"
    and "\<And>x slots h. J x \<Longrightarrow> a_staged x = Some slots \<Longrightarrow> J (x\<lparr>a_staged := Some (slots[i := h])\<rparr>)"
  shows "runs (destroy_staged C p i w) (busy a Y f n cl u (k - 1) w0 (at_appender p (releasing a J c (Suc i))))"
proof -
  obtain x where x: "appenders w p = Some x" "releasing a J c i x" "busy a Y f n cl u k w0 (at_appender p ((=) x)) w"
    using assms(1) by (rule at_appenderE)
  then obtain slots h where h: "a_staged x = Some slots" "i < length slots" "slots ! i = Some h"
    using assms(3) by (auto simp: releasing_def)
  have "runs (bind (call a Destroy_chunk (duckdb_destroy_data_chunk C h) w) (\<lambda>(h', w).
      bind (on_appender p (\<lambda>x. x\<lparr>a_staged := Some (slots[i := h'])\<rparr>) w) (\<lambda>w. Inr (released w))))
      (busy a Y f n cl u (k - 1) w0 (at_appender p (releasing a J c (Suc i))))"
  proof (rule call_then [OF x(3) assms(4)])
    fix h' w1
    assume "busy a Y f n cl u k w0 (at_appender p ((=) x)) w1"
    from keep_appender_step [where P = "(=) x", OF this assms(2)]
    show "runs (bind (on_appender p (\<lambda>x. x\<lparr>a_staged := Some (slots[i := h'])\<rparr>) w1) (\<lambda>w. Inr (released w)))
        (busy a Y f n cl u (k - 1) w0 (at_appender p (releasing a J c (Suc i))))"
    proof (rule runs_bindI)
      have "releasing a J c (Suc i) (x\<lparr>a_staged := Some (slots[i := h'])\<rparr>)"
        using x(2) assms(5) [OF _ h(1), of h'] h by (auto simp: releasing_def)
      then show "x = y \<Longrightarrow> a_parent (y\<lparr>a_staged := Some (slots[i := h'])\<rparr>) = a_parent y \<and>
          of_nat (appender_resources (y\<lparr>a_staged := Some (slots[i := h'])\<rparr>)) = (of_nat (appender_resources y) :: 32 word) \<and>
          releasing a J c (Suc i) (y\<lparr>a_staged := Some (slots[i := h'])\<rparr>)" for y
        using h(1) by (auto simp: appender_resources_def)
    qed (simp add: busy_counters)
  qed
  then show ?thesis using x(1,2) h by (simp add: destroy_staged_def releasing_def)
qed

lemma destroy_all_staged_busy:
  assumes "busy a Y f n cl u k w0 (at_appender p (releasing a J c i)) w" and "p \<in> Y" and "i \<le> c" and "allowed_call n cl u Destroy_chunk"
    and "\<And>x slots j h. J x \<Longrightarrow> a_staged x = Some slots \<Longrightarrow> i \<le> j \<Longrightarrow> J (x\<lparr>a_staged := Some (slots[j := h])\<rparr>)"
  shows "runs (for_each (destroy_staged C p) [i..<c] w) (busy a Y f n cl u (k - of_nat (c - i)) w0 (at_appender p (releasing a J c c)))"
  using assms(1,3,5)
proof (induction "c - i" arbitrary: i k w)
  case 0
  then show ?case by simp
next
  case (Suc m)
  then have list: "[i..<c] = i # [Suc i..<c]" and i: "i < c" and m: "c - i = Suc (c - Suc i)" by (simp_all add: upt_conv_Cons)
  show ?case
    unfolding list for_each.simps
  proof (rule runs_bindI [OF destroy_staged_busy [OF Suc.prems(1) assms(2) i assms(4)]])
    fix w1
    assume "busy a Y f n cl u (k - 1) w0 (at_appender p (releasing a J c (Suc i))) w1"
    then show "runs (for_each (destroy_staged C p) [Suc i..<c] w1) (busy a Y f n cl u (k - of_nat (c - i)) w0 (at_appender p (releasing a J c c)))"
      using Suc.hyps(1) [of "Suc i" "k - 1" w1] Suc.hyps(2) Suc.prems(3) i by (simp add: m diff_diff_eq)
  qed (use Suc.prems(3) in simp)
qed

text \<open>Nothing is staged and nothing is open any more.\<close>

definition emptied :: "nat \<Rightarrow> appender_owner \<Rightarrow> bool" where
  "emptied a x \<longleftrightarrow> a_parent x = a \<and> a_appender x = None \<and> a_staged x = None \<and> a_staged_capacity x = 0 \<and> a_staged_rows x = 0 \<and>
     a_logical x = None \<and> (\<forall>ts. a_types x = Some ts \<longrightarrow> a_columns x = length ts)"

lemma emptied_tended: "emptied a x \<Longrightarrow> tended a A G False 0 x"
  by (auto simp: emptied_def tended_def appender_ok_def staging_ok_def split: option.splits)

text \<open>An appender whose handle is gone already, with its batch still there.\<close>

definition leaving :: "nat \<Rightarrow> 'e appender_api \<Rightarrow> engine_types \<Rightarrow> appender_owner \<Rightarrow> bool" where
  "leaving a A G x \<longleftrightarrow> a_appender x = None \<and> (\<exists>g. tended a A G True 0 (x\<lparr>a_appender := Some g\<rparr>))"

text \<open>What the release of \<open>x\<close> leaves alone until the very end.\<close>

definition frees :: "appender_owner \<Rightarrow> appender_owner \<Rightarrow> bool" where
  "frees x y \<longleftrightarrow> a_appender y = None \<and> a_logical y = a_logical x \<and> a_columns y = a_columns x \<and>
     (\<forall>ts. a_types y = Some ts \<longrightarrow> a_columns y = length ts)"

lemma leaving_frees:
  assumes "leaving a A G x"
  shows "releasing a (\<lambda>y. frees x y \<and> (a_staged y = None) = (a_staged x = None)) (a_staged_capacity x) 0 x"
    and "a_logical x = Some ls \<Longrightarrow> length ls = a_columns x" and "a_parent x = a"
  using assms
  by (cases "a_types x"; cases "a_staged x"; force simp: leaving_def releasing_def frees_def tended_def appender_ok_def staging_ok_def)+

lemma release_chunk_array:
  assumes "busy a Y f n cl u k w0 (at_appender p (releasing a (\<lambda>y. frees x y \<and> (a_staged y = None) = (a_staged x = None)) c c)) w" and "p \<in> Y"
  shows "runs (if a_staged x \<noteq> None then bind (on_appender p (\<lambda>x. x\<lparr>a_staged := None\<rparr>) w) (\<lambda>w. Inr (released w)) else Inr w)
    (busy a Y f n cl u k w0 (at_appender p (\<lambda>y. a_parent y = a \<and> frees x y \<and> a_staged y = None \<and> a_staged_capacity y = c)))"
proof (cases "a_staged x = None")
  case True
  then show ?thesis using assms(1) by (auto elim!: at_appender_weaken simp: releasing_def)
next
  case False
  then have "runs (on_appender p (\<lambda>x. x\<lparr>a_staged := None\<rparr>) w)
      (busy a Y f n cl u (k - (- 1)) w0 (at_appender p (\<lambda>y. a_parent y = a \<and> frees x y \<and> a_staged y = None \<and> a_staged_capacity y = c)))"
    by (intro on_appender_step [OF assms]) (auto simp: releasing_def frees_def appender_resources_def present_iff)
  from release_step [OF this] show ?thesis using False by simp
qed

lemma release_capacity:
  assumes "busy a Y f n cl u (k - of_nat c) w0
      (at_appender p (\<lambda>y. a_parent y = a \<and> frees x y \<and> a_staged y = None \<and> a_staged_capacity y = c)) w" and "p \<in> Y"
  shows "runs (on_appender p (\<lambda>x. x\<lparr>a_staged_capacity := 0, a_staged_rows := 0\<rparr>) w) (busy a Y f n cl u k w0
    (at_appender p (\<lambda>y. a_parent y = a \<and> frees x y \<and> a_staged y = None \<and> a_staged_capacity y = 0 \<and> a_staged_rows y = 0)))"
proof -
  have "runs (on_appender p (\<lambda>x. x\<lparr>a_staged_capacity := 0, a_staged_rows := 0\<rparr>) w) (busy a Y f n cl u (k - of_nat c - (- of_nat c)) w0
      (at_appender p (\<lambda>y. a_parent y = a \<and> frees x y \<and> a_staged y = None \<and> a_staged_capacity y = 0 \<and> a_staged_rows y = 0)))"
    by (rule on_appender_step [OF assms]) (auto simp: frees_def appender_resources_def)
  then show ?thesis by simp
qed

lemma release_logical:
  assumes "busy a Y f n cl u k w0
      (at_appender p (\<lambda>y. a_parent y = a \<and> frees x y \<and> a_staged y = None \<and> a_staged_capacity y = 0 \<and> a_staged_rows y = 0)) w" and "p \<in> Y"
    and "\<And>ls. a_logical x = Some ls \<Longrightarrow> length ls = a_columns x" and "allowed_call n cl u Destroy_logical_type"
  shows "runs (case a_logical x of None \<Rightarrow> Inr w | Some types \<Rightarrow>
       bind (for_each (destroy_logical A' a types) [0..<a_columns x] w) (\<lambda>w.
       bind (on_appender p (\<lambda>x. x\<lparr>a_logical := None\<rparr>) w) (\<lambda>w. Inr (released w)))) (busy a Y f n cl u k w0 (at_appender p (emptied a)))"
proof (cases "a_logical x")
  case None
  then show ?thesis using assms(1) by (auto elim!: at_appender_weaken simp: frees_def emptied_def)
next
  case (Some ls)
  let ?R = "at_appender p (\<lambda>y. a_parent y = a \<and> frees x y \<and> a_staged y = None \<and> a_staged_capacity y = 0 \<and> a_staged_rows y = 0)"
  have "runs (destroy_logical A' a ls i w) (busy a Y f n cl u k w0 ?R)" if "busy a Y f n cl u k w0 ?R w" "i < a_columns x" for i w
    using that(2) assms(3) [OF Some] by (simp add: destroy_logical_def) (rule call_then [OF that(1) assms(4)], simp)
  then have "runs (for_each (destroy_logical A' a ls) [0..<a_columns x] w) (busy a Y f n cl u k w0 ?R)"
    by (intro runs_for_each [where I = "busy a Y f n cl u k w0 ?R"]) (auto intro: assms(1))
  then show ?thesis
    unfolding Some option.case
  proof (rule runs_bindI)
    fix w1
    assume "busy a Y f n cl u k w0 ?R w1"
    then have "runs (on_appender p (\<lambda>x. x\<lparr>a_logical := None\<rparr>) w1) (busy a Y f n cl u (k - (- 1)) w0 (at_appender p (emptied a)))"
      by (rule on_appender_step [OF _ assms(2)]) (use Some in \<open>auto simp: frees_def emptied_def appender_resources_def present_def\<close>)
    from release_step [OF this] show "runs (bind (on_appender p (\<lambda>x. x\<lparr>a_logical := None\<rparr>) w1) (\<lambda>w. Inr (released w)))
        (busy a Y f n cl u k w0 (at_appender p (emptied a)))" .
  qed
qed

lemma release_staging_busy:
  assumes "busy a Y f n cl u k w0 (at_appender p (leaving a A G)) w" and "p \<in> Y"
    and "allowed_call n cl u Destroy_chunk" and "allowed_call n cl u Destroy_logical_type"
  shows "runs (release_staging C A' p w) (busy a Y f n cl u k w0 (at_appender p (emptied a)))"
proof -
  obtain x where x: "appenders w p = Some x" "leaving a A G x" "busy a Y f n cl u k w0 (at_appender p ((=) x)) w"
    using assms(1) by (rule at_appenderE)
  let ?c = "a_staged_capacity x" and ?J = "\<lambda>y. frees x y \<and> (a_staged y = None) = (a_staged x = None)"
  have "busy a Y f n cl u k w0 (at_appender p (releasing a ?J ?c 0)) w"
    using x(3) by (rule at_appender_weaken) (use leaving_frees(1) [OF x(2)] in simp)
  then have "runs (for_each (destroy_staged C p) [0..<?c] w) (busy a Y f n cl u (k - of_nat (?c - 0)) w0 (at_appender p (releasing a ?J ?c ?c)))"
    by (rule destroy_all_staged_busy [OF _ assms(2) _ assms(3)]) (auto simp: frees_def)
  then have chunks: "runs (for_each (destroy_staged C p) [0..<?c] w) (busy a Y f n cl u (k - of_nat ?c) w0 (at_appender p (releasing a ?J ?c ?c)))"
    by simp
  show ?thesis
    unfolding release_staging_def deref_Some [where m = "appenders w", OF x(1)] bind_Inl_Inr leaving_frees(3) [OF x(2)]
    by (rule runs_bindI [OF chunks], rule runs_bindI [OF release_chunk_array [OF _ assms(2)]], assumption,
        rule runs_bindI [OF release_capacity [OF _ assms(2)]], assumption,
        rule release_logical [OF _ assms(2) leaving_frees(2) [OF x(2)] assms(4)])
qed

end
