(* ===== verification/Appender_Calls.thy ===== *)
theory Appender_Calls
  imports Appender_Safety
begin

text \<open>
  Appending, flushing and closing, from an idle connection back to an idle connection: the
  appender stays \<open>tended\<close>, and a closed one holds no handle and nothing staged.
\<close>

subsection \<open>Rows\<close>

lemma tended_rows:
  assumes "tended a A G b m x"
  shows "tended a A G b m (x\<lparr>a_staged_rows := 0, a_stage_failed := s\<rparr>)"
  using assms by (cases x) (auto simp: tended_def appender_ok_def staging_ok_def split: option.splits)

lemma tended_mono: "tended a A G b m x \<Longrightarrow> m' \<le> m \<Longrightarrow> tended a A G b m' x"
  by (simp add: tended_def)

lemma clear_input_busy:
  assumes "busy a Y f n cl u k w0 (at_appender p (tended a A G b m)) w" and "p \<in> Y"
  shows "runs (clear_input (Some p) w) (busy a Y f n cl u k w0 (at_appender p (\<lambda>x. tended a A G b m x \<and> a_staged_rows x = 0)))"
  unfolding clear_input_def option.case
  by (rule keep_appender_step [OF assms]) (auto simp: tended_rows appender_resources_def)

subsection \<open>User calls\<close>

text \<open>An admitted call, the end of its bracket, and the look at its outcome.\<close>

lemma submit_busy:
  assumes "busy a Y True 0 False True k w0 (at_appender p (tended a A G b m)) w" and "p \<in> Y" and "interruptible j" and "\<not> destructor j"
  shows "runs (bind (call a j fn w) (\<lambda>(state, w). bind (duckdb_ml_native_user_call_end a w) (\<lambda>w. check A p state DUCKDB_ML_RUNTIME_RELEASED w)))
    (busy a Y True 0 False False k w0 (at_appender p (tended a A G b m)))"
  by (insert assms(1))
    (rule steps runs_conseq [OF tending.check_busy] | assumption | rule assms(2) | (simp add: assms(3,4); fail) | erule at_appender_weaken)+

lemma admitted_busy:
  assumes "busy a Y True 0 False False k w0 (at_appender p (tended a A G b m)) w" and "p \<in> Y"
  shows "runs (admit_user p w) (\<lambda>(go_on, w'). busy a Y True 0 False go_on k w0 (at_appender p (tended a A G b m)) w')"
  by (rule runs_conseq [OF tending.admit_user_busy [OF assms]]) (auto elim!: at_appender_weaken)

lemma admit_submit_then:
  assumes "busy a Y True 0 False False k w0 (at_appender p (tended a A G b m)) w" and "p \<in> Y" and "interruptible j" and "\<not> destructor j"
    and "\<And>w. busy a Y True 0 False False k w0 (at_appender p (tended a A G b m)) w \<Longrightarrow> runs (rest w) Q"
  shows "runs (bind (admit_user p w) (\<lambda>(admitted, w).
       bind (if admitted
             then bind (call a j fn w) (\<lambda>(state, w).
                  bind (duckdb_ml_native_user_call_end a w) (\<lambda>w.
                  check A p state DUCKDB_ML_RUNTIME_RELEASED w))
             else Inr w) rest)) Q"
proof (rule runs_bind_pair [OF admitted_busy [OF assms(1,2)]])
  fix admitted w1
  assume b: "busy a Y True 0 False admitted k w0 (at_appender p (tended a A G b m)) w1"
  have "runs (if admitted then bind (call a j fn w1) (\<lambda>(state, w). bind (duckdb_ml_native_user_call_end a w) (\<lambda>w.
      check A p state DUCKDB_ML_RUNTIME_RELEASED w)) else Inr w1) (busy a Y True 0 False False k w0 (at_appender p (tended a A G b m)))"
    using b submit_busy [OF _ assms(2-4), of a k w0 A G b m w1 fn] by auto
  then show "runs (bind (if admitted then bind (call a j fn w1) (\<lambda>(state, w). bind (duckdb_ml_native_user_call_end a w) (\<lambda>w.
      check A p state DUCKDB_ML_RUNTIME_RELEASED w)) else Inr w1) rest) Q"
    by (rule runs_bindI) (rule assms(5))
qed

subsection \<open>Closing\<close>

lemma close_flushing_busy:
  assumes "busy a Y False 0 False u k w0 (at_appender p (tended a A G b m)) w" and "p \<in> Y"
  shows "runs (close_flushing A p DUCKDB_ML_RUNTIME_RELEASED w) (busy a Y False 0 False False k w0 (at_appender p (tended a A G b m)))"
proof -
  obtain x where x: "appenders w p = Some x" "tended a A G b m x" using assms(1) by (rule at_appenderE)
  have "a_parent x = a" using x(2) by (simp add: tended_def)
  then show ?thesis
    unfolding close_flushing_def deref_Some [where m = "appenders w", OF x(1)] bind_Inl_Inr
    by (simp only:) (rule work_begin_then [OF assms(1)], rule admit_submit_then [OF _ assms(2)], assumption, simp, simp, rule work_end_busy)
qed

lemma tended_leaving: "tended a A G True m x \<Longrightarrow> leaving a A G (x\<lparr>a_appender := None\<rparr>)"
  by (cases x) (auto simp: leaving_def tended_def)

lemma tended_open: "tended a A G True m x \<Longrightarrow> \<exists>g. a_appender x = Some g"
  by (simp add: tended_def)

text \<open>The cleanup of an open appender.\<close>

lemma close_cleanup_busy:
  assumes "busy a Y False 0 cl u k w0 (at_appender p (tended a A G True m)) w" and "p \<in> Y" and A: "appender_releases A"
  shows "runs (bind (duckdb_ml_native_cleanup_begin a rt w) (\<lambda>w.
                bind (call a Appender_clear (duckdb_appender_clear A g) w) (\<lambda>(state, w).
                bind (check A p state rt w) (\<lambda>w.
                bind (call a Appender_destroy (duckdb_appender_destroy A g) w) (\<lambda>(h, w).
                bind (on_appender p (\<lambda>x. x\<lparr>a_appender := h\<rparr>) w) (\<lambda>w.
                bind (release_staging C A p (released w)) (\<lambda>w.
                duckdb_ml_native_cleanup_end a rt w)))))))
    (busy a Y False 0 cl False k w0 (at_appender p (tended a A G False 0)))"
proof -
  have checked: "runs (check A p state rt w) (busy a Y False (Suc 0) cl False k w0 (at_appender p (tended a A G True m)))"
    if "busy a Y False (Suc 0) cl False k w0 (at_appender p (tended a A G True m)) w" for state w
    by (rule runs_conseq [OF tending.check_busy [OF that assms(2)]]) (auto elim!: at_appender_weaken)
  have gone: "runs (on_appender p (\<lambda>x. x\<lparr>a_appender := None\<rparr>) w) (busy a Y False (Suc 0) cl False (k - (- 1)) w0 (at_appender p (leaving a A G)))"
    if "busy a Y False (Suc 0) cl False k w0 (at_appender p (tended a A G True m)) w" for w
    by (rule on_appender_step [OF that assms(2)]) (auto dest: tended_leaving tended_open simp: appender_resources_def present_def)
  have emptied: "runs (bind (release_staging C A p (released w)) (\<lambda>w. duckdb_ml_native_cleanup_end a rt w))
      (busy a Y False 0 cl False k w0 (at_appender p (tended a A G False 0)))"
    if "busy a Y False (Suc 0) cl False (k - (- 1)) w0 (at_appender p (leaving a A G)) w" for w
  proof -
    have "busy a Y False (Suc 0) cl False k w0 (at_appender p (leaving a A G)) (released w)"
      using busy_counters(2) [OF that] by simp
    from release_staging_busy [OF this assms(2)] show ?thesis
      by (rule runs_bindI) (simp_all add: cleanup_end_busy [OF at_appender_weaken] emptied_tended)
  qed
  have destroy: "runs (bind (call a Appender_destroy (duckdb_appender_destroy A g) w) (\<lambda>(h, w).
                bind (on_appender p (\<lambda>x. x\<lparr>a_appender := h\<rparr>) w) (\<lambda>w.
                bind (release_staging C A p (released w)) (\<lambda>w.
                duckdb_ml_native_cleanup_end a rt w))))
    (busy a Y False 0 cl False k w0 (at_appender p (tended a A G False 0)))"
    if "busy a Y False (Suc 0) cl False k w0 (at_appender p (tended a A G True m)) w" for w
  proof (rule runs_bind_pair [OF call_busy [OF that]])
    fix h w1
    assume b: "busy a Y False (Suc 0) cl False k w0 (at_appender p (tended a A G True m)) w1 \<and> (\<exists>e. h = fst (duckdb_appender_destroy A g e))"
    then have h: "h = None" using A by (auto simp: appender_releases_def)
    show "runs (bind (on_appender p (\<lambda>x. x\<lparr>a_appender := h\<rparr>) w1) (\<lambda>w.
                bind (release_staging C A p (released w)) (\<lambda>w. duckdb_ml_native_cleanup_end a rt w)))
        (busy a Y False 0 cl False k w0 (at_appender p (tended a A G False 0)))"
      unfolding h by (rule runs_bindI [OF gone [OF b [THEN conjunct1]]]) (rule emptied)
  qed simp
  show ?thesis
    by (insert assms(1)) (rule steps runs_bindI [OF checked] destroy | assumption | (simp; fail))+
qed

lemma close_native_busy:
  assumes "busy a Y False 0 cl False k w0 (at_appender p (tended a A G b m)) w" and "p \<in> Y" and A: "appender_releases A"
    and "flush \<Longrightarrow> \<not> cl \<and> rt = DUCKDB_ML_RUNTIME_RELEASED"
  shows "runs (close_native C A (Some p) flush rt w) (busy a Y False 0 cl False k w0 (at_appender p (tended a A G False 0)))"
proof -
  obtain x where x: "appenders w p = Some x" "tended a A G b m x" using assms(1) by (rule at_appenderE)
  have parent: "a_parent x = a" and b: "(a_appender x \<noteq> None) = b" using x(2) by (simp_all add: tended_def)
  have clear: "runs (clear_input (Some p) w) (busy a Y False 0 cl False k w0 (at_appender p (tended a A G False 0)))"
    if "busy a Y False 0 cl False k w0 (at_appender p (tended a A G False 0)) w" for w
    by (rule runs_conseq [OF clear_input_busy [OF that assms(2)]]) (auto elim: at_appender_weaken)
  have flushed: "runs (if flush \<and> a_status x = DUCKDB_ML_STATUS_OK then close_flushing A p rt w else Inr w)
      (busy a Y False 0 cl False k w0 (at_appender p (tended a A G b m)))"
    using assms(1,4) close_flushing_busy [OF _ assms(2), of a False k w0 A G b m w] by (cases flush) auto
  show ?thesis
  proof (cases b)
    case True
    have "(a_appender x \<noteq> None) = True" using b True by simp
    then show ?thesis
      unfolding close_native_def option.case deref_Some [where m = "appenders w", OF x(1)] bind_Inl_Inr parent
      by (simp only: if_True) (rule runs_bindI [OF runs_bindI [OF flushed] clear], rule close_cleanup_busy [OF _ assms(2) A], simp only: True)
  next
    case False
    then have "busy a Y False 0 cl False k w0 (at_appender p (tended a A G False 0)) w"
      using assms(1) by (auto elim: at_appender_weaken intro: tended_mono)
    from clear [OF this] show ?thesis using x b False by (simp add: close_native_def)
  qed
qed

subsection \<open>Appending\<close>

lemma tended_chunk:
  assumes "tended a A G b m x" and "i < m"
  obtains h where "staged_chunk x i = Inr h"
proof (cases "a_types x")
  case None
  then show ?thesis using assms by (simp add: tended_def appender_ok_def)
next
  case (Some ts)
  then have "staging_ok A ts (chunks_of G ts) x" "i < a_staged_capacity x" using assms by (simp_all add: tended_def appender_ok_def)
  then show ?thesis by (rule staging_chunk) (rule that)
qed

text \<open>Every chunk that holds a row is there.\<close>

lemma tended_rows_staged:
  assumes "tended a A G b m x" and "0 < duckdb_vector_size A"
  shows "tended a A G b (staged_chunks (duckdb_vector_size A) (a_staged_rows x)) x"
proof -
  have "a_staged_rows x \<le> a_staged_capacity x * duckdb_vector_size A"
    using assms(1) by (cases "a_types x") (auto simp: tended_def appender_ok_def staging_ok_def)
  then have "staged_chunks (duckdb_vector_size A) (a_staged_rows x) \<le> a_staged_capacity x"
    using staged_chunks_le [OF assms(2), of "a_staged_capacity x" "a_staged_rows x"] by simp
  then show ?thesis using assms(1) by (simp add: tended_def)
qed

lemma append_chunk_busy:
  assumes "busy a Y True 0 False True k w0 (at_appender p (tended a A G b m)) w" and "p \<in> Y" and "i < m"
  shows "runs (append_chunk A a p i w) (busy a Y True 0 False False k w0 (at_appender p (tended a A G b m)))"
proof -
  obtain x where x: "appenders w p = Some x" "tended a A G b m x" using assms(1) by (rule at_appenderE)
  obtain h where h: "staged_chunk x i = Inr h" using x(2) assms(3) by (rule tended_chunk)
  show ?thesis
    unfolding append_chunk_def deref_Some [where m = "appenders w", OF x(1)] h bind_Inl_Inr
    by (rule submit_busy [OF assms(1,2)]) simp_all
qed

text \<open>After a batch at most \<open>STAGED_RETAINED\<close> chunks are kept.\<close>

definition shrinking :: "nat \<Rightarrow> 'e appender_api \<Rightarrow> engine_types \<Rightarrow> bool \<Rightarrow> appender_owner \<Rightarrow> bool" where
  "shrinking a A G b x \<longleftrightarrow> tended a A G b 0 (x\<lparr>a_staged_capacity := STAGED_RETAINED\<rparr>)"

lemma shrinking_start:
  assumes "tended a A G b m x" and "a_staged_rows x = 0" and "STAGED_RETAINED < a_staged_capacity x"
  shows "releasing a (shrinking a A G b) (a_staged_capacity x) STAGED_RETAINED x"
proof -
  have "shrinking a A G b x"
    using assms by (cases "a_types x"; cases "a_staged x") (simp_all add: shrinking_def tended_def appender_ok_def staging_ok_def)
  moreover have "\<exists>slots h. a_staged x = Some slots \<and> k < length slots \<and> slots ! k = Some h" if "k < a_staged_capacity x" for k
    using assms(1) that by (cases "a_types x"; cases "a_staged x") (force simp: tended_def appender_ok_def staging_ok_def)+
  ultimately show ?thesis using assms(1) by (simp add: releasing_def tended_def)
qed

lemma shrinking_step:
  assumes "shrinking a A G b x" and "a_staged x = Some slots" and "STAGED_RETAINED \<le> j"
  shows "shrinking a A G b (x\<lparr>a_staged := Some (slots[j := h])\<rparr>)"
proof -
  have "\<exists>h'\<in>H. slots[j := h] ! k = Some h'" if "\<forall>k<STAGED_RETAINED. \<exists>h\<in>H. slots ! k = Some h" "k < STAGED_RETAINED" for k H
    using that assms(3) by (metis leD nth_list_update_neq)
  note kept = this
  show ?thesis
    using assms(1,2) by (cases "a_types x") (auto simp: shrinking_def tended_def appender_ok_def staging_ok_def kept)
qed

lemma shrink_staged_busy:
  assumes "busy a Y True 0 False False k w0 (at_appender p (\<lambda>x. tended a A G b m x \<and> a_staged_rows x = 0)) w" and "p \<in> Y"
  shows "runs (shrink_staged C a p w) (busy a Y True 0 False False k w0 (at_appender p (tended a A G b 0)))"
proof -
  obtain x where x: "appenders w p = Some x" "tended a A G b m x \<and> a_staged_rows x = 0"
    "busy a Y True 0 False False k w0 (at_appender p ((=) x)) w" using assms(1) by (rule at_appenderE)
  let ?c = "a_staged_capacity x" and ?J = "shrinking a A G b" and ?r = STAGED_RETAINED
  show ?thesis
  proof (cases "?r < ?c")
    case False
    then show ?thesis using x by (auto simp: shrink_staged_def elim!: at_appender_weaken intro: tended_mono)
  next
    case True
    have start: "busy a Y True 0 False False k w0 (at_appender p (releasing a ?J ?c ?r)) w"
      using shrinking_start [OF x(2) [THEN conjunct1] x(2) [THEN conjunct2] True] by (auto intro: at_appender_weaken [OF x(3)])
    have loop: "runs (for_each (destroy_staged C p) [?r..<?c] w) (busy a Y True (Suc 0) False False (k - of_nat (?c - ?r)) w0
        (at_appender p (releasing a ?J ?c ?c)))"
      if "busy a Y True (Suc 0) False False k w0 (at_appender p (releasing a ?J ?c ?r)) w" for w
      by (rule destroy_all_staged_busy [OF that assms(2)]) (use True in \<open>simp_all add: shrinking_step\<close>)
    have capacity: "runs (on_appender p (\<lambda>x. x\<lparr>a_staged_capacity := ?r\<rparr>) w) (busy a Y True (Suc 0) False False
        (k - of_nat (?c - ?r) - (- of_nat (?c - ?r))) w0 (at_appender p (tended a A G b 0)))"
      if "busy a Y True (Suc 0) False False (k - of_nat (?c - ?r)) w0 (at_appender p (releasing a ?J ?c ?c)) w" for w
    proof (rule on_appender_step [OF that assms(2)])
      fix y
      assume y: "releasing a ?J ?c ?c y"
      have "(of_nat (?r + (?c - ?r)) :: 32 word) = of_nat ?c" using True by simp
      then have "(of_nat ?r :: 32 word) = of_nat ?c - of_nat (?c - ?r)" unfolding of_nat_add by (metis add_diff_cancel_right')
      then show "a_parent (y\<lparr>a_staged_capacity := ?r\<rparr>) = a_parent y \<and>
          of_nat (appender_resources (y\<lparr>a_staged_capacity := ?r\<rparr>)) = of_nat (appender_resources y) + (- of_nat (?c - ?r) :: 32 word) \<and>
          tended a A G b 0 (y\<lparr>a_staged_capacity := ?r\<rparr>)"
        using y by (simp add: releasing_def shrinking_def appender_resources_def)
    qed
    show ?thesis
      unfolding shrink_staged_def deref_Some [where m = "appenders w", OF x(1)] bind_Inl_Inr if_P [OF True]
      by (rule cleanup_begin_then [OF start], simp, rule runs_bindI [OF loop], assumption, rule runs_bindI [OF capacity], assumption)
        (simp add: cleanup_end_busy)
  qed
qed

lemma append_body_busy:
  assumes "busy a Y False 0 False u k w0 (at_appender p (tended a A G b m)) w" and "p \<in> Y"
  shows "runs (append_body C A a p m w) (\<lambda>(_, w'). busy a Y False 0 False False k w0 (at_appender p (tended a A G b 0)) w')"
proof -
  have loop: "runs (for_while (admit_user p) (append_chunk A a p) [0..<m] w) (busy a Y True 0 False False k w0 (at_appender p (tended a A G b m)))"
    if "busy a Y True 0 False False k w0 (at_appender p (tended a A G b m)) w" for w
  proof (rule runs_for_while [where I = "busy a Y True 0 False False k w0 (at_appender p (tended a A G b m))", OF that])
    fix w
    assume "busy a Y True 0 False False k w0 (at_appender p (tended a A G b m)) w"
    from admitted_busy [OF this assms(2)]
    show "runs (admit_user p w) (\<lambda>(go_on, w). if go_on then busy a Y True 0 False True k w0 (at_appender p (tended a A G b m)) w
        else busy a Y True 0 False False k w0 (at_appender p (tended a A G b m)) w)"
      by (rule runs_conseq) (auto split: if_splits)
  qed (simp add: append_chunk_busy assms(2))
  show ?thesis
    unfolding append_body_def
    by (rule work_begin_then [OF assms(1)], rule runs_bindI [OF loop], assumption, rule runs_bindI [OF clear_input_busy [OF _ assms(2)]],
        assumption, rule runs_bindI [OF shrink_staged_busy [OF _ assms(2)]], assumption, rule work_end_then, assumption, simp)
qed

subsection \<open>The entry points\<close>

lemma blocking_tended:
  assumes "busy a Y False 0 cl False 0 w0 (at_appender p P) w" and "\<And>x. P x \<Longrightarrow> Q x"
    and "\<And>w. busy a Y False 0 cl False 0 w0 (at_appender p P) w \<Longrightarrow>
      runs (body w) (\<lambda>(_, w'). busy a Y False 0 cl False 0 w0 (at_appender p Q) w')"
  shows "runs (blocking body w) (\<lambda>(r, w'). settled a Y cl w0 w' \<and> at_appender p Q w')"
  by (rule runs_conseq [OF blocking_busy [OF assms(1,3)]]) (use assms(2) in \<open>auto dest!: busy_settled simp: at_appender_def\<close>)

lemma quiescent_appender: "quiescent a cl w \<Longrightarrow> at_appender p P w \<Longrightarrow> busy a Y False 0 cl False 0 w (at_appender p P) w"
  by (rule quiescent_busy) simp_all

lemma ml_duckdb_flush_appender_runs:
  assumes "Appender w v = Some p" and "quiescent a False w" and "at_appender p (tended a A G b m) w"
  shows "runs (ml_duckdb_flush_appender A v w) (\<lambda>(r, w'). settled a {p} False w w' \<and> at_appender p (tended a A G b m) w')"
proof -
  obtain x where x: "appenders w p = Some x" "a_parent x = a" using assms(3) by (auto simp: at_appender_def tended_def)
  show ?thesis
    unfolding ml_duckdb_flush_appender_def deref_Some [where m = "Appender w", OF assms(1)] deref_Some [where m = "appenders w", OF x(1)]
      bind_Inl_Inr x(2) Let_def
    by (rule blocking_tended [OF quiescent_appender [OF assms(2,3)]], assumption, rule work_begin_then, assumption,
        rule admit_submit_then, assumption, simp_all, rule work_end_then, assumption, simp)
qed

lemma ml_duckdb_close_appender_runs:
  assumes "Appender w v = Some p" and "quiescent a cl w" and "at_appender p (tended a A G b 0) w" and "appender_releases A" and "flush \<Longrightarrow> \<not> cl"
  shows "runs (ml_duckdb_close_appender C A v flush w) (\<lambda>(r, w'). settled a {p} cl w w' \<and> (\<exists>b. at_appender p (tended a A G b 0) w'))"
proof -
  have "runs (ml_duckdb_close_appender C A v flush w) (\<lambda>(r, w'). settled a {p} cl w w' \<and> at_appender p (\<lambda>x. \<exists>b. tended a A G b 0 x) w')"
    unfolding ml_duckdb_close_appender_def assms(1)
    by (rule blocking_tended [OF quiescent_appender [OF assms(2,3)]], blast, rule runs_bindI [OF close_native_busy [OF _ _ assms(4)]], assumption)
      (use assms(5) in \<open>auto elim!: at_appender_weaken\<close>)
  then show ?thesis by (rule runs_conseq) (auto simp: at_appender_def)
qed

lemma ml_duckdb_clear_stage_runs:
  assumes "Appender w v = Some p" and "quiescent a cl w" and "at_appender p (tended a A G b 0) w"
  shows "runs (ml_duckdb_clear_stage v w) (\<lambda>w'. settled a {p} cl w w' \<and> at_appender p (tended a A G b 0) w')"
  unfolding ml_duckdb_clear_stage_def assms(1)
  by (rule runs_conseq [OF clear_input_busy [OF quiescent_appender [OF assms(2,3)]]]) (auto dest!: busy_settled simp: at_appender_def)

lemma ml_duckdb_append_staged_runs:
  assumes "Appender w v = Some p" and "quiescent a False w" and "at_appender p (tended a A G b 0) w" and "0 < duckdb_vector_size A"
  shows "runs (ml_duckdb_append_staged C A v w) (\<lambda>(r, w'). settled a {p} False w w' \<and> at_appender p (tended a A G b 0) w')"
proof -
  have b: "busy a {p} False 0 False False 0 w (at_appender p (tended a A G b 0)) w" using assms(2,3) by (rule quiescent_appender)
  then obtain x where x: "appenders w p = Some x" "tended a A G b 0 x" "busy a {p} False 0 False False 0 w (at_appender p ((=) x)) w"
    by (rule at_appenderE)
  have parent: "a_parent x = a" using x(2) by (simp add: tended_def)
  have refused: "runs (bind (appender_error p m w) (\<lambda>w. bind (clear_input (Some p) w) (\<lambda>w. Inr (Returned (), w))))
      (\<lambda>(r, w'). settled a {p} False w w' \<and> at_appender p (tended a A G b 0) w')" for m
  proof (rule runs_bindI [OF tending.appender_error_busy [OF b]])
    fix w1
    assume "busy a {p} False 0 False False 0 w (at_appender p (\<lambda>x. tended a A G b 0 x \<and> a_status x \<noteq> DUCKDB_ML_STATUS_OK)) w1"
    then have "busy a {p} False 0 False False 0 w (at_appender p (tended a A G b 0)) w1" by (auto elim: at_appender_weaken)
    from clear_input_busy [OF this]
    show "runs (bind (clear_input (Some p) w1) (\<lambda>w. Inr (Returned (), w))) (\<lambda>(r, w'). settled a {p} False w w' \<and> at_appender p (tended a A G b 0) w')"
      by (rule runs_bindI) (auto dest!: busy_settled simp: at_appender_def)
  qed simp
  let ?n = "staged_chunks (duckdb_vector_size A) (a_staged_rows x)"
  note staged = tended_rows_staged [OF x(2) assms(4)]
  have sizes: "runs (for_each (\<lambda>k w. bind (staged_chunk x k) (\<lambda>h. Inr (snd (engine (duckdb_data_chunk_set_size A h (s k)) w)))) [0..<?n] w)
      (busy a {p} False 0 False False 0 w (at_appender p ((=) x)))" for s
  proof (rule runs_for_each [where I = "busy a {p} False 0 False False 0 w (at_appender p ((=) x))", OF x(3)])
    fix i u
    assume i: "i \<in> set [0..<?n]" and u: "busy a {p} False 0 False False 0 w (at_appender p ((=) x)) u"
    obtain h where "staged_chunk x i = Inr h" using staged i by (auto elim: tended_chunk)
    then show "runs (bind (staged_chunk x i) (\<lambda>h. Inr (snd (engine (duckdb_data_chunk_set_size A h (s i)) u))))
        (busy a {p} False 0 False False 0 w (at_appender p ((=) x)))"
      using engine_busy [OF u, of "duckdb_data_chunk_set_size A h (s i)"] by (simp add: prod_eq_iff)
  qed
  have appended: "runs (blocking (append_body C A a p ?n) u) (\<lambda>(r, w'). settled a {p} False w w' \<and> at_appender p (tended a A G b 0) w')"
    if "busy a {p} False 0 False False 0 w (at_appender p ((=) x)) u" for u
  proof (rule blocking_tended)
    show "busy a {p} False 0 False False 0 w (at_appender p (tended a A G b ?n)) u" using that staged by (auto elim: at_appender_weaken)
  qed (auto intro: tended_mono append_body_busy)
  show ?thesis
    unfolding ml_duckdb_append_staged_def assms(1) option.case deref_Some [where m = "appenders w", OF x(1)] bind_Inl_Inr Let_def parent
    by (intro runs_cond refused runs_bindI [OF sizes] appended)
qed

end
