(* ===== verification/Appender_Creation.thy ===== *)
theory Appender_Creation
  imports Appender_Calls
begin

text \<open>
  Creating an appender: the metadata query hands on what the next step needs as long as no
  step has failed, the schema is read column by column, and what is left is \<open>appender_ok\<close>,
  whether creation succeeded or not.
\<close>

subsection \<open>Before the schema is known\<close>

definition bare :: "nat \<Rightarrow> appender_owner \<Rightarrow> bool" where
  "bare a x \<longleftrightarrow> a_parent x = a \<and> a_types x = None \<and> a_nullable x = None \<and> a_staged x = None \<and> a_staged_capacity x = 0 \<and>
     a_staged_rows x = 0 \<and> a_logical x = None"

definition named :: "nat \<Rightarrow> bool \<Rightarrow> appender_owner \<Rightarrow> bool" where
  "named a F x \<longleftrightarrow> bare a x \<and> a_appender x = None \<and> a_schema x \<noteq> None \<and> a_table x \<noteq> None \<and> (a_status x = DUCKDB_ML_STATUS_OK \<longrightarrow> F)"

interpretation naming: appender_assertion a "named a F" for a F
  by unfold_locales (simp_all add: named_def bare_def)

interpretation baring: appender_assertion a "bare a" for a
  by unfold_locales (simp_all add: bare_def)

lemma named_failed: "named a F x \<Longrightarrow> a_status x \<noteq> DUCKDB_ML_STATUS_OK \<Longrightarrow> named a F' x"
  by (simp add: named_def)

lemma named_known: "named a F x \<Longrightarrow> F' \<Longrightarrow> named a F' x"
  by (simp add: named_def)

lemma named_unknown: "named a F x \<Longrightarrow> named a True x"
  by (simp add: named_def)

lemma named_pass:
  assumes "busy a Y f n cl u k w0 (at_appender p (\<lambda>x. named a F x \<and> (a_status x = DUCKDB_ML_STATUS_OK) = b)) w"
  shows "b \<Longrightarrow> F" and "busy a Y f n cl u k w0 (at_appender p (named a True)) w"
    and "\<not> b \<Longrightarrow> busy a Y f n cl u k w0 (at_appender p (named a F')) w"
  using assms by (auto simp: named_def elim!: at_appender_weaken) (auto simp: busy_def at_appender_def named_def)

subsection \<open>The metadata query\<close>

text \<open>A step that is skipped once something has failed.\<close>

lemma user_step:
  assumes "busy a Y True 0 False False k w0 (at_appender p (named a F)) w" and "p \<in> Y"
    and "\<And>w. F \<Longrightarrow> busy a Y True 0 False True k w0 (at_appender p (named a True)) w \<Longrightarrow>
      runs (g w) (\<lambda>(m', w'). busy a Y True 0 False False k w0 (at_appender p (named a (F' m'))) w')"
  shows "runs (bind (admit_user p w) (\<lambda>(admitted, w). if \<not> admitted then Inr (m, w) else g w))
    (\<lambda>(m', w'). busy a Y True 0 False False k w0 (at_appender p (named a (F' m'))) w')"
proof (rule runs_bind_pair [OF naming.admit_user_busy [OF assms(1,2)]])
  fix b w1
  assume s: "busy a Y True 0 False b k w0 (at_appender p (\<lambda>x. named a F x \<and> (a_status x = DUCKDB_ML_STATUS_OK) = b)) w1"
  show "runs (if \<not> b then Inr (m, w1) else g w1) (\<lambda>(m', w'). busy a Y True 0 False False k w0 (at_appender p (named a (F' m'))) w')"
    using named_pass [OF s] assms(3) [of w1] by (cases b) auto
qed

lemma scalar_step:
  assumes "busy a Y True 0 False False k w0 (at_appender p (named a F)) w" and "p \<in> Y"
    and "\<And>w. F \<Longrightarrow> busy a Y True 0 False False k w0 (at_appender p (named a True)) w \<Longrightarrow>
      runs (g w) (\<lambda>(m', w'). busy a Y True 0 False False k w0 (at_appender p (named a (F' m'))) w')"
  shows "runs (bind (admit_scalar p w) (\<lambda>(admitted, w). if \<not> admitted then Inr (m, w) else g w))
    (\<lambda>(m', w'). busy a Y True 0 False False k w0 (at_appender p (named a (F' m'))) w')"
proof (rule runs_bind_pair [OF naming.admit_scalar_busy [OF assms(1,2)]])
  fix b w1
  assume s: "busy a Y True 0 False False k w0 (at_appender p (\<lambda>x. named a F x \<and> (a_status x = DUCKDB_ML_STATUS_OK) = b)) w1"
  show "runs (if \<not> b then Inr (m, w1) else g w1) (\<lambda>(m', w'). busy a Y True 0 False False k w0 (at_appender p (named a (F' m'))) w')"
    using named_pass [OF s] assms(3) [of w1] by (cases b) auto
qed

text \<open>A refusal is reported; without one the condition is known.\<close>

lemma report_busy:
  assumes "busy a Y f n cl u k w0 (at_appender p (named a True)) w" and "p \<in> Y" and "\<not> c \<Longrightarrow> F"
  shows "runs (if c then appender_error p m w else Inr w) (busy a Y f n cl u k w0 (at_appender p (named a F)))"
proof (cases c)
  case True
  then show ?thesis
    using naming.appender_error_busy [OF assms(1,2), of m] by (auto elim!: runs_conseq at_appender_weaken intro: named_failed)
next
  case False
  then show ?thesis using assms(1,3) by (auto elim: at_appender_weaken intro: named_known)
qed

lemma metadata_handed_on:
  assumes "metadata_engine T C G"
  shows "fst (duckdb_extract_statements T c metadata_sql e) = (1, h) \<Longrightarrow> \<exists>h'\<in>metadata_handles G. h = Some h'"
    and "x \<in> metadata_handles G \<Longrightarrow> fst (duckdb_prepare_extracted_statement T c (Some x) 0 e) = (DuckDBSuccess, s) \<Longrightarrow>
      \<exists>s'\<in>metadata_handles G. s = Some s'"
    and "x \<in> metadata_handles G \<Longrightarrow> fst (duckdb_execute_prepared T (Some x) e) = (DuckDBSuccess, r) \<Longrightarrow> r \<in> metadata_handles G"
    and "x \<in> metadata_handles G \<Longrightarrow> fst (duckdb_fetch_chunk C x e) = Some y \<Longrightarrow> y \<in> metadata_handles G"
proof -
  note laws = assms [unfolded metadata_engine_def]
  show "fst (duckdb_extract_statements T c metadata_sql e) = (1, h) \<Longrightarrow> \<exists>h'\<in>metadata_handles G. h = Some h'"
    using laws [THEN conjunct1, THEN spec, THEN spec, of c e] by simp
  show "x \<in> metadata_handles G \<Longrightarrow> fst (duckdb_prepare_extracted_statement T c (Some x) 0 e) = (DuckDBSuccess, s) \<Longrightarrow>
      \<exists>s'\<in>metadata_handles G. s = Some s'"
    using laws [THEN conjunct2, THEN conjunct1, THEN bspec, of x, THEN spec, THEN spec, of c e] by simp
  show "x \<in> metadata_handles G \<Longrightarrow> fst (duckdb_execute_prepared T (Some x) e) = (DuckDBSuccess, r) \<Longrightarrow> r \<in> metadata_handles G"
    using laws [THEN conjunct2, THEN conjunct2, THEN conjunct1, THEN bspec, of x, THEN spec, of e] by simp
  show "x \<in> metadata_handles G \<Longrightarrow> fst (duckdb_fetch_chunk C x e) = Some y \<Longrightarrow> y \<in> metadata_handles G"
    using laws [THEN conjunct2, THEN conjunct2, THEN conjunct2, THEN conjunct1, THEN bspec, of x, THEN spec, THEN spec, of e y] by simp
qed

lemma metadata_extract_busy:
  assumes "busy a Y True 0 False False k w0 (at_appender p (named a F)) w" and "p \<in> Y" and "metadata_engine T C G"
  shows "runs (metadata_extract T a p c (m, w)) (\<lambda>(m', w'). busy a Y True 0 False False k w0
    (at_appender p (named a (\<exists>h\<in>metadata_handles G. m_extracted m' = Some h))) w')"
  unfolding metadata_extract_def prod.case
proof (rule user_step [OF assms(1,2)], rule runs_bind_pair2 [OF call_busy], assumption, simp)
  fix count h w1
  assume b: "busy a Y True 0 False True k w0 (at_appender p (named a True)) w1 \<and> (\<exists>e. (count, h) = fst (duckdb_extract_statements T c metadata_sql e))"
  then have law: "count = 1 \<Longrightarrow> \<exists>h'\<in>metadata_handles G. h = Some h'" using metadata_handed_on(1) [OF assms(3)] by metis
  show "runs (bind (duckdb_ml_native_user_call_end a w1) (\<lambda>w. bind (if count \<noteq> 1
                then appender_error p (case h of None \<Rightarrow> None | Some x \<Rightarrow> duckdb_extract_statements_error T x (w_engine w)) w
                else Inr w) (\<lambda>w. Inr (m\<lparr>m_extracted := h\<rparr>, w))))
     (\<lambda>(m', w'). busy a Y True 0 False False k w0 (at_appender p (named a (\<exists>h\<in>metadata_handles G. m_extracted m' = Some h))) w')"
    by (rule user_call_end_then [OF b [THEN conjunct1]], rule runs_bindI [OF report_busy [OF _ assms(2)]], assumption) (rule law, simp, simp)
qed

lemma metadata_prepare_busy:
  assumes "busy a Y True 0 False False k w0 (at_appender p (named a (\<exists>h\<in>metadata_handles G. m_extracted m = Some h))) w"
    and "p \<in> Y" and "metadata_engine T C G"
  shows "runs (metadata_prepare T a p c (m, w)) (\<lambda>(m', w'). busy a Y True 0 False False k w0
    (at_appender p (named a (\<exists>h\<in>metadata_handles G. m_statement m' = Some h))) w')"
  unfolding metadata_prepare_def prod.case
proof (rule user_step [OF assms(1,2)], rule runs_bind_pair2 [OF call_busy], assumption, simp)
  fix state h w1
  assume known: "\<exists>h\<in>metadata_handles G. m_extracted m = Some h"
    and b: "busy a Y True 0 False True k w0 (at_appender p (named a True)) w1 \<and>
      (\<exists>e. (state, h) = fst (duckdb_prepare_extracted_statement T c (m_extracted m) 0 e))"
  then have law: "state = DuckDBSuccess \<Longrightarrow> \<exists>h'\<in>metadata_handles G. h = Some h'" using metadata_handed_on(2) [OF assms(3)] known by metis
  show "runs (bind (duckdb_ml_native_user_call_end a w1) (\<lambda>w. bind (if state \<noteq> DuckDBSuccess
                then appender_error p (if h \<noteq> None then duckdb_prepare_error T h (w_engine w) else None) w
                else Inr w) (\<lambda>w. Inr (m\<lparr>m_statement := h\<rparr>, w))))
     (\<lambda>(m', w'). busy a Y True 0 False False k w0 (at_appender p (named a (\<exists>h\<in>metadata_handles G. m_statement m' = Some h))) w')"
    by (rule user_call_end_then [OF b [THEN conjunct1]], rule runs_bindI [OF report_busy [OF _ assms(2)]], assumption) (rule law, simp, simp)
qed

lemma metadata_bind_busy:
  assumes "busy a Y True 0 False False k w0 (at_appender p (named a (\<exists>h\<in>metadata_handles G. m_statement m = Some h))) w"
    and "p \<in> Y" and "field = a_schema \<or> field = a_table"
  shows "runs (metadata_bind A a p field i (m, w)) (\<lambda>(m', w'). busy a Y True 0 False False k w0
    (at_appender p (named a (\<exists>h\<in>metadata_handles G. m_statement m' = Some h))) w')"
  unfolding metadata_bind_def prod.case
proof (rule scalar_step [OF assms(1,2)])
  fix w1
  assume known: "\<exists>h\<in>metadata_handles G. m_statement m = Some h" and b: "busy a Y True 0 False False k w0 (at_appender p (named a True)) w1"
  obtain x where x: "appenders w1 p = Some x" "named a True x" using b by (rule at_appenderE)
  obtain name where name: "field x = Some name" using x(2) assms(3) by (auto simp: named_def)
  have "runs (bind (if state \<noteq> DuckDBSuccess then appender_error p (Some ''Cannot bind appender metadata'') w else Inr w) (\<lambda>w. Inr (m, w)))
      (\<lambda>(m', w'). busy a Y True 0 False False k w0 (at_appender p (named a (\<exists>h\<in>metadata_handles G. m_statement m' = Some h))) w')"
    if "busy a Y True 0 False False k w0 (at_appender p (named a True)) w" for state w
    by (rule runs_bindI [OF report_busy [OF that assms(2)]], rule known) simp
  then show "runs (bind (deref (appenders w1) p) (\<lambda>x. bind (not_null (field x)) (\<lambda>name.
          bind (call a Bind (duckdb_bind_varchar A (m_statement m) i (c_string name)) w1) (\<lambda>(state, w).
          bind (if state \<noteq> DuckDBSuccess then appender_error p (Some ''Cannot bind appender metadata'') w else Inr w) (\<lambda>w. Inr (m, w))))))
      (\<lambda>(m', w'). busy a Y True 0 False False k w0 (at_appender p (named a (\<exists>h\<in>metadata_handles G. m_statement m' = Some h))) w')"
    unfolding deref_Some [where m = "appenders w1", OF x(1)] name not_null_simps bind_Inl_Inr by (intro call_then [OF b]) simp_all
qed

lemma metadata_execute_busy:
  assumes "busy a Y True 0 False False k w0 (at_appender p (named a (\<exists>h\<in>metadata_handles G. m_statement m = Some h))) w"
    and "p \<in> Y" and "metadata_engine T C G"
  shows "runs (metadata_execute T a p (m, w)) (\<lambda>(m', w'). busy a Y True 0 False False k w0
    (at_appender p (named a (m_result m' \<in> metadata_handles G))) w')"
  unfolding metadata_execute_def prod.case
proof (rule user_step [OF assms(1,2)], rule runs_bind_pair2 [OF call_busy], assumption, simp)
  fix state r w1 w2
  assume known: "\<exists>h\<in>metadata_handles G. m_statement m = Some h"
    and b: "busy a Y True 0 False True k w0 (at_appender p (named a True)) w1 \<and> (\<exists>e. (state, r) = fst (duckdb_execute_prepared T (m_statement m) e))"
  then have law: "state = DuckDBSuccess \<Longrightarrow> r \<in> metadata_handles G" using metadata_handed_on(3) [OF assms(3)] known by metis
  show "runs (bind (duckdb_ml_native_user_call_end a w1) (\<lambda>w. bind (if state \<noteq> DuckDBSuccess
                then appender_error p (duckdb_result_error T r (w_engine w)) w else Inr w) (\<lambda>w. Inr (m\<lparr>m_result := r\<rparr>, w))))
     (\<lambda>(m', w'). busy a Y True 0 False False k w0 (at_appender p (named a (m_result m' \<in> metadata_handles G))) w')"
    by (rule user_call_end_then [OF b [THEN conjunct1]], rule runs_bindI [OF report_busy [OF _ assms(2)]], assumption) (rule law, simp, simp)
qed

text \<open>The chunk of metadata, which has held a row.\<close>

definition described :: "'e chunk_api \<Rightarrow> engine_types \<Rightarrow> metadata \<Rightarrow> bool" where
  "described C G m \<longleftrightarrow> (\<exists>h\<in>metadata_handles G. m_chunk m = Some h \<and> (\<exists>e. 0 < duckdb_data_chunk_get_size C (Some h) e))"

lemma failing_busy:
  assumes "busy a Y f n cl u k w0 (at_appender p (named a F)) w" and "p \<in> Y"
  shows "runs (appender_error p m w) (busy a Y f n cl u k w0 (at_appender p (named a F')))"
  by (rule runs_conseq [OF naming.appender_error_busy [OF assms, of m]]) (auto elim!: at_appender_weaken intro: named_failed)

lemma metadata_fetch_busy:
  assumes "busy a Y True 0 False False k w0 (at_appender p (named a (m_result m \<in> metadata_handles G))) w"
    and "p \<in> Y" and "metadata_engine T C G"
  shows "runs (metadata_fetch T C a p (m, w)) (\<lambda>(m', w'). busy a Y True 0 False False k w0 (at_appender p (named a (described C G m'))) w')"
  unfolding metadata_fetch_def prod.case
proof (rule user_step [OF assms(1,2)], rule runs_bind_pair [OF call_busy], assumption, simp)
  fix chunk w1
  assume known: "m_result m \<in> metadata_handles G"
    and b: "busy a Y True 0 False True k w0 (at_appender p (named a True)) w1 \<and> (\<exists>e. chunk = fst (duckdb_fetch_chunk C (m_result m) e))"
  then have law: "chunk = Some h \<Longrightarrow> h \<in> metadata_handles G" for h using metadata_handed_on(4) [OF assms(3)] by metis
  have report: "runs (if duckdb_result_error T (m_result m) (w_engine w) \<noteq> None
                then appender_error p (duckdb_result_error T (m_result m) (w_engine w)) w
                else if chunk = None \<or> duckdb_data_chunk_get_size C chunk (w_engine w) = 0
                then appender_error p (Some ''Table not found in current database'') w
                else Inr w) (busy a Y True 0 False False k w0 (at_appender p (named a (described C G (m\<lparr>m_chunk := chunk\<rparr>)))))"
    if w: "busy a Y True 0 False False k w0 (at_appender p (named a True)) w" for w
    by (intro runs_cond [OF failing_busy [OF w assms(2)]] report_busy [OF w assms(2)]) (use law in \<open>auto simp: described_def\<close>)
  show "runs (bind (duckdb_ml_native_user_call_end a w1) (\<lambda>w. bind (if duckdb_result_error T (m_result m) (w_engine w) \<noteq> None
                then appender_error p (duckdb_result_error T (m_result m) (w_engine w)) w
                else if chunk = None \<or> duckdb_data_chunk_get_size C chunk (w_engine w) = 0
                then appender_error p (Some ''Table not found in current database'') w
                else Inr w) (\<lambda>w. Inr (m\<lparr>m_chunk := chunk\<rparr>, w))))
     (\<lambda>(m', w'). busy a Y True 0 False False k w0 (at_appender p (named a (described C G m'))) w')"
    by (rule user_call_end_then [OF b [THEN conjunct1]], rule runs_bindI [OF report], assumption) simp
qed

lemma metadata_exhausted_busy:
  assumes "busy a Y True 0 False False k w0 (at_appender p (named a (described C G m))) w" and "p \<in> Y"
  shows "runs (metadata_exhausted T C a p (m, w)) (\<lambda>(m', w'). busy a Y True 0 False False k w0 (at_appender p (named a (described C G m'))) w')"
  unfolding metadata_exhausted_def prod.case
proof (rule user_step [OF assms(1,2)], rule runs_bind_pair [OF call_busy], assumption, simp)
  fix extra w1
  assume known: "described C G m"
    and b: "busy a Y True 0 False True k w0 (at_appender p (named a True)) w1 \<and> (\<exists>e. extra = fst (duckdb_fetch_chunk C (m_result m) e))"
  have report: "runs (case extra of
              Some h \<Rightarrow>
                bind (appender_error p (Some generated_columns) w) (\<lambda>w.
                bind (duckdb_ml_native_cleanup_begin a DUCKDB_ML_RUNTIME_RELEASED w) (\<lambda>w.
                bind (call a Destroy_chunk (duckdb_destroy_data_chunk C h) w) (\<lambda>(_, w).
                duckdb_ml_native_cleanup_end a DUCKDB_ML_RUNTIME_RELEASED w)))
            | None \<Rightarrow>
                if duckdb_result_error T (m_result m) (w_engine w) \<noteq> None
                then appender_error p (duckdb_result_error T (m_result m) (w_engine w)) w
                else Inr w) (busy a Y True 0 False False k w0 (at_appender p (named a (described C G m))))"
    if w: "busy a Y True 0 False False k w0 (at_appender p (named a True)) w" for w
  proof (cases extra)
    case None
    then show ?thesis using report_busy [OF w assms(2)] known by simp
  next
    case (Some h)
    show ?thesis
      unfolding Some option.case
      by (rule runs_bindI [OF failing_busy [OF w assms(2)]]) (rule steps cleanup_end_busy | assumption | (simp; fail))+
  qed
  show "runs (bind (duckdb_ml_native_user_call_end a w1) (\<lambda>w. bind (case extra of
              Some h \<Rightarrow>
                bind (appender_error p (Some generated_columns) w) (\<lambda>w.
                bind (duckdb_ml_native_cleanup_begin a DUCKDB_ML_RUNTIME_RELEASED w) (\<lambda>w.
                bind (call a Destroy_chunk (duckdb_destroy_data_chunk C h) w) (\<lambda>(_, w).
                duckdb_ml_native_cleanup_end a DUCKDB_ML_RUNTIME_RELEASED w)))
            | None \<Rightarrow>
                if duckdb_result_error T (m_result m) (w_engine w) \<noteq> None
                then appender_error p (duckdb_result_error T (m_result m) (w_engine w)) w
                else Inr w) (\<lambda>w. Inr (m, w))))
     (\<lambda>(m', w'). busy a Y True 0 False False k w0 (at_appender p (named a (described C G m'))) w')"
    by (rule user_call_end_then [OF b [THEN conjunct1]], rule runs_bindI [OF report], assumption) simp
qed

subsection \<open>The appender's handle\<close>

text \<open>What the metadata chunk's columns hold may be read in any state of the engine.\<close>

lemma described_reads:
  assumes "metadata_engine T C G" and "described C G m"
  shows "\<exists>name. catalog_name C (m_chunk m) w = Inr name"
    and "i < duckdb_data_chunk_get_size C (m_chunk m) e \<Longrightarrow>
      \<exists>bs. load (mapped C e') (duckdb_vector_get_data C (duckdb_data_chunk_get_vector C (m_chunk m) 1 e') e' + i) 1 = Inr bs"
proof -
  obtain h e0 where h: "h \<in> metadata_handles G" "m_chunk m = Some h" "0 < duckdb_data_chunk_get_size C (Some h) e0"
    using assms(2) by (auto simp: described_def)
  note laws = assms(1) [unfolded metadata_engine_def, THEN conjunct2, THEN conjunct2, THEN conjunct2, THEN conjunct2,
      THEN bspec, OF h(1), THEN spec, THEN spec, THEN mp, unfolded Let_def]
  show "\<exists>name. catalog_name C (m_chunk m) w = Inr name"
    using load_returns [OF laws [OF h(3), of "w_engine w", THEN conjunct1]] h(2) by (auto simp: catalog_name_def Let_def)
  assume i: "i < duckdb_data_chunk_get_size C (m_chunk m) e"
  then have "0 < duckdb_data_chunk_get_size C (Some h) e" using h(2) by simp
  from laws [OF this, of e', THEN conjunct2]
  have "readable_range (mapped C e') (duckdb_vector_get_data C (duckdb_data_chunk_get_vector C (m_chunk m) 1 e') e' + i) 1"
    using i h(2) by (auto simp: readable_range_def)
  from load_returns [OF this] show "\<exists>bs. load (mapped C e') (duckdb_vector_get_data C (duckdb_data_chunk_get_vector C (m_chunk m) 1 e') e' + i) 1 = Inr bs"
    by blast
qed

lemma named_bare: "busy a Y f n cl u k w0 (at_appender p (named a F)) w \<Longrightarrow> busy a Y f n cl u k w0 (at_appender p (bare a)) w"
  by (erule at_appender_weaken) (simp add: named_def)

lemma created_held:
  assumes "busy a Y True 0 False False k w0 (at_appender p (named a True)) w" and "p \<in> Y"
  shows "runs (bind (on_appender p (\<lambda>x. x\<lparr>a_appender := h\<rparr>) w) (\<lambda>w.
      check A p state DUCKDB_ML_RUNTIME_RELEASED (if h \<noteq> None then acquired w else w)))
    (busy a Y True 0 False False k w0 (at_appender p (bare a)))"
proof (rule runs_bindI)
  show "runs (on_appender p (\<lambda>x. x\<lparr>a_appender := h\<rparr>) w) (busy a Y True 0 False False (k - of_nat (present h)) w0 (at_appender p (bare a)))"
    by (rule on_appender_step [OF assms]) (auto simp: named_def bare_def appender_resources_def)
  fix w2
  assume "busy a Y True 0 False False (k - of_nat (present h)) w0 (at_appender p (bare a)) w2"
  then have "busy a Y True 0 False False k w0 (at_appender p (bare a)) (if h \<noteq> None then acquired w2 else w2)"
    by (cases h) (auto intro: acquired_busy)
  from baring.check_busy [OF this assms(2)]
  show "runs (check A p state DUCKDB_ML_RUNTIME_RELEASED (if h \<noteq> None then acquired w2 else w2)) (busy a Y True 0 False False k w0 (at_appender p (bare a)))"
    by (rule runs_conseq) (auto elim: at_appender_weaken)
qed

lemma create_admitted:
  assumes "busy a Y True 0 False False k w0 (at_appender p (named a True)) w" and "p \<in> Y"
  shows "runs (if \<not> admitted then Inr w else bind (deref (appenders w) p) (\<lambda>x.
      bind (not_null (a_schema x)) (\<lambda>schema.
      bind (not_null (a_table x)) (\<lambda>table.
      bind (call a Appender_create (duckdb_appender_create_ext A c name (c_string schema) (c_string table)) w) (\<lambda>((state, h), w).
      bind (on_appender p (\<lambda>x. x\<lparr>a_appender := h\<rparr>) w) (\<lambda>w.
      check A p state DUCKDB_ML_RUNTIME_RELEASED (if h \<noteq> None then acquired w else w)))))))
    (busy a Y True 0 False False k w0 (at_appender p (bare a)))"
proof -
  obtain x where x: "appenders w p = Some x" "named a True x" using assms(1) by (rule at_appenderE)
  obtain schema table where names: "a_schema x = Some schema" "a_table x = Some table" using x(2) by (auto simp: named_def)
  show ?thesis
    unfolding deref_Some [where m = "appenders w", OF x(1)] names not_null_simps bind_Inl_Inr
    by (rule runs_cond, simp add: named_bare [OF assms(1)], rule call_then2 [OF assms(1)], simp, rule created_held [OF _ assms(2)])
qed

lemma create_native_busy:
  assumes "busy a Y True 0 False False k w0 (at_appender p (named a True)) w" and "p \<in> Y" and "metadata_engine T C G" and "described C G m"
  shows "runs (create_native C A a p c m w) (busy a Y True 0 False False k w0 (at_appender p (bare a)))"
proof -
  obtain fails w1 where m: "malloc_fails w = (fails, w1)" by force
  note b1 = malloc_busy [OF assms(1) m]
  obtain name where name: "catalog_name C (m_chunk m) w1 = Inr name" using described_reads(1) [OF assms(3,4)] by blast
  have failed: "runs (appender_error p e w1) (busy a Y True 0 False False k w0 (at_appender p (bare a)))" for e
    by (rule runs_conseq [OF failing_busy [OF b1 assms(2), where F' = True]]) (rule named_bare)
  have passed: "runs (bind (admit_scalar p w1) (\<lambda>(admitted, w). if \<not> admitted then Inr w else bind (deref (appenders w) p) (\<lambda>x.
          bind (not_null (a_schema x)) (\<lambda>schema.
          bind (not_null (a_table x)) (\<lambda>table.
          bind (call a Appender_create (duckdb_appender_create_ext A c name (c_string schema) (c_string table)) w) (\<lambda>((state, h), w).
          bind (on_appender p (\<lambda>x. x\<lparr>a_appender := h\<rparr>) w) (\<lambda>w.
          check A p state DUCKDB_ML_RUNTIME_RELEASED (if h \<noteq> None then acquired w else w))))))))
      (busy a Y True 0 False False k w0 (at_appender p (bare a)))"
    by (rule runs_bind_pair [OF naming.admit_scalar_busy [OF b1 assms(2)]], rule create_admitted [OF _ assms(2)], erule at_appender_weaken, simp)
  show ?thesis
    unfolding create_native_def m prod.case name bind_Inl_Inr by (rule runs_cond [OF failed passed])
qed

subsection \<open>The schema\<close>

text \<open>The types of the first \<open>i\<close> of \<open>n\<close> columns are known.\<close>

definition reading :: "nat \<Rightarrow> engine_types \<Rightarrow> nat \<Rightarrow> nat \<Rightarrow> appender_owner \<Rightarrow> bool" where
  "reading a G n i x \<longleftrightarrow> a_parent x = a \<and> a_staged x = None \<and> a_staged_capacity x = 0 \<and> a_staged_rows x = 0 \<and> a_logical x = None \<and>
     a_columns x = n \<and> (\<exists>ts. a_types x = Some ts \<and> length ts = n \<and> (\<forall>g. a_appender x = Some g \<longrightarrow> (\<forall>j<i. ts ! j = column_of G g j))) \<and>
     (\<exists>bs. a_nullable x = Some bs \<and> length bs = n)"

definition usable :: "nat \<Rightarrow> 'e appender_api \<Rightarrow> engine_types \<Rightarrow> appender_owner \<Rightarrow> bool" where
  "usable a A G x \<longleftrightarrow> a_parent x = a \<and> appender_ok A G x"

interpretation reads: appender_assertion a "reading a G n i" for a G n i
  by unfold_locales (simp_all add: reading_def)

lemma reading_usable:
  assumes "reading a G n i x" and "a_status x = DUCKDB_ML_STATUS_OK \<Longrightarrow> i = n"
  shows "usable a A G x"
proof -
  obtain ts bs where ts: "a_types x = Some ts" "length ts = n" "\<And>g j. a_appender x = Some g \<Longrightarrow> j < i \<Longrightarrow> ts ! j = column_of G g j"
    and bs: "a_nullable x = Some bs" "length bs = n" using assms(1) by (auto simp: reading_def)
  have "map (column_of G g) [0..<n] = ts" if "a_appender x = Some g" "a_status x = DUCKDB_ML_STATUS_OK" for g
    using ts(2) ts(3) [OF that(1)] assms(2) [OF that(2)] by (intro nth_equalityI) simp_all
  then show ?thesis using assms(1) ts bs by (auto simp: usable_def appender_ok_def staging_ok_def reading_def)
qed

lemma bare_usable: "bare a x \<Longrightarrow> a_appender x = None \<or> a_status x \<noteq> DUCKDB_ML_STATUS_OK \<Longrightarrow> usable a A G x"
  by (simp add: bare_def usable_def appender_ok_def)

lemma reading_type:
  assumes "reading a G n i x" and "a_types x = Some ts" and "i < n" and "\<And>g. a_appender x = Some g \<Longrightarrow> t = column_of G g i"
  shows "reading a G n (Suc i) (x\<lparr>a_types := Some (ts[i := t])\<rparr>)"
  using assms by (auto simp: reading_def less_Suc_eq)

lemma read_column_busy:
  assumes "busy a Y True 0 False False k w0 (at_appender p (reading a G n i)) w" and "p \<in> Y" and "i < n"
    and "metadata_engine T C G" and "typed_engine C A G" and "described C G m" and "n = duckdb_data_chunk_get_size C (m_chunk m) e"
  shows "runs (read_column C A a p m i w) (busy a Y True 0 False False k w0 (at_appender p (reading a G n (Suc i))))"
proof -
  obtain x where x: "appenders w p = Some x" "reading a G n i x" "busy a Y True 0 False False k w0 (at_appender p ((=) x)) w"
    using assms(1) by (rule at_appenderE)
  obtain ts bs where ts: "a_types x = Some ts" "length ts = n" and bs: "a_nullable x = Some bs" "length bs = n"
    using x(2) by (auto simp: reading_def)
  obtain t w1 where t: "engine (duckdb_appender_column_type A (a_appender x) i) w = (t, w1)" by force
  note b1 = engine_busy [OF x(3) t]
  let ?t = "duckdb_get_type_id A t (w_engine w1)"
  have "?t = column_of G g i" if "a_appender x = Some g" for g
    using t assms(5) that by (auto simp: typed_engine_def engine_def split_beta)
  then have known: "reading a G n (Suc i) (x\<lparr>a_types := Some (ts[i := ?t])\<rparr>)" by (rule reading_type [OF x(2) ts(1) assms(3)])
  have typed: "runs (on_appender p (\<lambda>x. x\<lparr>a_types := Some (ts[i := ?t])\<rparr>) w1) (busy a Y True 0 False False k w0 (at_appender p (reading a G n (Suc i))))"
    by (rule keep_appender_step [where P = "(=) x", OF b1 assms(2)]) (use known ts(1) in \<open>auto simp: appender_resources_def\<close>)
  have flagged: "runs (on_appender p (\<lambda>x. x\<lparr>a_nullable := Some (bs[i := f])\<rparr>) w) (busy a Y True 0 False False k w0 (at_appender p (reading a G n (Suc i))))"
    if "busy a Y True 0 False False k w0 (at_appender p (reading a G n (Suc i))) w" for f w
    by (rule keep_appender_step [OF that assms(2)]) (use bs(2) in \<open>auto simp: appender_resources_def reading_def\<close>)
  have flag: "runs (bind (load (mapped C (w_engine w))
            (duckdb_vector_get_data C (duckdb_data_chunk_get_vector C (m_chunk m) 1 (w_engine w)) (w_engine w) + i) 1) (\<lambda>f.
     bind (not_null (a_nullable x)) (\<lambda>nullable.
     bind (at_index nullable i) (\<lambda>_.
     on_appender p (\<lambda>x. x\<lparr>a_nullable := Some (nullable[i := (f \<noteq> [0])])\<rparr>) w))))
     (busy a Y True 0 False False k w0 (at_appender p (reading a G n (Suc i))))"
    if "busy a Y True 0 False False k w0 (at_appender p (reading a G n (Suc i))) w" for w
  proof -
    obtain f where f: "load (mapped C (w_engine w))
        (duckdb_vector_get_data C (duckdb_data_chunk_get_vector C (m_chunk m) 1 (w_engine w)) (w_engine w) + i) 1 = Inr f"
      using described_reads(2) [OF assms(4,6), of i e] assms(3,7) by blast
    show ?thesis using flagged [OF that] bs assms(3) unfolding f by simp
  qed
  have index: "at_index ts i = Inr (ts ! i)" using ts(2) assms(3) by simp
  show ?thesis
    unfolding read_column_def deref_Some [where m = "appenders w", OF x(1)] ts(1) not_null_simps bind_Inl_Inr t prod.case index
    by (rule runs_bindI [OF typed], rule cleanup_begin_then, assumption, simp, rule call_then, assumption, simp, rule cleanup_end_then,
        assumption, simp, rule flag)
qed

lemma read_columns_busy:
  assumes "busy a Y True 0 False False k w0 (at_appender p (reading a G n i)) w" and "p \<in> Y" and "i \<le> n"
    and "metadata_engine T C G" and "typed_engine C A G" and "described C G m" and "n = duckdb_data_chunk_get_size C (m_chunk m) e"
  shows "runs (for_while (admit_scalar p) (read_column C A a p m) [i..<n] w) (busy a Y True 0 False False k w0 (at_appender p (usable a A G)))"
  using assms(1,3)
proof (induction "n - i" arbitrary: i w)
  case 0
  then show ?case by (auto elim: at_appender_weaken intro: reading_usable)
next
  case (Suc d)
  then have list: "[i..<n] = i # [Suc i..<n]" and i: "i < n" by (simp_all add: upt_conv_Cons)
  show ?case
    unfolding list for_while.simps
  proof (rule runs_bind_pair [OF reads.admit_scalar_busy [OF Suc.prems(1) assms(2)]])
    fix b w1
    assume w1: "busy a Y True 0 False False k w0 (at_appender p (\<lambda>x. reading a G n i x \<and> (a_status x = DUCKDB_ML_STATUS_OK) = b)) w1"
    show "runs (if b then bind (read_column C A a p m i w1) (for_while (admit_scalar p) (read_column C A a p m) [Suc i..<n]) else Inr w1)
        (busy a Y True 0 False False k w0 (at_appender p (usable a A G)))"
    proof (rule runs_cond)
      have "busy a Y True 0 False False k w0 (at_appender p (reading a G n i)) w1" using w1 by (rule at_appender_weaken) simp
      from read_column_busy [OF this assms(2) i assms(4-7)]
      show "runs (bind (read_column C A a p m i w1) (for_while (admit_scalar p) (read_column C A a p m) [Suc i..<n]))
          (busy a Y True 0 False False k w0 (at_appender p (usable a A G)))"
      proof (rule runs_bindI)
        fix u
        assume "busy a Y True 0 False False k w0 (at_appender p (reading a G n (Suc i))) u"
        from Suc.hyps(1) [OF _ this] Suc.hyps(2) i
        show "runs (for_while (admit_scalar p) (read_column C A a p m) [Suc i..<n] u) (busy a Y True 0 False False k w0 (at_appender p (usable a A G)))"
          by simp
      qed
      assume "\<not> b"
      then show "runs (Inr w1) (busy a Y True 0 False False k w0 (at_appender p (usable a A G)))"
        using w1 by (auto elim!: at_appender_weaken intro: reading_usable)
    qed
  qed
qed

text \<open>While the arrays are allocated: \<open>n\<close> columns, types and flags as given.\<close>

definition shaped :: "nat \<Rightarrow> nat \<Rightarrow> duckdb_type list option \<Rightarrow> bool list option \<Rightarrow> appender_owner \<Rightarrow> bool" where
  "shaped a n ts bs y \<longleftrightarrow> a_parent y = a \<and> a_staged y = None \<and> a_staged_capacity y = 0 \<and> a_staged_rows y = 0 \<and> a_logical y = None \<and>
    a_columns y = n \<and> a_types y = ts \<and> a_nullable y = bs"

lemma shaped_fails:
  assumes "busy a Y f cl b u k w0 (at_appender p (shaped a n ts bs)) w" and "p \<in> Y" and "\<And>l. ts = Some l \<Longrightarrow> length l = n"
  shows "runs (appender_error p msg w) (busy a Y f cl b u k w0 (at_appender p (usable a A G)))"
  unfolding appender_error_def
  by (rule keep_appender_step [OF assms(1,2)])
    (use assms(3) in \<open>auto simp: shaped_def usable_def appender_ok_def staging_ok_def appender_resources_def split: option.splits\<close>)

lemma shaped_types:
  assumes "busy a Y f cl b u k w0 (at_appender p (shaped a n None None)) w" and "p \<in> Y"
  shows "runs (on_appender p (\<lambda>x. x\<lparr>a_types := ts\<rparr>) w)
    (\<lambda>w'. busy a Y f cl b u k w0 (at_appender p (shaped a n ts None)) (if ts = None then w' else acquired w'))"
proof (rule runs_conseq)
  show "runs (on_appender p (\<lambda>x. x\<lparr>a_types := ts\<rparr>) w) (busy a Y f cl b u (k - of_nat (present ts)) w0 (at_appender p (shaped a n ts None)))"
    by (rule on_appender_step [OF assms]) (auto simp: shaped_def appender_resources_def)
qed (cases ts, auto intro: acquired_busy)

lemma shaped_nullable:
  assumes "busy a Y f cl b u k w0 (at_appender p (shaped a n ts None)) w" and "p \<in> Y"
  shows "runs (on_appender p (\<lambda>x. x\<lparr>a_nullable := bs\<rparr>) w)
    (\<lambda>w'. busy a Y f cl b u k w0 (at_appender p (shaped a n ts bs)) (if bs = None then w' else acquired w'))"
proof (rule runs_conseq)
  show "runs (on_appender p (\<lambda>x. x\<lparr>a_nullable := bs\<rparr>) w) (busy a Y f cl b u (k - of_nat (present bs)) w0 (at_appender p (shaped a n ts bs)))"
    by (rule on_appender_step [OF assms]) (auto simp: shaped_def appender_resources_def)
qed (cases bs, auto intro: acquired_busy)

text \<open>Both arrays are allocated, or the appender fails.\<close>

lemma schema_filled:
  assumes "busy a Y True 0 False False k w0 (at_appender p (shaped a n ts bs)) w" and "p \<in> Y"
    and "metadata_engine T C G" and "typed_engine C A G" and "described C G m" and "n = duckdb_data_chunk_get_size C (m_chunk m) e"
    and "ts = (if no_types then None else Some (replicate n (DUCKDB_TYPE_OTHER 0)))"
    and "bs = (if no_nullable then None else Some (replicate n False))"
  shows "runs (if no_types \<or> no_nullable then appender_error p msg w else for_while (admit_scalar p) (read_column C A a p m) [0..<n] w)
    (busy a Y True 0 False False k w0 (at_appender p (usable a A G)))"
proof (rule runs_cond)
  show "runs (appender_error p msg w) (busy a Y True 0 False False k w0 (at_appender p (usable a A G)))"
    by (rule shaped_fails [OF assms(1,2)]) (use assms(7) in \<open>auto split: if_splits\<close>)
  assume "\<not> (no_types \<or> no_nullable)"
  then have "busy a Y True 0 False False k w0 (at_appender p (reading a G n 0)) w"
    using assms(7,8) by (auto intro: at_appender_weaken [OF assms(1)] simp: shaped_def reading_def)
  then show "runs (for_while (admit_scalar p) (read_column C A a p m) [0..<n] w) (busy a Y True 0 False False k w0 (at_appender p (usable a A G)))"
    by (rule read_columns_busy [OF _ assms(2) _ assms(3-6)]) simp
qed

lemma schema_arrays:
  assumes "busy a Y True 0 False False k w0 (at_appender p (shaped a n None None)) w" and "p \<in> Y"
    and "metadata_engine T C G" and "typed_engine C A G" and "described C G m" and "n = duckdb_data_chunk_get_size C (m_chunk m) e"
  shows "runs (case malloc_fails w of (no_types, w) \<Rightarrow>
       bind (on_appender p (\<lambda>x. x\<lparr>a_types := (if no_types then None else Some (replicate n (DUCKDB_TYPE_OTHER 0)))\<rparr>) w) (\<lambda>w.
       case malloc_fails (if no_types then w else acquired w) of (no_nullable, w) \<Rightarrow>
       bind (on_appender p (\<lambda>x. x\<lparr>a_nullable := (if no_nullable then None else Some (replicate n False))\<rparr>) w) (\<lambda>w.
       if no_types \<or> no_nullable
       then appender_error p (Some ''Cannot allocate appender schema'') (if no_nullable then w else acquired w)
       else for_while (admit_scalar p) (read_column C A a p m) [0..<n] (if no_nullable then w else acquired w))))
    (busy a Y True 0 False False k w0 (at_appender p (usable a A G)))"
proof -
  let ?ts = "\<lambda>b. if b then None else Some (replicate n (DUCKDB_TYPE_OTHER 0))" and ?bs = "\<lambda>b. if b then None else Some (replicate n False)"
  obtain no_types w1 where m1: "malloc_fails w = (no_types, w1)" by force
  show ?thesis
    unfolding m1 prod.case
  proof (rule runs_bindI [OF shaped_types [OF malloc_busy [OF assms(1) m1] assms(2)]])
    fix u
    assume "busy a Y True 0 False False k w0 (at_appender p (shaped a n (?ts no_types) None)) (if ?ts no_types = None then u else acquired u)"
    then have u: "busy a Y True 0 False False k w0 (at_appender p (shaped a n (?ts no_types) None)) (if no_types then u else acquired u)"
      by (cases no_types) simp_all
    obtain no_nullable w2 where m2: "malloc_fails (if no_types then u else acquired u) = (no_nullable, w2)" by force
    show "runs (case malloc_fails (if no_types then u else acquired u) of (no_nullable, w) \<Rightarrow>
       bind (on_appender p (\<lambda>x. x\<lparr>a_nullable := ?bs no_nullable\<rparr>) w) (\<lambda>w.
       if no_types \<or> no_nullable
       then appender_error p (Some ''Cannot allocate appender schema'') (if no_nullable then w else acquired w)
       else for_while (admit_scalar p) (read_column C A a p m) [0..<n] (if no_nullable then w else acquired w)))
        (busy a Y True 0 False False k w0 (at_appender p (usable a A G)))"
      unfolding m2 prod.case
    proof (rule runs_bindI [OF shaped_nullable [OF malloc_busy [OF u m2] assms(2)]])
      fix v
      assume "busy a Y True 0 False False k w0 (at_appender p (shaped a n (?ts no_types) (?bs no_nullable))) (if ?bs no_nullable = None then v else acquired v)"
      then have "busy a Y True 0 False False k w0 (at_appender p (shaped a n (?ts no_types) (?bs no_nullable))) (if no_nullable then v else acquired v)"
        by (cases no_nullable) simp_all
      then show "runs (if no_types \<or> no_nullable
          then appender_error p (Some ''Cannot allocate appender schema'') (if no_nullable then v else acquired v)
          else for_while (admit_scalar p) (read_column C A a p m) [0..<n] (if no_nullable then v else acquired v))
        (busy a Y True 0 False False k w0 (at_appender p (usable a A G)))"
        by (rule schema_filled [OF _ assms(2-6) refl refl])
    qed
  qed
qed

lemma read_schema_busy:
  assumes "busy a Y True 0 False False k w0 (at_appender p (bare a)) w" and "p \<in> Y"
    and "metadata_engine T C G" and "typed_engine C A G" and "described C G m" and "n = duckdb_data_chunk_get_size C (m_chunk m) e"
  shows "runs (read_schema C A a p m n w) (busy a Y True 0 False False k w0 (at_appender p (usable a A G)))"
proof -
  obtain x where x: "appenders w p = Some x" using assms(1) by (rule at_appenderE)
  let ?c = "duckdb_appender_column_count A (a_appender x) (w_engine w)"
  have columns: "runs (on_appender p (\<lambda>x. x\<lparr>a_columns := ?c\<rparr>) w) (busy a Y True 0 False False k w0 (at_appender p (\<lambda>x. bare a x \<and> a_columns x = ?c)))"
    by (rule keep_appender_step [OF assms(1,2)]) (auto simp: bare_def appender_resources_def)
  show ?thesis
    unfolding read_schema_def deref_Some [where m = "appenders w", OF x] bind_Inl_Inr Let_def
  proof (rule runs_bindI [OF columns], rule runs_cond)
    fix u
    assume u: "busy a Y True 0 False False k w0 (at_appender p (\<lambda>x. bare a x \<and> a_columns x = ?c)) u"
    have "busy a Y True 0 False False k w0 (at_appender p (bare a)) u" using u by (rule at_appender_weaken) simp
    from baring.appender_error_busy [OF this assms(2)]
    show "runs (appender_error p (Some generated_columns) u) (busy a Y True 0 False False k w0 (at_appender p (usable a A G)))"
      by (rule runs_conseq) (auto elim: at_appender_weaken intro: bare_usable)
    assume "\<not> n \<noteq> ?c"
    then have "busy a Y True 0 False False k w0 (at_appender p (shaped a n None None)) u"
      by (intro at_appender_weaken [OF u]) (auto simp: bare_def shaped_def)
    from schema_arrays [OF this assms(2-6)]
    show "runs (case malloc_fails u of (no_types, w) \<Rightarrow>
       bind (on_appender p (\<lambda>x. x\<lparr>a_types := (if no_types then None else Some (replicate n (DUCKDB_TYPE_OTHER 0)))\<rparr>) w) (\<lambda>w.
       case malloc_fails (if no_types then w else acquired w) of (no_nullable, w) \<Rightarrow>
       bind (on_appender p (\<lambda>x. x\<lparr>a_nullable := (if no_nullable then None else Some (replicate n False))\<rparr>) w) (\<lambda>w.
       if no_types \<or> no_nullable
       then appender_error p (Some ''Cannot allocate appender schema'') (if no_nullable then w else acquired w)
       else for_while (admit_scalar p) (read_column C A a p m) [0..<n] (if no_nullable then w else acquired w))))
      (busy a Y True 0 False False k w0 (at_appender p (usable a A G)))" .
  qed
qed

subsection \<open>The whole call\<close>

lemma named_usable:
  "busy a Y f n cl u k w0 (at_appender p (named a F)) w \<Longrightarrow> busy a Y f n cl u k w0 (at_appender p (usable a A G)) w"
  by (erule at_appender_weaken) (auto simp: named_def intro: bare_usable)

lemma metadata_create_busy:
  assumes "busy a Y True 0 False False k w0 (at_appender p (named a (described C G m))) w" and "p \<in> Y"
    and "metadata_engine T C G" and "typed_engine C A G"
  shows "runs (metadata_create C A a p c (m, w)) (\<lambda>(_, w'). busy a Y True 0 False False k w0 (at_appender p (usable a A G)) w')"
proof -
  have created: "runs (bind (create_native C A a p c m w) (\<lambda>w.
          bind (admit_scalar p w) (\<lambda>(admitted, w).
          bind (if admitted then read_schema C A a p m n w else Inr w) (\<lambda>w. Inr (m, w)))))
      (\<lambda>(_, w'). busy a Y True 0 False False k w0 (at_appender p (usable a A G)) w')"
    if "described C G m" and b: "busy a Y True 0 False False k w0 (at_appender p (named a True)) w" and n: "n = duckdb_data_chunk_get_size C (m_chunk m) e"
    for n e w
  proof (rule runs_bindI [OF create_native_busy [OF b assms(2,3) that(1)]], rule runs_bind_pair [OF baring.admit_scalar_busy [OF _ assms(2)]], assumption)
    fix admitted u
    assume u: "busy a Y True 0 False False k w0 (at_appender p (\<lambda>x. bare a x \<and> (a_status x = DUCKDB_ML_STATUS_OK) = admitted)) u"
    have "runs (if admitted then read_schema C A a p m n u else Inr u) (busy a Y True 0 False False k w0 (at_appender p (usable a A G)))"
    proof (rule runs_cond)
      have "busy a Y True 0 False False k w0 (at_appender p (bare a)) u" using u by (rule at_appender_weaken) simp
      then show "runs (read_schema C A a p m n u) (busy a Y True 0 False False k w0 (at_appender p (usable a A G)))"
        by (rule read_schema_busy [OF _ assms(2-4) that(1) n])
      assume "\<not> admitted"
      with u have "busy a Y True 0 False False k w0 (at_appender p (usable a A G)) u"
        by (auto elim!: at_appender_weaken intro: bare_usable)
      then show "runs (Inr u) (busy a Y True 0 False False k w0 (at_appender p (usable a A G)))" by simp
    qed
    then show "runs (bind (if admitted then read_schema C A a p m n u else Inr u) (\<lambda>w. Inr (m, w)))
        (\<lambda>(_, w'). busy a Y True 0 False False k w0 (at_appender p (usable a A G)) w')"
      by (rule runs_bindI) simp
  qed
  show ?thesis
    unfolding metadata_create_def prod.case Let_def
  proof (rule runs_bind_pair [OF naming.admit_scalar_busy [OF assms(1,2)]])
    fix b w1
    assume s: "busy a Y True 0 False False k w0 (at_appender p (\<lambda>x. named a (described C G m) x \<and> (a_status x = DUCKDB_ML_STATUS_OK) = b)) w1"
    note pass = named_pass [OF s]
    show "runs (if \<not> b then Inr (m, w1) else bind (create_native C A a p c m w1) (\<lambda>w.
          bind (admit_scalar p w) (\<lambda>(admitted, w).
          bind (if admitted then read_schema C A a p m (duckdb_data_chunk_get_size C (m_chunk m) (w_engine w1)) w else Inr w) (\<lambda>w. Inr (m, w)))))
        (\<lambda>(_, w'). busy a Y True 0 False False k w0 (at_appender p (usable a A G)) w')"
      using named_usable [OF pass(2)] created [OF pass(1) pass(2) refl] by (intro runs_cond) auto
  qed
qed

lemma metadata_release_busy:
  fixes w :: "'e world"
  assumes "busy a Y True 0 False False k w0 R w"
  shows "runs (metadata_release T C a m w) (busy a Y True 0 False False k w0 R)"
proof -
  have destroy: "runs (case h of None \<Rightarrow> Inr w | Some h \<Rightarrow> bind (call a j (fn h) w) (\<lambda>(_, w). Inr w)) (busy a Y True (Suc 0) False False k w0 R)"
    if "busy a Y True (Suc 0) False False k w0 R w" and "destructor j" for h :: "nat option" and fn :: "nat \<Rightarrow> 'e \<Rightarrow> 'r \<times> 'e" and j and w :: "'e world"
    by (rule runs_option, simp add: that(1), rule call_then [OF that(1)]) simp_all
  show ?thesis
    unfolding metadata_release_def
    by (rule cleanup_begin_then [OF assms], simp, rule runs_bindI [OF destroy], assumption, simp, rule call_then, assumption, simp,
        rule runs_bindI [OF destroy], assumption, simp, rule runs_bindI [OF destroy], assumption, simp, rule cleanup_end_busy, assumption, simp)
qed

lemma create_body_busy:
  fixes w :: "'e world"
  assumes "busy a Y False 0 False u k w0 (at_appender p (named a True)) w" and "p \<in> Y" and "metadata_engine T C G" and "typed_engine C A G"
  shows "runs (create_body T C A a p c w) (\<lambda>(_, w'). busy a Y False 0 False False k w0 (at_appender p (usable a A G)) w')"
  unfolding create_body_def
proof (rule work_begin_then [OF assms(1)], rule runs_bindI [OF metadata_extract_busy [OF _ assms(2,3)]], assumption, unfold split_paired_all prod.case)
  note on = assms(2)
  fix m :: metadata and w :: "'e world"
  assume "busy a Y True 0 False False k w0 (at_appender p (named a (\<exists>h\<in>metadata_handles G. m_extracted m = Some h))) w"
  note steps = runs_bindI [OF metadata_prepare_busy [OF this on assms(3)]]
  show "runs (bind (metadata_prepare T a p c (m, w)) (\<lambda>s.
     bind (metadata_bind A a p a_schema 1 s) (\<lambda>s.
     bind (metadata_bind A a p a_table 2 s) (\<lambda>s.
     bind (metadata_execute T a p s) (\<lambda>s.
     bind (metadata_fetch T C a p s) (\<lambda>s.
     bind (metadata_exhausted T C a p s) (\<lambda>s.
     bind (metadata_create C A a p c s) (\<lambda>(m, w).
     bind (metadata_release T C a m w) (\<lambda>w.
     bind (duckdb_ml_native_work_end a w) (\<lambda>w. Inr ((), w)))))))))))
    (\<lambda>(_, w'). busy a Y False 0 False False k w0 (at_appender p (usable a A G)) w')"
    by (rule steps, unfold split_paired_all prod.case, rule runs_bindI [OF metadata_bind_busy [OF _ on]], assumption, simp,
        unfold split_paired_all prod.case, rule runs_bindI [OF metadata_bind_busy [OF _ on]], assumption, simp,
        unfold split_paired_all prod.case, rule runs_bindI [OF metadata_execute_busy [OF _ on assms(3)]], assumption,
        unfold split_paired_all prod.case, rule runs_bindI [OF metadata_fetch_busy [OF _ on assms(3)]], assumption,
        unfold split_paired_all prod.case, rule runs_bindI [OF metadata_exhausted_busy [OF _ on]], assumption,
        unfold split_paired_all prod.case, rule runs_bindI [OF metadata_create_busy [OF _ on assms(3,4)]], assumption,
        unfold split_paired_all prod.case, rule runs_bindI [OF metadata_release_busy], assumption, rule work_end_then, assumption, simp)
qed

text \<open>Nothing of the appender exists before; each name is copied, or memory runs out.\<close>

lemma ml_duckdb_create_appender_runs:
  fixes w :: "'e world"
  assumes v: "Appender w v = Some p" and "quiescent a False w" and x: "appenders w p = Some x" "bare a x" "a_appender x = None"
    "a_schema x = None" "a_table x = None" and "metadata_engine T C G" and "typed_engine C A G"
  shows "runs (ml_duckdb_create_appender T C A v schema table w) (\<lambda>(r, w'). settled a {p} False w w' \<and> at_appender p (usable a A G) w')"
proof -
  define P where "P s t y \<longleftrightarrow> bare a y \<and> a_appender y = None \<and> a_schema y = s \<and> a_table y = t" for s t y
  have usable: "P s t y \<Longrightarrow> usable a A G y" for s t y by (auto simp: P_def intro: bare_usable)
  have ends: "settled a {p} False w w' \<and> at_appender p (usable a A G) w'" if "busy a {p} False 0 False False 0 w (at_appender p (P s t)) w'" for s t w'
    using busy_settled [OF at_appender_weaken [OF that usable]] .
  have b: "busy a {p} False 0 False False 0 w (at_appender p (P None None)) w"
    by (rule quiescent_appender [OF assms(2)]) (use x in \<open>simp add: at_appender_def P_def\<close>)
  have schema: "runs (on_appender p (\<lambda>x. x\<lparr>a_schema := Some s\<rparr>) w') (\<lambda>w'. busy a {p} False 0 False False 0 w (at_appender p (P (Some s) None)) (acquired w'))"
    if "busy a {p} False 0 False False 0 w (at_appender p (P None None)) w'" for s w'
  proof (rule runs_conseq)
    show "runs (on_appender p (\<lambda>x. x\<lparr>a_schema := Some s\<rparr>) w') (busy a {p} False 0 False False (0 - 1) w (at_appender p (P (Some s) None)))"
      by (rule on_appender_step [OF that]) (auto simp: P_def bare_def appender_resources_def)
  qed (rule acquired_busy)
  have table: "runs (on_appender p (\<lambda>x. x\<lparr>a_table := Some t\<rparr>) w') (\<lambda>w'. busy a {p} False 0 False False 0 w (at_appender p (P (Some s) (Some t))) (acquired w'))"
    if "busy a {p} False 0 False False 0 w (at_appender p (P (Some s) None)) w'" for s t w'
  proof (rule runs_conseq)
    show "runs (on_appender p (\<lambda>x. x\<lparr>a_table := Some t\<rparr>) w') (busy a {p} False 0 False False (0 - 1) w (at_appender p (P (Some s) (Some t))))"
      by (rule on_appender_step [OF that]) (auto simp: P_def bare_def appender_resources_def)
  qed (rule acquired_busy)
  have body: "runs (bind (deref (appenders u) p) (\<lambda>x. bind (duckdb_ml_connection_handle (a_parent x) u) (\<lambda>c.
        blocking (create_body T C A (a_parent x) p c) (acquired u))))
      (\<lambda>(r, w'). settled a {p} False w w' \<and> at_appender p (usable a A G) w')"
    if "busy a {p} False 0 False False 0 w (at_appender p (P (Some schema) (Some table))) (acquired u)" for u
  proof -
    have named: "busy a {p} False 0 False False 0 w (at_appender p (named a True)) (acquired u)"
      using that by (rule at_appender_weaken) (simp add: P_def named_def)
    obtain y where y: "appenders (acquired u) p = Some y" "named a True y" using named by (rule at_appenderE)
    obtain c where c: "connections (acquired u) a = Some c" using busy_during [OF named] by (rule during_connection)
    have "runs (blocking (create_body T C A a p h) (acquired u)) (\<lambda>(r, w'). settled a {p} False w w' \<and> at_appender p (usable a A G) w')" for h
      by (rule blocking_tended [OF named]) (auto simp: named_def intro: bare_usable create_body_busy assms(8,9))
    then show ?thesis using y c by (simp add: duckdb_ml_connection_handle_def named_def bare_def)
  qed
  obtain f1 w1 where m1: "malloc_fails w = (f1, w1)" by force
  note b1 = malloc_busy [OF b m1]
  have second: "runs (case malloc_fails (acquired u) of (fails, w) \<Rightarrow> if fails then Inr (Out_of_memory, w)
     else bind (on_appender p (\<lambda>x. x\<lparr>a_table := Some table\<rparr>) w) (\<lambda>w.
     bind (deref (appenders w) p) (\<lambda>x. bind (duckdb_ml_connection_handle (a_parent x) w) (\<lambda>c.
     blocking (create_body T C A (a_parent x) p c) (acquired w)))))
      (\<lambda>(r, w'). settled a {p} False w w' \<and> at_appender p (usable a A G) w')"
    if "busy a {p} False 0 False False 0 w (at_appender p (P (Some schema) None)) (acquired u)" for u
  proof -
    obtain f2 w2 where m2: "malloc_fails (acquired u) = (f2, w2)" by force
    note b2 = malloc_busy [OF that m2]
    show ?thesis unfolding m2 prod.case by (intro runs_cond runs_bindI [OF table [OF b2]] body) (use ends [OF b2] in simp_all)
  qed
  show ?thesis
    unfolding ml_duckdb_create_appender_def deref_Some [where m = "Appender w", OF v] bind_Inl_Inr m1 prod.case
    by (intro runs_cond runs_bindI [OF schema [OF b1]] second) (use ends [OF b1] in simp_all)
qed

end
