(* ===== verification/Files_Safety.thy ===== *)
theory Files_Safety
  imports Lifecycle
begin

text \<open>
  The stubs of \<open>local_file_stubs.c\<close> keep the global invariant: the paths a work holds are
  counted, an admitted publication takes a reference of its connection, and finishing gives
  everything back.
\<close>

subsection \<open>Updates of a work\<close>

lemma work_updated:
  assumes wf: "well_formed K ed ea j w" and x: "works w k = Some x" and parent: "f_parent x' = f_parent x"
    and i: "i = j + of_nat (work_resources x) - of_nat (work_resources x')"
  shows "well_formed K ed ea i (put_work k x' w)"
proof -
  have base: "base w" and below: "heaps_below w" using wf by (simp_all add: well_formed_def base_def)
  have "evo {} {k} (0 + of_nat (work_resources x) - of_nat (work_resources x')) w (put_work k x' w)"
    by (rule evo_put_work [OF evo_refl [OF below] x _ parent]) simp
  from evo_well_formed [OF this wf] show ?thesis
    using distinct_owners(5) [OF base, of k] x by (simp add: i algebra_simps)
qed

lemma path_held:
  assumes "wf K w" and "works w k = Some x"
  shows "f_source x = None \<Longrightarrow> wf K (acquired (put_work k (x\<lparr>f_source := Some s\<rparr>) w))"
    and "f_destination x = None \<Longrightarrow> wf K (acquired (put_work k (x\<lparr>f_destination := Some s\<rparr>) w))"
  using well_formed_acquired [OF work_updated [OF assms, of "x\<lparr>f_source := Some s\<rparr>" "- 1"]]
    well_formed_acquired [OF work_updated [OF assms, of "x\<lparr>f_destination := Some s\<rparr>" "- 1"]]
  by (simp_all add: work_resources_def)

lemma path_freed:
  assumes "wf K w" and "works w k = Some x"
  shows "f_source x \<noteq> None \<Longrightarrow> wf K (released (put_work k (x\<lparr>f_source := None\<rparr>) w))"
    and "f_destination x \<noteq> None \<Longrightarrow> wf K (released (put_work k (x\<lparr>f_destination := None\<rparr>) w))"
  using well_formed_released [OF work_updated [OF assms, of "x\<lparr>f_source := None\<rparr>" "0 + 1"]]
    well_formed_released [OF work_updated [OF assms, of "x\<lparr>f_destination := None\<rparr>" "0 + 1"]]
  by (auto simp: work_resources_def)

text \<open>The work becomes a holder of the reference just taken.\<close>

lemma work_linked:
  assumes wf: "well_formed K None (Some a) 0 w" and x: "works w k = Some x" "f_parent x = None" and a: "connections w a \<noteq> None"
  shows "wf K (put_work k (x\<lparr>f_parent := Some a\<rparr>) w)"
proof -
  let ?x = "x\<lparr>f_parent := Some a\<rparr>"
  let ?w = "put_work k ?x w"
  have b: "base w" "heaps_below w" using wf by (simp_all add: well_formed_def base_def)
  have fin: "finite (dom (works w))" by (rule heaps_below_finite(6) [OF b(2)])
  have holders: "connection_holders e ?w = connection_holders e w + points e (Some a)" for e
    using msum_update [OF fin x(1), of ?x "\<lambda>x. points e (f_parent x)"] x(2) by (simp add: connection_holders_def)
  have same: "database_holders d ?w = database_holders d w" for d by (simp add: database_holders_def)
  have "base ?w" using b x by (auto simp: base_def disjoint_owners_def intro: heaps_below_put)
  moreover have "slots_valid ?w" using wf x by (auto simp: well_formed_def slots_valid_def sole_def)
  moreover have "counted None None ?w"
    using wf unfolding counted_def holders same well_formed_def by (auto simp: points_def)
  moreover have "linked K ?w" using wf a by (auto simp: well_formed_def linked_def connection_ok_def request_ok_def)
  moreover have "slack ?w = 0"
    using slack_put(5) [OF b(2) x(1), of ?x] wf by (simp add: work_resources_def well_formed_def)
  ultimately show ?thesis using wf by (simp add: well_formed_def)
qed

subsection \<open>Publishing and removing\<close>

lemma malloc_wf: "malloc_fails w = (b, w') \<Longrightarrow> wf K w \<Longrightarrow> wf K w' \<and> works w' = works w \<and> Work w' = Work w \<and>
    connections w' = connections w \<and> Connection w' = Connection w"
  by (auto simp: malloc_fails_def split: list.splits)

text \<open>Both paths are copied, or memory runs out; \<open>body\<close> finds a work that holds them.\<close>

lemma with_paths_wf:
  assumes wf: "wf K w" and v: "Work w v = Some k" and x: "works w k = Some x" "f_source x = None" "f_destination x = None"
    and body: "\<And>w'. wf K w' \<Longrightarrow> works w' k = Some (x\<lparr>f_source := Some source, f_destination := Some destination\<rparr>) \<Longrightarrow>
      connections w' = connections w \<Longrightarrow> Connection w' = Connection w \<Longrightarrow> runs (body k w') (\<lambda>(r, w'). wf K w')"
  shows "runs (with_paths v source destination body w) (\<lambda>(r, w'). wf K w')"
proof -
  obtain b1 w1 where m1: "malloc_fails w = (b1, w1)" by (meson surj_pair)
  note w1 = malloc_wf [OF m1 wf]
  let ?x = "x\<lparr>f_source := Some source\<rparr>"
  have held: "wf K (acquired (put_work k ?x w1))" using path_held(1) [of K w1 k x] w1 x by simp
  obtain b2 w2 where m2: "malloc_fails (acquired (put_work k ?x w1)) = (b2, w2)" by (meson surj_pair)
  note w2 = malloc_wf [OF m2 held]
  have "wf K (acquired (put_work k (?x\<lparr>f_destination := Some destination\<rparr>) w2))"
    using path_held(2) [of K w2 k ?x] w2 x by simp
  from body [OF this] show ?thesis
    using v x w1 w2 m2 by (auto simp: with_paths_def m1 on_work_def)
qed

lemma link_paths_wf:
  assumes "wf K w" and "works w k = Some (x\<lparr>f_source := Some source, f_destination := Some destination\<rparr>)"
  shows "runs (blocking (link_paths F k) w) (\<lambda>(r, w'). wf K w')"
  using assms by (auto simp: blocking_def pending_raises_def link_paths_def engine_def split: list.splits prod.splits)

lemma ml_duckdb_publish_local_file_wf:
  assumes "wf K w" and "Work w v = Some k" and "works w k = Some x" and "f_source x = None" and "f_destination x = None"
  shows "runs (ml_duckdb_publish_local_file F v source destination w) (\<lambda>(r, w'). wf K w')"
  unfolding ml_duckdb_publish_local_file_def by (rule with_paths_wf [OF assms]) (rule link_paths_wf)

lemma stable_works:
  assumes "\<And>w w' :: 'e world. works w' k = works w k \<Longrightarrow> R w' = R w"
  shows "stable (R :: 'e world \<Rightarrow> bool)"
proof (unfold stable_def, intro allI impI)
  fix b j and w w' :: "'e world"
  assume e: "evo {b} {} j w w'" and h: "R w"
  have "works w' k = works w k" using heap_rel_kept [OF evo_heaps(5) [OF e]] by (auto simp: evo_work_def)
  then show "R w'" using assms h by blast
qed

text \<open>A publication under the connection's admission.\<close>

lemma admitted_link_busy:
  assumes "busy a {} False 0 False u 0 w0 (\<lambda>w. works w k = Some x) w" and "f_source x \<noteq> None" and "f_destination x \<noteq> None"
  shows "runs (bind (duckdb_ml_native_work_begin a w) (\<lambda>w.
         bind (duckdb_ml_native_noninterruptible_call_begin a w) (\<lambda>(admission, w).
         bind (if admission = DUCKDB_ML_CALL_CANCELLED then Inr (- 1, w) else link_paths F k w) (\<lambda>(result, w).
         bind (duckdb_ml_native_work_end a w) (\<lambda>w. Inr (result, w))))))
    (\<lambda>(_, w'). busy a {} False 0 False False 0 w0 (\<lambda>w. works w k = Some x) w')"
proof -
  have link: "runs (if c then Inr (- 1, w) else link_paths F k w) (\<lambda>(_, w'). busy a {} True 0 False False 0 w0 (\<lambda>w. works w k = Some x) w')"
    if "busy a {} True 0 False False 0 w0 (\<lambda>w. works w k = Some x) w" for c w
    using that assms(2,3) busy_outside(3) [OF that]
    by (auto simp: link_paths_def engine_def busy_def split: prod.splits)
  show ?thesis
    by (insert assms(1)) (rule steps runs_bind_pair [OF link] | assumption | (simp; fail))+
qed

lemma ml_duckdb_publish_local_file_admitted_wf:
  fixes w :: "'e world"
  assumes wf: "wf K w" and v: "Work w v = Some k" and x: "works w k = Some x" "f_source x = None" "f_destination x = None" "f_parent x = None"
    and c: "Connection w connection = Some a" "connections w a = Some c" "\<not> c_native_closing c"
  shows "runs (ml_duckdb_publish_local_file_admitted F connection v source destination w) (\<lambda>(r, w'). wf K w')"
  unfolding ml_duckdb_publish_local_file_admitted_def
proof (rule with_paths_wf [OF wf v x(1-3)])
  fix w1 :: "'e world"
  assume w1: "wf K w1" "works w1 k = Some (x\<lparr>f_source := Some source, f_destination := Some destination\<rparr>)"
    "connections w1 = connections w" "Connection w1 = Connection w"
  let ?c = "c\<lparr>c_references := c_references c + 1\<rparr>" and ?x = "x\<lparr>f_source := Some source, f_destination := Some destination, f_parent := Some a\<rparr>"
  let ?w = "put_work k ?x (put_connection a ?c w1)"
  have c1: "connections w1 a = Some c" using w1(3) c(2) by simp
  have wf2: "wf K ?w" using work_linked [OF connection_referenced [OF w1(1) c1], of k] w1(2) x(4) by simp
  have "quiescent a False ?w" using wf_quiescent [OF wf2, of a ?c] c(3) by simp
  then have "busy a {} False 0 False False 0 ?w (\<lambda>w. works w k = Some ?x) ?w"
    by (rule quiescent_busy) (simp_all add: stable_works [of k])
  from blocking_busy [OF this admitted_link_busy]
  have "runs (blocking (\<lambda>w. bind (duckdb_ml_native_work_begin a w) (\<lambda>w.
         bind (duckdb_ml_native_noninterruptible_call_begin a w) (\<lambda>(admission, w).
         bind (if admission = DUCKDB_ML_CALL_CANCELLED then Inr (- 1, w) else link_paths F k w) (\<lambda>(result, w).
         bind (duckdb_ml_native_work_end a w) (\<lambda>w. Inr (result, w)))))) ?w)
      (\<lambda>(r, w'). busy a {} False 0 False False 0 ?w (\<lambda>w. works w k = Some ?x) w' \<or>
        r = Async_exception \<and> busy a {} False 0 False False 0 ?w (\<lambda>w. works w k = Some ?x) w')"
    by simp
  then have "runs (blocking (\<lambda>w. bind (duckdb_ml_native_work_begin a w) (\<lambda>w.
         bind (duckdb_ml_native_noninterruptible_call_begin a w) (\<lambda>(admission, w).
         bind (if admission = DUCKDB_ML_CALL_CANCELLED then Inr (- 1, w) else link_paths F k w) (\<lambda>(result, w).
         bind (duckdb_ml_native_work_end a w) (\<lambda>w. Inr (result, w)))))) ?w) (\<lambda>(r, w'). wf K w')"
    by (rule runs_conseq) (auto dest!: busy_settled intro: settled_well_formed [OF _ wf2])
  then show "runs (bind (duckdb_ml_connection_ref connection w1) (\<lambda>(a, w).
       bind (on_work k (\<lambda>x. x\<lparr>f_parent := Some a\<rparr>) w) (\<lambda>w.
       blocking (\<lambda>w. bind (duckdb_ml_native_work_begin a w) (\<lambda>w.
         bind (duckdb_ml_native_noninterruptible_call_begin a w) (\<lambda>(admission, w).
         bind (if admission = DUCKDB_ML_CALL_CANCELLED then Inr (- 1, w) else link_paths F k w) (\<lambda>(result, w).
         bind (duckdb_ml_native_work_end a w) (\<lambda>w. Inr (result, w)))))) w))) (\<lambda>(r, w'). wf K w')"
    using c(1) c1 w1(2,4) by (simp add: duckdb_ml_connection_ref_def on_connection_def on_work_def)
qed

lemma ml_duckdb_remove_local_file_wf:
  assumes wf: "wf K w" and v: "Work w v = Some k" and x: "works w k = Some x" "f_source x = None"
  shows "runs (ml_duckdb_remove_local_file F v source w) (\<lambda>(r, w'). wf K w')"
proof -
  obtain b w1 where m: "malloc_fails w = (b, w1)" by (meson surj_pair)
  note w1 = malloc_wf [OF m wf]
  have "wf K (acquired (put_work k (x\<lparr>f_source := Some source\<rparr>) w1))" using path_held(1) [of K w1 k x] w1 x by simp
  then show ?thesis
    using v x w1 by (auto simp: ml_duckdb_remove_local_file_def m on_work_def blocking_def pending_raises_def engine_def
        split: list.splits prod.splits)
qed

subsection \<open>Finishing\<close>

lemma work_deleted:
  assumes wf: "wf K w" and v: "Work w v = Some k" and x: "works w k = Some x" and paths: "f_source x = None" "f_destination x = None"
    and small: "small w" and S: "session_releases S" and T: "statement_releases T"
  shows "runs (bind (case f_parent x of None \<Rightarrow> Inr w | Some a \<Rightarrow> duckdb_ml_connection_unref S T (Some a) w) (\<lambda>w.
     Inr (released (w\<lparr>works := (works w)(k := None), Work := (Work w)(v := None)\<rparr>)))) (wf K)"
proof -
  have "work_resources x = 1" using paths by (simp add: work_resources_def)
  note dropped = work_dropped [OF wf v x this]
  show ?thesis
  proof (cases "f_parent x")
    case None
    then have "wf K (released (w\<lparr>works := (works w)(k := None), Work := (Work w)(v := None)\<rparr>))"
      using dropped by (intro well_formed_released) simp
    then show ?thesis using None by simp
  next
    case (Some a)
    have live: "connections w a \<noteq> None" using link_target(5) [OF wf x, of a] Some by auto
    from work_gone.delete [OF dropped [unfolded Some] well_formed_base [OF wf] small live S T]
    have "runs (connection_delete S T (Some a) w) (\<lambda>w'. well_formed K None None 1
        (w'\<lparr>works := (works w')(k := None), Work := (Work w')(v := None)\<rparr>))" by (auto elim: runs_conseq)
    then have "runs (bind (connection_delete S T (Some a) w) (\<lambda>w.
        Inr (released (w\<lparr>works := (works w)(k := None), Work := (Work w)(v := None)\<rparr>)))) (wf K)"
      by (rule runs_bindI) (simp add: well_formed_released)
    then show ?thesis using Some by (simp add: duckdb_ml_connection_unref_def)
  qed
qed

lemma finish_wf:
  fixes w :: "'e world"
  assumes wf: "wf K w" and small: "small w" and S: "session_releases S" and T: "statement_releases T"
  shows "runs (finish S T v w) (wf K)"
proof (cases "Work w v")
  case None
  then show ?thesis using wf by (simp add: finish_def)
next
  case (Some k)
  then obtain x where x: "works w k = Some x" using slot_target(6) [OF wf] by blast
  let ?Q = "\<lambda>y w'. wf K w' \<and> small w' \<and> Work w' v = Some k \<and> works w' k = Some y"
  have source: "runs (free_source k w) (?Q (x\<lparr>f_source := None\<rparr>))"
    using wf small Some x path_freed(1) [OF wf x] by (cases x) (auto simp: free_source_def on_work_def small_def)
  have destination: "runs (free_destination k w1) (?Q (x\<lparr>f_source := None, f_destination := None\<rparr>))"
    if q: "?Q (x\<lparr>f_source := None\<rparr>) w1" for w1
  proof -
    have "wf K w1" "works w1 k = Some (x\<lparr>f_source := None\<rparr>)" using q by simp_all
    from path_freed(2) [OF this] show ?thesis using q by (cases x) (auto simp: free_destination_def on_work_def small_def)
  qed
  show ?thesis
    unfolding finish_def Some option.case
  proof (rule runs_bindI [OF source], rule runs_bindI [OF destination], assumption)
    fix w2 :: "'e world"
    assume q: "?Q (x\<lparr>f_source := None, f_destination := None\<rparr>) w2"
    then have "wf K w2" "Work w2 v = Some k" "works w2 k = Some (x\<lparr>f_source := None, f_destination := None\<rparr>)" "small w2" by simp_all
    from work_deleted [OF this(1-3) _ _ this(4) S T] q
    show "runs (bind (deref (works w2) k) (\<lambda>x. bind (case f_parent x of None \<Rightarrow> Inr w2
           | Some a \<Rightarrow> duckdb_ml_connection_unref S T (Some a) w2) (\<lambda>w.
     Inr (released (w\<lparr>works := (works w)(k := None), Work := (Work w)(v := None)\<rparr>))))) (wf K)" by simp
  qed
qed

lemma finalize_work_wf:
  assumes "wf K w" and "small w" and "session_releases S" and "statement_releases T"
  shows "runs (finalize_work S T v w) (wf K)"
  using finish_wf [of K "count_fallback w" S T v] assms by (simp add: finalize_work_def)

end
