(* ===== verification/Appender_Lifecycle.thy ===== *)
theory Appender_Lifecycle
  imports Appender_Creation Files_Safety
begin

text \<open>
  Every operation of an appender, from creation to the finalizer, keeps the global invariant,
  with \<open>appender_ok\<close> as the invariant of the appenders.
\<close>

subsection \<open>Appenders in a well-formed world\<close>

lemma tended_ok: "tended a A G b m x \<Longrightarrow> appender_ok A G x"
  by (simp add: tended_def)

lemma usable_ok: "usable a A G x \<Longrightarrow> appender_ok A G x"
  by (simp add: usable_def)

lemma appender_between:
  assumes "wf (appender_ok A G) w" and "appenders w p = Some x"
  obtains c where "connections w (a_parent x) = Some c" and "quiescent (a_parent x) (c_native_closing c) w"
    and "at_appender p (tended (a_parent x) A G (a_appender x \<noteq> None) 0) w" and "appender_ok A G x"
proof -
  have ok: "appender_ok A G x" using assms by (auto simp: well_formed_def linked_def)
  obtain c where c: "connections w (a_parent x) = Some c" using link_target(4) [OF assms] by blast
  show ?thesis by (rule that [OF c wf_quiescent [OF assms(1) c] _ ok]) (use assms(2) ok in \<open>simp add: at_appender_def tended_def\<close>)
qed

lemma appender_settled:
  assumes "settled a {p} cl w w'" and "at_appender p P w'" and "\<And>x. P x \<Longrightarrow> K x" and "wf K w"
  shows "wf K w'"
proof (rule settled_well_formed [OF assms(1,4)])
  have "evo {a} {p} 0 w w'" using assms(1) by (simp add: settled_def)
  from evo_base [OF this well_formed_base [OF assms(4)]] have "prepareds w' p = None"
    using distinct_owners(4) [of w' p] assms(2) by (auto simp: at_appender_def)
  then show "cache_ok pr" if "q \<in> {p}" "prepareds w' q = Some pr" for q pr using that by simp
qed (use assms(2,3) in \<open>auto simp: at_appender_def\<close>)

lemma appender_wf:
  assumes "wf K w" and "runs m (\<lambda>(r, w'). settled a {p} cl w w' \<and> at_appender p P w')" and "\<And>x. P x \<Longrightarrow> K x"
  shows "runs m (\<lambda>(r, w'). wf K w')"
  by (rule runs_conseq [OF assms(2)]) (auto intro: appender_settled assms)

subsection \<open>Operations\<close>

lemma ml_duckdb_appender_owner_ok:
  assumes "wf (appender_ok A G) w" and "Connection w v \<noteq> None"
  shows "runs (ml_duckdb_appender_owner v w) (\<lambda>(r, w'). wf (appender_ok A G) w')"
  using assms(2) ml_duckdb_appender_owner_wf [OF assms(1)] by (auto simp: appender_ok_def appender_owner0_def)

lemma ml_duckdb_create_appender_wf:
  assumes wf: "wf (appender_ok A G) w" and v: "Appender w v = Some p" and x: "appenders w p = Some x"
    and c: "connections w (a_parent x) = Some c" "\<not> c_native_closing c"
    and blank: "a_appender x = None" "a_schema x = None" "a_table x = None" "a_types x = None" "a_nullable x = None"
    and G: "metadata_engine T C G" "typed_engine C A G"
  shows "runs (ml_duckdb_create_appender T C A v schema table w) (\<lambda>(r, w'). wf (appender_ok A G) w')"
proof -
  have ok: "appender_ok A G x" using wf x by (auto simp: well_formed_def linked_def)
  have q: "quiescent (a_parent x) False w" using wf_quiescent [OF wf c(1)] c(2) by simp
  have "bare (a_parent x) x" using ok blank by (simp add: bare_def appender_ok_def)
  from ml_duckdb_create_appender_runs [OF v q x this blank(1-3) G]
  show ?thesis by (rule appender_wf [OF wf]) (rule usable_ok)
qed

lemma ml_duckdb_append_wf:
  assumes wf: "wf (appender_ok A G) w" and v: "Appender w v = Some p" and x: "appenders w p = Some x"
    and c: "connections w (a_parent x) = Some c" "\<not> c_native_closing c" and A: "appender_releases A"
  shows "runs (ml_duckdb_append_staged C A v w) (\<lambda>(r, w'). wf (appender_ok A G) w')"
    and "runs (ml_duckdb_flush_appender A v w) (\<lambda>(r, w'). wf (appender_ok A G) w')"
proof -
  obtain b where q: "quiescent (a_parent x) False w" and t: "at_appender p (tended (a_parent x) A G b 0) w"
    using appender_between [OF wf x] c by fastforce
  have "0 < duckdb_vector_size A" using A by (simp add: appender_releases_def)
  from ml_duckdb_append_staged_runs [OF v q t this]
  show "runs (ml_duckdb_append_staged C A v w) (\<lambda>(r, w'). wf (appender_ok A G) w')" by (rule appender_wf [OF wf]) (rule tended_ok)
  from ml_duckdb_flush_appender_runs [OF v q t]
  show "runs (ml_duckdb_flush_appender A v w) (\<lambda>(r, w'). wf (appender_ok A G) w')" by (rule appender_wf [OF wf]) (rule tended_ok)
qed

lemma ml_duckdb_clear_stage_wf:
  assumes wf: "wf (appender_ok A G) w"
  shows "runs (ml_duckdb_clear_stage v w) (wf (appender_ok A G))"
proof (cases "Appender w v")
  case None
  then show ?thesis using wf by (simp add: ml_duckdb_clear_stage_def clear_input_def)
next
  case (Some p)
  then obtain x where x: "appenders w p = Some x" using slot_target(5) [OF wf] by blast
  obtain cl where q: "quiescent (a_parent x) cl w" "at_appender p (tended (a_parent x) A G (a_appender x \<noteq> None) 0) w"
    using appender_between [OF wf x] by blast
  show ?thesis
    by (rule runs_conseq [OF ml_duckdb_clear_stage_runs [OF Some q]]) (auto intro: appender_settled [OF _ _ tended_ok wf])
qed

lemma blocking_nothing_wf:
  assumes "wf K w"
  shows "runs (blocking (\<lambda>w. Inr (y, w)) w) (\<lambda>(r, w'). wf K w')"
  using assms by (auto simp: blocking_def pending_raises_def split: list.splits prod.splits)

lemma ml_duckdb_close_appender_wf:
  assumes wf: "wf (appender_ok A G) w" and A: "appender_releases A"
    and flush: "flush \<longrightarrow> (\<exists>p x c. Appender w v = Some p \<and> appenders w p = Some x \<and> connections w (a_parent x) = Some c \<and> \<not> c_native_closing c)"
  shows "runs (ml_duckdb_close_appender C A v flush w) (\<lambda>(r, w'). wf (appender_ok A G) w')"
proof (cases "Appender w v")
  case None
  then show ?thesis using blocking_nothing_wf [OF wf, of "()"] by (simp add: ml_duckdb_close_appender_def close_native_def)
next
  case (Some p)
  then obtain x where x: "appenders w p = Some x" using slot_target(5) [OF wf] by blast
  obtain c where c: "connections w (a_parent x) = Some c" "quiescent (a_parent x) (c_native_closing c) w"
    "at_appender p (tended (a_parent x) A G (a_appender x \<noteq> None) 0) w" using appender_between [OF wf x] by blast
  have "flush \<Longrightarrow> \<not> c_native_closing c" using flush Some x c(1) by auto
  from ml_duckdb_close_appender_runs [OF Some c(2,3) A this] show ?thesis
    by (rule runs_conseq) (auto intro: appender_settled [OF _ _ tended_ok wf])
qed

subsection \<open>The end\<close>

text \<open>An appender that holds nothing any more; \<open>released\<close> once for each field that did.\<close>

lemma released_present:
  "busy a Y f n cl u k w0 R w \<Longrightarrow> busy a Y f n cl u (k - of_nat (present h)) w0 R (if h \<noteq> None then released w else w)"
  by (cases h) (simp_all add: busy_counters)

definition exhausted :: "nat \<Rightarrow> appender_owner \<Rightarrow> bool" where
  "exhausted a x \<longleftrightarrow> a_parent x = a \<and> appender_resources x = 1 \<and> a_appender x = None \<and> a_types x = None \<and> a_staged x = None \<and>
     a_staged_capacity x = 0 \<and> a_staged_rows x = 0 \<and> a_logical x = None"

lemma exhausted_ok: "exhausted a x \<Longrightarrow> appender_ok A G x"
  by (simp add: exhausted_def appender_ok_def)

lemma tended_emptied: "tended a A G False m x \<Longrightarrow> emptied a x"
  by (auto simp: tended_def emptied_def appender_ok_def staging_ok_def split: option.splits)

lemma release_nothing_busy:
  assumes "busy a Y f n cl u k w0 (at_appender p (emptied a)) w" and "p \<in> Y"
  shows "runs (release_staging C A p w) (busy a Y f n cl u k w0 (at_appender p (emptied a)))"
proof -
  obtain x where x: "appenders w p = Some x" "emptied a x" using assms(1) by (rule at_appenderE)
  have "runs (on_appender p (\<lambda>x. x\<lparr>a_staged_capacity := 0, a_staged_rows := 0\<rparr>) w) (busy a Y f n cl u k w0 (at_appender p (emptied a)))"
    by (rule keep_appender_step [OF assms]) (auto simp: emptied_def appender_resources_def)
  then show ?thesis using x(2) by (simp add: release_staging_def x(1) emptied_def runs_bind)
qed

lemma free_schema_busy:
  assumes "busy a Y f n cl u k w0 (at_appender p (emptied a)) w" and "p \<in> Y"
  shows "runs (free_schema p w) (busy a Y f n cl u k w0 (at_appender p (exhausted a)))"
proof -
  obtain x where x: "appenders w p = Some x" "emptied a x" "busy a Y f n cl u k w0 (at_appender p ((=) x)) w"
    using assms(1) by (rule at_appenderE)
  let ?d = "- of_nat (present (a_schema x)) - of_nat (present (a_table x)) - of_nat (present (a_types x)) - of_nat (present (a_nullable x)) :: 32 word"
  let ?k = "k - of_nat (present (a_schema x)) - of_nat (present (a_table x)) - of_nat (present (a_types x)) - of_nat (present (a_nullable x))"
  have k: "?k - ?d = k" by simp
  note held = released_present [where h = "a_nullable x", OF released_present [where h = "a_types x", OF released_present [where h = "a_table x",
        OF released_present [where h = "a_schema x", OF x(3)]]]]
  show ?thesis
    unfolding free_schema_def deref_Some [where m = "appenders w", OF x(1)] bind_Inl_Inr Let_def
    by (rule on_appender_step [where d = ?d and P = "(=) x", OF held assms(2), unfolded k])
      (use x(2) in \<open>auto simp: emptied_def exhausted_def appender_resources_def\<close>)
qed

lemma delete_owner_wf:
  assumes wf: "wf (appender_ok A G) w" and small: "small w" and v: "Appender w v = Some p"
    and S: "session_releases S" and T: "statement_releases T" and A: "appender_releases A"
  shows "runs (bind (delete_owner S T C A (Some p) w) (\<lambda>w. Inr (w\<lparr>Appender := (Appender w)(v := None)\<rparr>))) (wf (appender_ok A G))"
proof -
  obtain x where x: "appenders w p = Some x" using slot_target(5) [OF wf v] by blast
  let ?a = "a_parent x" and ?K = "appender_ok A G"
  obtain c where c: "connections w ?a = Some c" and q: "quiescent ?a (c_native_closing c) w"
    and t: "at_appender p (tended ?a A G (a_appender x \<noteq> None) 0) w" using appender_between [OF wf x] by blast
  let ?B = "\<lambda>P. busy ?a {p} False 0 (c_native_closing c) False 0 w (at_appender p P)"
  have closed: "runs (close_native C A (Some p) False DUCKDB_ML_RUNTIME_HELD w) (?B (tended ?a A G False 0))"
    by (rule close_native_busy [OF quiescent_appender [OF q t] _ A]) simp_all
  have rest: "runs (bind (deref (appenders w1) p) (\<lambda>x. bind (duckdb_ml_connection_unref S T (Some (a_parent x)) w1) (\<lambda>w.
     Inr (released (w\<lparr>appenders := (appenders w)(p := None)\<rparr>))))) (\<lambda>w'. wf ?K (w'\<lparr>Appender := (Appender w')(v := None)\<rparr>))"
    if b: "?B (exhausted ?a) w1" for w1
  proof -
    have e: "evo {?a} {p} 0 w w1" using b by (auto simp: busy_def during_def)
    have wf1: "wf ?K w1" by (rule appender_settled [OF busy_settled [OF b, THEN conjunct1] busy_settled [OF b, THEN conjunct2] exhausted_ok wf])
    obtain x1 where x1: "appenders w1 p = Some x1" "exhausted ?a x1" using b by (rule at_appenderE)
    have parent: "a_parent x1 = ?a" "appender_resources x1 = 1" using x1(2) by (simp_all add: exhausted_def)
    have v1: "Appender w1 v = Some p" using v evo_same(6) [OF e] by simp
    have a1: "connections w1 ?a \<noteq> None" using c evo_none(2) [OF e] by simp
    have small1: "small w1" using small evo_same(8) [OF e] by (simp add: small_def)
    from appender_gone.delete [OF appender_dropped [OF wf1 v1 x1(1) parent(2), unfolded parent(1)] well_formed_base [OF wf1] small1 a1 S T]
    have "runs (connection_delete S T (Some ?a) w1) (\<lambda>w'. base w' \<and> w_next w' = w_next w1 \<and> well_formed ?K None None 1
        (w'\<lparr>appenders := (appenders w')(p := None), Appender := (Appender w')(v := None)\<rparr>))" .
    then have "runs (bind (connection_delete S T (Some ?a) w1) (\<lambda>w. Inr (released (w\<lparr>appenders := (appenders w)(p := None)\<rparr>))))
        (\<lambda>w'. wf ?K (w'\<lparr>Appender := (Appender w')(v := None)\<rparr>))"
    proof (rule runs_bindI)
      fix w2
      assume w2: "base w2 \<and> w_next w2 = w_next w1 \<and> well_formed ?K None None 1
        (w2\<lparr>appenders := (appenders w2)(p := None), Appender := (Appender w2)(v := None)\<rparr>)"
      have "wf ?K (released (w2\<lparr>appenders := (appenders w2)(p := None), Appender := (Appender w2)(v := None)\<rparr>))"
        by (rule well_formed_released) (use w2 in simp)
      moreover have "released (w2\<lparr>appenders := (appenders w2)(p := None), Appender := (Appender w2)(v := None)\<rparr>) =
          released (w2\<lparr>appenders := (appenders w2)(p := None)\<rparr>)\<lparr>Appender := (Appender w2)(v := None)\<rparr>"
        by (simp add: released_def)
      ultimately show "runs (Inr (released (w2\<lparr>appenders := (appenders w2)(p := None)\<rparr>))) (\<lambda>w'. wf ?K (w'\<lparr>Appender := (Appender w')(v := None)\<rparr>))"
        by simp
    qed
    then show ?thesis using x1 parent by (simp add: duckdb_ml_connection_unref_def)
  qed
  have "runs (delete_owner S T C A (Some p) w) (\<lambda>w'. wf ?K (w'\<lparr>Appender := (Appender w')(v := None)\<rparr>))"
    unfolding delete_owner_def option.case
    by (rule runs_bindI [OF closed], rule runs_bindI [OF release_nothing_busy], rule at_appender_weaken, assumption, rule tended_emptied, assumption,
        simp, rule runs_bindI [OF free_schema_busy], assumption, simp, rule rest)
  then show ?thesis by (rule runs_bindI) simp
qed

lemma ml_duckdb_finish_appender_close_wf:
  assumes "wf (appender_ok A G) w" and "small w" and "session_releases S" and "statement_releases T" and "appender_releases A"
  shows "runs (ml_duckdb_finish_appender_close S T C A v w) (wf (appender_ok A G))"
proof (cases "Appender w v")
  case None
  then show ?thesis using assms(1) by (simp add: ml_duckdb_finish_appender_close_def delete_owner_def fun_upd_idem)
next
  case (Some p)
  then show ?thesis using delete_owner_wf [OF assms(1,2) Some assms(3-)] by (simp add: ml_duckdb_finish_appender_close_def)
qed

lemma finalize_appender_wf:
  assumes "wf (appender_ok A G) w" and "small w" and "session_releases S" and "statement_releases T" and "appender_releases A"
  shows "runs (finalize_appender S T C A v w) (wf (appender_ok A G))"
proof (cases "Appender w v")
  case (Some p)
  then show ?thesis
    using delete_owner_wf [of A G "count_fallback w" v p S T C] assms by (simp add: finalize_appender_def count_fallback_def [THEN arg_cong, of Appender])
qed (simp add: finalize_appender_def assms(1))

end
