(* ===== verification/Staging_Safety.thy ===== *)
theory Staging_Safety
  imports Appender_Lifecycle
begin

text \<open>
  Staging keeps the global invariant. Opening a batch counts what it allocates and keeps
  \<open>appender_ok\<close>; the calls that write values change the engine's memory and the bookkeeping of
  the batch only, and never fault.
\<close>

subsection \<open>Opening a batch\<close>

definition ready :: "nat \<Rightarrow> 'e appender_api \<Rightarrow> engine_types \<Rightarrow> nat \<Rightarrow> appender_owner \<Rightarrow> bool" where
  "ready a A G m x \<longleftrightarrow> tended a A G True m x \<and> a_staged_rows x = 0 \<and> a_status x = DUCKDB_ML_STATUS_OK \<and> (a_logical x = None \<longrightarrow> a_columns x = 0)"

lemma runs_for_upto:
  assumes "I m w" and "m \<le> n" and "\<And>i w. m \<le> i \<Longrightarrow> i < n \<Longrightarrow> I i w \<Longrightarrow> runs (f i w) (I (Suc i))"
  shows "runs (for_each f [m..<n] w) (I n)"
  using assms
proof (induction "n - m" arbitrary: m w)
  case (Suc d)
  then have list: "[m..<n] = m # [Suc m..<n]" and m: "m < n" by (simp_all add: upt_conv_Cons)
  show ?case
    unfolding list for_each.simps
    by (rule runs_bindI [OF Suc.prems(3) [OF _ m Suc.prems(1)]], simp, rule Suc.hyps(1)) (use Suc m in simp_all)
qed simp

lemma fail_busy:
  assumes "busy a Y f n cl u k w0 (at_appender p (tended a A G b m)) w" and "p \<in> Y"
  shows "runs (appender_error p e w) (busy a Y f n cl u k w0 (at_appender p (tended a A G b 0)))"
  by (rule runs_conseq [OF tending.appender_error_busy [OF assms]]) (auto elim: at_appender_weaken intro: tended_mono)

text \<open>The column types asked for so far, of an appender \<open>y\<close> that had none.\<close>

definition asking :: "engine_types \<Rightarrow> appender_owner \<Rightarrow> nat \<Rightarrow> appender_owner \<Rightarrow> bool" where
  "asking G y i x \<longleftrightarrow> (\<exists>ls. x = y\<lparr>a_logical := Some ls\<rparr> \<and> length ls = a_columns y \<and>
     (\<forall>g. a_appender y = Some g \<longrightarrow> (\<forall>j<i. type_of G (ls ! j) = column_of G g j)))"

lemma asking_ready:
  assumes "tended a A G True m y" and "a_staged_rows y = 0" and "a_status y = DUCKDB_ML_STATUS_OK" and "a_columns y \<noteq> 0"
    and "asking G y (a_columns y) x"
  shows "ready a A G m x"
proof -
  obtain g where g: "a_appender y = Some g" using assms(1) by (auto dest: tended_open)
  obtain ts where ts: "a_types y = Some ts" "staging_ok A ts (chunks_of G ts) y" "map (column_of G g) [0..<a_columns y] = ts"
    using assms(1,3) g by (cases "a_types y") (auto simp: tended_def appender_ok_def)
  obtain ls where ls: "x = y\<lparr>a_logical := Some ls\<rparr>" "length ls = a_columns y" "\<And>j. j < a_columns y \<Longrightarrow> type_of G (ls ! j) = column_of G g j"
    using assms(5) g by (auto simp: asking_def)
  have "map (type_of G) ls = map (column_of G g) [0..<a_columns y]" by (rule nth_equalityI) (simp_all add: ls(2,3))
  then have types: "map (type_of G) ls = ts" using ts(3) by (rule trans)
  have "\<exists>bs. a_nullable y = Some bs \<and> length bs = a_columns y"
    using assms(1,3) g ts(1) by (simp add: tended_def appender_ok_def)
  moreover have "staging_ok A ts (chunks_of G ts) x" using ts(2) by (simp add: ls(1) staging_ok_def split: option.splits)
  moreover have "ls \<noteq> []" using ls(2) assms(4) by auto
  ultimately have "appender_ok A G x" using ts(1,3) types g by (simp add: appender_ok_def ls(1))
  then show ?thesis using assms(1-3) ls by (simp add: ready_def tended_def)
qed

lemma ask_column:
  assumes "busy a Y f n cl u k w0 (at_appender p (asking G y i)) w" and "p \<in> Y" and "typed_engine C A G" and "i < a_columns y"
  shows "runs (case engine (duckdb_appender_column_type A (a_appender y) i) w of (t, w) \<Rightarrow>
      on_appender p (\<lambda>x. x\<lparr>a_logical := map_option (\<lambda>types. types[i := t]) (a_logical x)\<rparr>) w)
    (busy a Y f n cl u k w0 (at_appender p (asking G y (Suc i))))"
proof -
  obtain t w2 where t: "engine (duckdb_appender_column_type A (a_appender y) i) w = (t, w2)" by force
  have type: "type_of G t = column_of G g i" if "a_appender y = Some g" for g
    using t assms(3) that by (auto simp: typed_engine_def engine_def split_beta)
  show ?thesis
    unfolding t prod.case
  proof (rule keep_appender_step [OF engine_busy [OF assms(1) t] assms(2)])
    fix x
    assume "asking G y i x"
    then obtain ls where ls: "x = y\<lparr>a_logical := Some ls\<rparr>" "length ls = a_columns y"
      "\<And>g j. a_appender y = Some g \<Longrightarrow> j < i \<Longrightarrow> type_of G (ls ! j) = column_of G g j" by (auto simp: asking_def)
    have "asking G y (Suc i) (y\<lparr>a_logical := Some (ls[i := t])\<rparr>)"
      unfolding asking_def
      by (rule exI [of _ "ls[i := t]"]) (use ls(2,3) assms(4) type in \<open>auto simp: nth_list_update less_Suc_eq\<close>)
    then show "a_parent (x\<lparr>a_logical := map_option (\<lambda>types. types[i := t]) (a_logical x)\<rparr>) = a_parent x \<and>
        of_nat (appender_resources (x\<lparr>a_logical := map_option (\<lambda>types. types[i := t]) (a_logical x)\<rparr>)) = (of_nat (appender_resources x) :: 32 word) \<and>
        asking G y (Suc i) (x\<lparr>a_logical := map_option (\<lambda>types. types[i := t]) (a_logical x)\<rparr>)"
      by (simp add: ls(1) appender_resources_def)
  qed
qed

text \<open>The array of types is allocated and filled.\<close>

lemma ask_columns:
  assumes "busy a Y f n cl u k w0 (at_appender p ((=) y)) w" and "p \<in> Y" and E: "typed_engine C A G" and "a_logical y = None"
  shows "runs (bind (on_appender p (\<lambda>x. x\<lparr>a_logical := Some (replicate (a_columns x) 0)\<rparr>) w) (\<lambda>w.
      for_each (\<lambda>i w. case engine (duckdb_appender_column_type A (a_appender y) i) w of (t, w) \<Rightarrow>
          on_appender p (\<lambda>x. x\<lparr>a_logical := map_option (\<lambda>types. types[i := t]) (a_logical x)\<rparr>) w)
         [0..<a_columns y] (acquired w)))
    (busy a Y f n cl u k w0 (at_appender p (asking G y (a_columns y))))"
proof (rule runs_bindI)
  show "runs (on_appender p (\<lambda>x. x\<lparr>a_logical := Some (replicate (a_columns x) 0)\<rparr>) w)
      (busy a Y f n cl u (k - 1) w0 (at_appender p (asking G y 0)))"
    by (rule on_appender_step [where P = "(=) y", OF assms(1,2)]) (use assms(4) in \<open>auto simp: asking_def appender_resources_def\<close>)
  fix u'
  assume "busy a Y f n cl u (k - 1) w0 (at_appender p (asking G y 0)) u'"
  note acquired_busy [OF this]
  then show "runs (for_each (\<lambda>i w. case engine (duckdb_appender_column_type A (a_appender y) i) w of (t, w) \<Rightarrow>
          on_appender p (\<lambda>x. x\<lparr>a_logical := map_option (\<lambda>types. types[i := t]) (a_logical x)\<rparr>) w) [0..<a_columns y] (acquired u'))
      (busy a Y f n cl u k w0 (at_appender p (asking G y (a_columns y))))"
    by (rule runs_for_upto [where I = "\<lambda>i. busy a Y f n cl u k w0 (at_appender p (asking G y i))"])
      (simp_all add: ask_column [OF _ assms(2) E])
qed

lemma stage_logical_busy:
  assumes b: "busy a Y f n cl u k w0 (at_appender p (\<lambda>x. tended a A G True m x \<and> a_staged_rows x = 0 \<and> a_status x = DUCKDB_ML_STATUS_OK)) w"
    and "p \<in> Y" and E: "typed_engine C A G"
  shows "runs (stage_logical A p w) (\<lambda>(go_on, w'). busy a Y f n cl u k w0 (at_appender p (if go_on then ready a A G m else tended a A G True 0)) w')"
    (is "runs _ ?Q")
proof -
  obtain y where y: "appenders w p = Some y" "tended a A G True m y \<and> a_staged_rows y = 0 \<and> a_status y = DUCKDB_ML_STATUS_OK"
    "busy a Y f n cl u k w0 (at_appender p ((=) y)) w" using b by (rule at_appenderE)
  obtain fails w1 where malloc: "malloc_fails w = (fails, w1)" by force
  note b1 = malloc_busy [OF y(3) malloc]
  consider "\<not> (a_logical y = None \<and> a_columns y \<noteq> 0)" | "a_logical y = None" "a_columns y \<noteq> 0" fails
    | "a_logical y = None" "a_columns y \<noteq> 0" "\<not> fails" by blast
  then show ?thesis
  proof cases
    case 1
    have "busy a Y f n cl u k w0 (at_appender p (ready a A G m)) w" using y(3) by (rule at_appender_weaken) (use y(2) 1 in \<open>auto simp: ready_def\<close>)
    then show ?thesis using 1 by (auto simp: stage_logical_def y(1))
  next
    case 2
    have "busy a Y f n cl u k w0 (at_appender p (tended a A G True m)) w1" using b1 by (rule at_appender_weaken) (use y(2) in simp)
    from fail_busy [OF this assms(2)] show ?thesis using 2 by (simp add: stage_logical_def y(1) malloc runs_bind)
  next
    case 3
    have "runs (bind (bind (on_appender p (\<lambda>x. x\<lparr>a_logical := Some (replicate (a_columns x) 0)\<rparr>) w1) (\<lambda>w.
          for_each (\<lambda>i w. case engine (duckdb_appender_column_type A (a_appender y) i) w of (t, w) \<Rightarrow>
              on_appender p (\<lambda>x. x\<lparr>a_logical := map_option (\<lambda>types. types[i := t]) (a_logical x)\<rparr>) w)
             [0..<a_columns y] (acquired w))) (\<lambda>w. Inr (True, w))) ?Q"
      by (rule runs_bindI [OF ask_columns [OF b1 assms(2) E 3(1)]])
        (use 3(2) y(2) in \<open>auto elim!: at_appender_weaken intro: asking_ready\<close>)
    then show ?thesis using 3 by (simp add: stage_logical_def y(1) malloc bind_assoc)
  qed
qed

text \<open>While the slots are filled there are \<open>n\<close> of them, the first \<open>m\<close> in use.\<close>

definition adding :: "nat \<Rightarrow> 'e appender_api \<Rightarrow> engine_types \<Rightarrow> nat \<Rightarrow> nat \<Rightarrow> appender_owner \<Rightarrow> bool" where
  "adding a A G n m x \<longleftrightarrow> ready a A G m x \<and> a_staged_capacity x = m \<and> (\<exists>slots. a_staged x = Some slots \<and> length slots = n)"

lemma ready_types:
  assumes "ready a A G m x"
  obtains ts ls where "a_types x = Some ts" and "staging_ok A ts (chunks_of G ts) x"
    and "a_logical x = (if ls = [] then None else Some ls)" and "length ls = a_columns x" and "map (type_of G) ls = ts"
proof -
  obtain ts where ts: "a_types x = Some ts" "staging_ok A ts (chunks_of G ts) x" "a_columns x = length ts"
    "\<And>ls. a_logical x = Some ls \<Longrightarrow> ls \<noteq> [] \<and> map (type_of G) ls = ts"
    using assms by (cases "a_types x") (auto simp: ready_def tended_def appender_ok_def staging_ok_def)
  show thesis
  proof (cases "a_logical x")
    case None
    then have "ts = []" using assms ts(3) by (simp add: ready_def)
    then show ?thesis using that [OF ts(1,2), of "[]"] None ts(3) by simp
  next
    case (Some ls)
    from ts(4) [OF this] have "ls \<noteq> []" "map (type_of G) ls = ts" by simp_all
    then show ?thesis using that [OF ts(1,2), of ls] Some ts(3) by auto
  qed
qed

lemma stage_fill_busy:
  assumes "busy a Y f n cl u k w0 (at_appender p (adding a A G c m)) w" and "p \<in> Y" and E: "typed_engine C A G" and "m \<le> c"
  shows "runs (stage_fill A p [m..<c] w) (\<lambda>(go_on, w'). busy a Y f n cl u k w0 (at_appender p (if go_on then ready a A G c else tended a A G True 0)) w')"
  using assms(1,4)
proof (induction "c - m" arbitrary: m w)
  case 0
  then show ?case by (auto elim: at_appender_weaken simp: adding_def)
next
  case (Suc d)
  then have list: "[m..<c] = m # [Suc m..<c]" and m: "m < c" by (simp_all add: upt_conv_Cons)
  obtain x where x: "appenders w p = Some x" "adding a A G c m x" "busy a Y f n cl u k w0 (at_appender p ((=) x)) w"
    using Suc.prems(1) by (rule at_appenderE)
  then have ready: "ready a A G m x" by (simp add: adding_def)
  obtain slots where slots: "a_staged x = Some slots" "length slots = c" "a_staged_capacity x = m" using x(2) by (auto simp: adding_def)
  obtain ts ls where ts: "a_types x = Some ts" "staging_ok A ts (chunks_of G ts) x"
    and ls: "a_logical x = (if ls = [] then None else Some ls)" "length ls = a_columns x" "map (type_of G) ls = ts"
    using ready by (rule ready_types)
  obtain chunk w1 where create: "engine (duckdb_create_data_chunk A (a_logical x) (a_columns x)) w = (chunk, w1)" by force
  note b1 = engine_busy [OF x(3) create]
  have made: "h \<in> chunks_of G ts" if "chunk = Some h" for h
    using E create that ls unfolding typed_engine_def by (auto simp: engine_def split_beta)
  have some: "runs (bind (on_appender p (\<lambda>x. x\<lparr>a_staged := Some (slots[m := Some h]), a_staged_capacity := Suc m\<rparr>) (acquired w1))
        (stage_fill A p [Suc m..<c])) (\<lambda>(go_on, w'). busy a Y f n cl u k w0 (at_appender p (if go_on then ready a A G c else tended a A G True 0)) w')"
    if h: "chunk = Some h" for h
  proof (rule runs_bindI)
    let ?g = "\<lambda>x. x\<lparr>a_staged := Some (slots[m := Some h]), a_staged_capacity := Suc m\<rparr>"
    have "staging_ok A ts (chunks_of G ts) (?g x)"
      using ts(2) slots m made [OF h] by (auto simp: staging_ok_def nth_list_update less_Suc_eq)
    then have "appender_ok A G (?g x)" using ready ts(1) by (auto simp: ready_def tended_def appender_ok_def)
    then have "adding a A G c (Suc m) (?g x)"
      using ready slots by (simp add: adding_def ready_def tended_def)
    then show "runs (on_appender p ?g (acquired w1)) (busy a Y f n cl u (k + 1 - 1) w0 (at_appender p (adding a A G c (Suc m))))"
      by (intro on_appender_step [where P = "(=) x", OF busy_counters(1) [OF b1] assms(2)])
        (use slots in \<open>auto simp: appender_resources_def\<close>)
    fix u'
    assume "busy a Y f n cl u (k + 1 - 1) w0 (at_appender p (adding a A G c (Suc m))) u'"
    then show "runs (stage_fill A p [Suc m..<c] u') (\<lambda>(go_on, w'). busy a Y f n cl u k w0 (at_appender p (if go_on then ready a A G c else tended a A G True 0)) w')"
      using Suc.hyps(1) [of "Suc m" u'] Suc.hyps(2) m by simp
  qed
  have tended: "busy a Y f n cl u k w0 (at_appender p (tended a A G True m)) w1"
    using b1 by (rule at_appender_weaken) (use ready in \<open>simp add: ready_def\<close>)
  show ?case
  proof (cases chunk)
    case None
    then show ?thesis using fail_busy [OF tended assms(2)] unfolding list by (simp add: x(1) create runs_bind)
  next
    case (Some h)
    then show ?thesis using some [OF Some] m slots unfolding list by (simp add: x(1) create)
  qed
qed

lemma stage_grow_busy:
  assumes "busy a Y f n cl u k w0 (at_appender p (ready a A G 0)) w" and "p \<in> Y" and E: "typed_engine C A G"
  shows "runs (stage_grow A p c w) (\<lambda>(go_on, w'). busy a Y f n cl u k w0 (at_appender p (if go_on then ready a A G c else tended a A G True 0)) w')"
proof -
  obtain x where x: "appenders w p = Some x" "ready a A G 0 x" "busy a Y f n cl u k w0 (at_appender p ((=) x)) w"
    using assms(1) by (rule at_appenderE)
  let ?m = "a_staged_capacity x"
  show ?thesis
  proof (cases "?m < c")
    case False
    have "busy a Y f n cl u k w0 (at_appender p (ready a A G c)) w" using x(3) by (rule at_appender_weaken) (use x(2) False in \<open>auto simp: ready_def tended_def\<close>)
    then show ?thesis using False by (simp add: stage_grow_def x(1))
  next
    case True
    obtain fails w1 where malloc: "malloc_fails w = (fails, w1)" by force
    note b1 = malloc_busy [OF x(3) malloc]
    have tended: "busy a Y f n cl u k w0 (at_appender p (tended a A G True 0)) w1"
      using b1 by (rule at_appender_weaken) (use x(2) in \<open>simp add: ready_def\<close>)
    show ?thesis
    proof (cases fails)
      case fails: True
      then show ?thesis using True fail_busy [OF tended assms(2)] by (simp add: stage_grow_def x(1) malloc runs_bind)
    next
      case False
      let ?slots = "case a_staged x of None \<Rightarrow> [] | Some slots \<Rightarrow> take c slots"
      let ?new = "?slots @ replicate (c - length ?slots) None"
      obtain ts where ts: "a_types x = Some ts" "staging_ok A ts (chunks_of G ts) x" using x(2) by (rule ready_types)
      have len: "length ?new = c" by (auto split: option.splits)
      have "staging_ok A ts (chunks_of G ts) (x\<lparr>a_staged := Some ?new\<rparr>)"
        using ts(2) True by (auto simp: staging_ok_def nth_append split: option.splits)
      then have "appender_ok A G (x\<lparr>a_staged := Some ?new\<rparr>)" using x(2) ts(1) by (auto simp: ready_def tended_def appender_ok_def)
      then have adding: "adding a A G c ?m (x\<lparr>a_staged := Some ?new\<rparr>)" using x(2) len by (simp add: adding_def ready_def tended_def)
      have "busy a Y f n cl u (k + of_bool (a_staged x = None)) w0 (at_appender p ((=) x)) (if a_staged x = None then acquired w1 else w1)"
        using b1 busy_counters(1) [OF b1] by simp
      from on_appender_step [where P = "(=) x" and g = "\<lambda>x. x\<lparr>a_staged := Some ?new\<rparr>" and d = "of_bool (a_staged x = None)" and Q = "adding a A G c ?m",
          OF this assms(2)]
      have "runs (on_appender p (\<lambda>x. x\<lparr>a_staged := Some ?new\<rparr>) (if a_staged x = None then acquired w1 else w1))
          (busy a Y f n cl u k w0 (at_appender p (adding a A G c ?m)))"
        using adding by (auto simp: appender_resources_def present_iff)
      then have "runs (bind (on_appender p (\<lambda>x. x\<lparr>a_staged := Some ?new\<rparr>) (if a_staged x = None then acquired w1 else w1))
          (stage_fill A p [?m..<c])) (\<lambda>(go_on, w'). busy a Y f n cl u k w0 (at_appender p (if go_on then ready a A G c else tended a A G True 0)) w')"
        by (rule runs_bindI) (rule stage_fill_busy [OF _ assms(2) E], assumption, use True in simp)
      then show ?thesis using True False by (simp add: stage_grow_def x(1) malloc Let_def)
    qed
  qed
qed

lemma stage_clear_strings_busy:
  assumes b: "busy a Y f n cl u k w0 (at_appender p (ready a A G c)) w" and E: "typed_engine C A G" and M: "memory_law C A"
    and "i < c" and "held \<le> duckdb_vector_size A" and "appenders w p = Some x" and "j < a_columns x"
  shows "runs (stage_clear_strings C A p i held j w) (\<lambda>w'. busy a Y f n cl u k w0 (at_appender p (ready a A G c)) w' \<and> appenders w' p = Some x)"
proof -
  have ready: "ready a A G c x" using b assms(6) by (auto simp: busy_def at_appender_def)
  obtain ts where ts: "a_types x = Some ts" "staging_ok A ts (chunks_of G ts) x" using ready by (rule ready_types)
  have columns: "a_columns x = length ts" using ts(2) by (simp add: staging_ok_def)
  have "i < a_staged_capacity x" using ready assms(4) by (simp add: ready_def tended_def)
  with ts(2) obtain h where h: "h \<in> chunks_of G ts" "staged_chunk x i = Inr h" by (rule staging_chunk)
  let ?d = "duckdb_vector_get_data C (duckdb_data_chunk_get_vector C (Some h) j (w_engine w)) (w_engine w)"
  show ?thesis
  proof (cases "ts ! j = DUCKDB_TYPE_VARCHAR \<or> ts ! j = DUCKDB_TYPE_BLOB")
    case True
    then have width: "staged_width C (ts ! j) = sizeof_duckdb_string_t C" by (simp add: staged_width_def)
    have "chunk_vectors C A ts (chunks_of G ts)" using E by (simp add: typed_engine_def)
    then have "readable_range (mapped C (w_engine w)) ?d (duckdb_vector_size A * sizeof_duckdb_string_t C)"
      using h(1) assms(7) unfolding columns chunk_vectors_def Let_def width [symmetric] by blast
    then have "readable_range (mapped C (w_engine w)) ?d (length (replicate (held * sizeof_duckdb_string_t C) (0 :: 8 word)))"
      using readable_range_mono [of "mapped C (w_engine w)" ?d _ 0 "held * sizeof_duckdb_string_t C"] assms(5) by (simp add: mult_le_mono1)
    from poke_stores [OF M this] show ?thesis
      using True h(2) ts(1) assms(6,7) columns busy_outside(3) [OF b] by (auto simp: stage_clear_strings_def)
  next
    case False
    then show ?thesis using ts(1) assms(6,7) columns b by (auto simp: stage_clear_strings_def)
  qed
qed

lemma stage_reset_busy:
  fixes w :: "'e world"
  assumes b: "busy a Y f n cl u k w0 (at_appender p (ready a A G c)) w" and E: "typed_engine C A G" and M: "memory_law C A" and "i < c"
  shows "runs (stage_reset C A p rows i w) (busy a Y f n cl u k w0 (at_appender p (ready a A G c)))"
proof -
  obtain x where x: "appenders w p = Some x" "ready a A G c x" using b by (rule at_appenderE)
  have "i < a_staged_capacity x" using x(2) assms(4) by (simp add: ready_def tended_def)
  moreover obtain ts where ts: "a_types x = Some ts" "staging_ok A ts (chunks_of G ts) x" using x(2) by (rule ready_types)
  ultimately obtain h where h: "staged_chunk x i = Inr h" using staging_chunk by metis
  obtain r and w1 :: "'e world" where reset: "engine (duckdb_data_chunk_reset A h) w = (r, w1)" by (meson surj_pair)
  note b1 = engine_busy [OF b reset]
  have x1: "appenders w1 p = Some x" using reset x(1) by (auto simp: engine_def split: prod.splits)
  let ?held = "if rows - i * duckdb_vector_size A < duckdb_vector_size A then rows - i * duckdb_vector_size A else duckdb_vector_size A"
  have held: "?held \<le> duckdb_vector_size A" by simp
  let ?I = "\<lambda>w'. busy a Y f n cl u k w0 (at_appender p (ready a A G c)) w' \<and> appenders w' p = Some x"
  have "runs (for_each (stage_clear_strings C A p i ?held) [0..<a_columns x] w1) ?I"
  proof (rule runs_for_each [where I = ?I])
    show "?I w1" using b1 x1 by simp
    fix j w2
    assume "j \<in> set [0..<a_columns x]" and "?I w2"
    then show "runs (stage_clear_strings C A p i ?held j w2) ?I"
      by (intro stage_clear_strings_busy [OF _ E M assms(4) held]) simp_all
  qed
  then show ?thesis using x(1) h reset by (auto simp: stage_reset_def Let_def elim!: runs_conseq)
qed

lemma ready_rows:
  assumes "ready a A G (staged_chunks (duckdb_vector_size A) r) x" and "0 < duckdb_vector_size A"
  shows "tended a A G True 0 (x\<lparr>a_staged_rows := r\<rparr>)"
proof -
  let ?n = "staged_chunks (duckdb_vector_size A) r"
  obtain ts where ts: "a_types x = Some ts" "staging_ok A ts (chunks_of G ts) x" using assms(1) by (rule ready_types)
  have "r \<le> ?n * duckdb_vector_size A" using staged_chunks_le [OF assms(2), of ?n r] by simp
  also have "\<dots> \<le> a_staged_capacity x * duckdb_vector_size A"
    using assms(1) by (intro mult_le_mono1) (simp add: ready_def tended_def)
  finally have "staging_ok A ts (chunks_of G ts) (x\<lparr>a_staged_rows := r\<rparr>)" using ts(2) by (simp add: staging_ok_def split: option.splits)
  then have "appender_ok A G (x\<lparr>a_staged_rows := r\<rparr>)" using assms(1) ts(1) by (auto simp: ready_def tended_def appender_ok_def)
  then show ?thesis using assms(1) by (simp add: ready_def tended_def)
qed

text \<open>The steps of opening a batch, from the last to the first.\<close>

lemma stage_filled:
  assumes "busy a Y f n cl u k w0 (at_appender p (ready a A G (staged_chunks (duckdb_vector_size A) r))) w" and "p \<in> Y"
    and E: "typed_engine C A G" and M: "memory_law C A" and "0 < duckdb_vector_size A"
  shows "runs (bind (for_each (stage_reset C A p r) [0..<staged_chunks (duckdb_vector_size A) r] w) (on_appender p (\<lambda>x. x\<lparr>a_staged_rows := r\<rparr>)))
    (busy a Y f n cl u k w0 (at_appender p (tended a A G True 0)))"
proof (rule runs_bindI [OF runs_for_each [where I = "busy a Y f n cl u k w0 (at_appender p (ready a A G (staged_chunks (duckdb_vector_size A) r)))", OF assms(1)]])
  fix i w'
  assume "i \<in> set [0..<staged_chunks (duckdb_vector_size A) r]"
    and "busy a Y f n cl u k w0 (at_appender p (ready a A G (staged_chunks (duckdb_vector_size A) r))) w'"
  then show "runs (stage_reset C A p r i w') (busy a Y f n cl u k w0 (at_appender p (ready a A G (staged_chunks (duckdb_vector_size A) r))))"
    by (intro stage_reset_busy [OF _ E M]) simp_all
next
  fix w'
  assume "busy a Y f n cl u k w0 (at_appender p (ready a A G (staged_chunks (duckdb_vector_size A) r))) w'"
  then show "runs (on_appender p (\<lambda>x. x\<lparr>a_staged_rows := r\<rparr>) w') (busy a Y f n cl u k w0 (at_appender p (tended a A G True 0)))"
    by (rule keep_appender_step [OF _ assms(2)]) (auto simp: ready_rows [OF _ assms(5)] appender_resources_def)
qed

lemma stage_opened:
  assumes "busy a Y f n cl u k w0 (at_appender p (\<lambda>x. tended a A G True 0 x \<and> a_staged_rows x = 0 \<and> a_status x = DUCKDB_ML_STATUS_OK)) w"
    and "p \<in> Y" and E: "typed_engine C A G" and M: "memory_law C A" and "0 < duckdb_vector_size A"
  shows "runs (bind (stage_logical A p w) (\<lambda>(go_on, w). if \<not> go_on then Inr w
       else bind (stage_grow A p (staged_chunks (duckdb_vector_size A) r) w) (\<lambda>(go_on, w). if \<not> go_on then Inr w
       else bind (for_each (stage_reset C A p r) [0..<staged_chunks (duckdb_vector_size A) r] w) (on_appender p (\<lambda>x. x\<lparr>a_staged_rows := r\<rparr>)))))
    (busy a Y f n cl u k w0 (at_appender p (tended a A G True 0)))"
proof -
  have "runs (bind (stage_grow A p (staged_chunks (duckdb_vector_size A) r) w') (\<lambda>(go_on, w). if \<not> go_on then Inr w
       else bind (for_each (stage_reset C A p r) [0..<staged_chunks (duckdb_vector_size A) r] w) (on_appender p (\<lambda>x. x\<lparr>a_staged_rows := r\<rparr>))))
      (busy a Y f n cl u k w0 (at_appender p (tended a A G True 0)))" if "busy a Y f n cl u k w0 (at_appender p (ready a A G 0)) w'" for w'
    by (rule runs_bind_pair [OF stage_grow_busy [OF that assms(2) E]]) (auto intro: stage_filled [OF _ assms(2-5)])
  then show ?thesis
    by (intro runs_bind_pair [OF stage_logical_busy [OF assms(1,2) E]]) auto
qed

lemma stage_begin_busy:
  fixes w :: "'e world"
  assumes b: "busy a {p} f n cl u k w0 (at_appender p (tended a A G b 0)) w" and v: "Appender w0 v = Some p"
    and E: "typed_engine C A G" and M: "memory_law C A" and A: "appender_releases A"
  shows "runs (ml_duckdb_stage_begin C A v rows w) (busy a {p} f n cl u k w0 (at_appender p (tended a A G b 0)))"
proof -
  let ?B = "\<lambda>P. busy a {p} f n cl u k w0 (at_appender p P)"
  have same: "Appender w' v = Some p" if "?B P w'" for P and w' :: "'e world"
    using evo_same(6) [OF during_evo [OF busy_during [OF that]]] v by simp
  have per: "0 < duckdb_vector_size A" using A by (simp add: appender_releases_def)
  show ?thesis
    unfolding ml_duckdb_stage_begin_def same [OF b]
  proof (rule runs_bindI [OF clear_input_busy [OF b]])
    fix w1
    assume w1: "?B (\<lambda>x. tended a A G b 0 x \<and> a_staged_rows x = 0) w1"
    then obtain x where x: "appenders w1 p = Some x" "tended a A G b 0 x \<and> a_staged_rows x = 0" "?B ((=) x) w1" by (rule at_appenderE)
    have stay: "?B (tended a A G b 0) w1" using w1 by (rule at_appender_weaken) simp
    have batch: "?B (\<lambda>x. tended a A G True 0 x \<and> a_staged_rows x = 0 \<and> a_status x = DUCKDB_ML_STATUS_OK) w1"
      if "a_appender x \<noteq> None" "a_status x = DUCKDB_ML_STATUS_OK"
      using x(3) by (rule at_appender_weaken) (use x(2) that in \<open>simp add: tended_def\<close>)
    have "b" if "a_appender x \<noteq> None" using x(2) that by (simp add: tended_def)
    note this stage_opened [OF batch _ E M per, of "nat rows"]
    then show "runs (case Appender w1 v of None \<Rightarrow> Inr w1
       | Some p \<Rightarrow>
         bind (deref (appenders w1) p) (\<lambda>x.
         if a_appender x = None \<or> a_status x \<noteq> DUCKDB_ML_STATUS_OK \<or> rows < 0 then Inr w1
         else let n = nat rows; chunks = staged_chunks (duckdb_vector_size A) n in
         bind (stage_logical A p w1) (\<lambda>(go_on, w).
         if \<not> go_on then Inr w
         else bind (stage_grow A p chunks w) (\<lambda>(go_on, w).
         if \<not> go_on then Inr w
         else bind (for_each (stage_reset C A p n) [0..<chunks] w) (\<lambda>w.
              on_appender p (\<lambda>x. x\<lparr>a_staged_rows := n\<rparr>) w)))))
      (?B (tended a A G b 0))"
      using stay x(1) by (simp add: same [OF w1] Let_def)
  qed simp
qed

lemma ml_duckdb_stage_begin_wf:
  assumes wf: "wf (appender_ok A G) w" and E: "typed_engine C A G" and M: "memory_law C A" and A: "appender_releases A"
  shows "runs (ml_duckdb_stage_begin C A v rows w) (wf (appender_ok A G))"
proof (cases "Appender w v")
  case None
  then show ?thesis using wf by (simp add: ml_duckdb_stage_begin_def clear_input_def)
next
  case (Some p)
  then obtain x where x: "appenders w p = Some x" using slot_target(5) [OF wf] by blast
  obtain cl where q: "quiescent (a_parent x) cl w" "at_appender p (tended (a_parent x) A G (a_appender x \<noteq> None) 0) w"
    using appender_between [OF wf x] by blast
  show ?thesis
    by (rule runs_conseq [OF stage_begin_busy [OF quiescent_appender [OF q] Some E M A]])
      (auto dest!: busy_settled intro: appender_settled [OF _ _ tended_ok wf])
qed

subsection \<open>Writing values\<close>

text \<open>
  A call that writes a value changes the engine's memory, or marks the batch as failed and
  drops its rows.
\<close>

definition edits :: "nat \<Rightarrow> 'e world \<Rightarrow> 'e world \<Rightarrow> bool" where
  "edits p w w' \<longleftrightarrow> (\<exists>e. w' = w\<lparr>w_engine := e\<rparr>) \<or> (\<exists>e x m. appenders w p = Some x \<and>
     w' = put_appender p (x\<lparr>a_stage_message := m, a_staged_rows := 0, a_stage_failed := True\<rparr>) (w\<lparr>w_engine := e\<rparr>))"

lemma appender_ok_dropped: "appender_ok A G x \<Longrightarrow> appender_ok A G (x\<lparr>a_stage_message := m, a_staged_rows := 0, a_stage_failed := True\<rparr>)"
  by (cases x) (auto simp: appender_ok_def staging_ok_def split: option.splits)

lemma edits_wf:
  fixes w :: "'e world"
  assumes wf: "wf (appender_ok A G) w" and "edits p w w'"
  shows "wf (appender_ok A G) w'"
  using assms(2) unfolding edits_def
proof (elim disjE exE conjE)
  fix e x m
  assume x: "appenders w p = Some x"
    and w': "w' = put_appender p (x\<lparr>a_stage_message := m, a_staged_rows := 0, a_stage_failed := True\<rparr>) (w\<lparr>w_engine := e\<rparr>)"
  let ?x = "x\<lparr>a_stage_message := m, a_staged_rows := 0, a_stage_failed := True\<rparr>"
  have wf1: "wf (appender_ok A G) (w\<lparr>w_engine := e\<rparr>)" using wf by (simp add: well_formed_oracles)
  have ok: "appender_ok A G ?x" using wf x by (intro appender_ok_dropped) (auto simp: well_formed_def linked_def)
  have base: "base (w\<lparr>w_engine := e\<rparr>)" and below: "heaps_below (w\<lparr>w_engine := e\<rparr>)" using wf1 by (simp_all add: well_formed_def base_def)
  have "evo {} {p} (0 + of_nat (appender_resources x) - of_nat (appender_resources ?x)) (w\<lparr>w_engine := e\<rparr>) w'"
    unfolding w' by (rule evo_put_appender [OF evo_refl [OF below]]) (simp_all add: x)
  then have "evo {} {p} 0 (w\<lparr>w_engine := e\<rparr>) w'" by (simp add: appender_resources_def)
  then have "well_formed (appender_ok A G) None None (0 + 0) w'"
    by (rule evo_well_formed [OF _ wf1]) (use ok distinct_owners(4) [OF base, of p] x in \<open>auto simp: w'\<close>)
  then show ?thesis by simp
qed (use wf in \<open>simp add: well_formed_oracles\<close>)

lemma poke_edits: "poke C A addr bs w = Inr w' \<Longrightarrow> \<exists>e. w' = w\<lparr>w_engine := e\<rparr>"
proof (induction bs arbitrary: addr w)
  case Nil
  then show ?case by (auto intro: exI [of _ "w_engine w"])
next
  case (Cons b bs)
  then have "poke C A (Suc addr) bs (w\<lparr>w_engine := store A addr b (w_engine w)\<rparr>) = Inr w'" by (auto split: option.splits)
  from Cons.IH [OF this] show ?case by auto
qed

lemma edits_engine: "edits p w (w\<lparr>w_engine := e\<rparr>)" "edits p w w" "edits p w (snd (engine f w))"
  by (auto simp: edits_def engine_def split: prod.splits intro: exI [of _ "w_engine w"])

lemma engine_moves: "snd (engine f w) = w\<lparr>w_engine := snd (f (w_engine w))\<rparr>"
  by (simp add: engine_def split_beta)

lemma edits_dropped:
  "appenders w p = Some x \<Longrightarrow>
   edits p w (w\<lparr>w_engine := e, appenders := (appenders w)(p \<mapsto> x\<lparr>a_stage_message := m, a_staged_rows := 0, a_stage_failed := True\<rparr>)\<rparr>)"
  unfolding edits_def by (intro disjI2 exI [of _ e] exI [of _ x] exI [of _ m]) simp

lemma with_slot_edits:
  assumes "with_slot C A v c r f w = Inr w'" and "\<And>vec i d t. f vec i d t w = Inr w' \<Longrightarrow> edits p w w'"
  shows "edits p w w'"
  using assms(1) by (auto simp: with_slot_def bind_Inr_iff edits_engine split: option.splits dest: assms(2))

lemma stage_varchar_edits:
  assumes "stage_varchar A p vec i s w = Inr w'"
  shows "edits p w w'"
proof -
  obtain d e where valid: "engine (duckdb_valid_utf8_check A s) w = (d, w\<lparr>w_engine := e\<rparr>)" by (simp add: engine_def split_beta)
  show ?thesis
  proof (cases d)
    case None
    then show ?thesis using assms valid by (auto simp: stage_varchar_def engine_def edits_engine split: prod.splits)
  next
    case (Some h)
    obtain x where x: "appenders w p = Some x"
      using assms valid Some by (cases "appenders w p") (auto simp: stage_varchar_def Let_def engine_def on_appender_def split: prod.splits)
    then show ?thesis
      using assms valid Some by (auto simp: stage_varchar_def Let_def engine_def on_appender_def split: prod.splits intro: edits_dropped)
  qed
qed

lemma stage_fail_edits:
  assumes "stage_fail v m w = Inr w'" and "Appender w v = Some p"
  shows "edits p w w'"
proof -
  obtain x where x: "appenders w p = Some x"
    using assms by (cases "appenders w p") (auto simp: stage_fail_def on_appender_def)
  have same: "put_appender p x w = w" using x by (simp add: fun_upd_idem)
  show ?thesis
  proof (cases "a_stage_failed x")
    case True
    then have "w' = w" using assms x same by (simp add: stage_fail_def on_appender_def)
    then show ?thesis by (simp add: edits_engine)
  next
    case False
    then show ?thesis using assms x edits_dropped [OF x, where e = "w_engine w"] by (auto simp: stage_fail_def on_appender_def)
  qed
qed

lemma mask_rows_edits: "\<exists>e. mask_rows C A vec validity ibs w = w\<lparr>w_engine := e\<rparr>"
proof (induction ibs arbitrary: validity w)
  case Nil
  show ?case by (auto intro: exI [of _ "w_engine w"])
next
  case (Cons ib ibs)
  have moved: "\<exists>e. mask_rows C A vec m ibs (w\<lparr>w_engine := e1\<rparr>) = w\<lparr>w_engine := e\<rparr>" for m e1
    using Cons.IH [of m "w\<lparr>w_engine := e1\<rparr>"] by auto
  show ?case
    using Cons.IH [of validity w] by (cases validity) (simp_all add: Let_def ensure_validity_writable_def engine_moves moved)
qed

text \<open>What each call does when it returns.\<close>

lemma staging_edits:
  assumes "Appender w v = Some p"
  shows "ml_duckdb_stage_int64 C A v c r y w = Inr w' \<Longrightarrow> edits p w w'"
    and "ml_duckdb_stage_float C A narrow v c r y w = Inr w' \<Longrightarrow> edits p w w'"
    and "ml_duckdb_stage_string C A v c r s w = Inr w' \<Longrightarrow> edits p w w'"
    and "ml_duckdb_stage_null C A v c r w = Inr w' \<Longrightarrow> edits p w w'"
    and "ml_duckdb_stage_blit C A v c b at' n w = Inr w' \<Longrightarrow> edits p w w'"
    and "ml_duckdb_stage_mask C A v c b at' n w = Inr w' \<Longrightarrow> edits p w w'"
proof -
  have poke: "poke C A addr bs w = Inr w' \<Longrightarrow> edits p w w'" for addr bs using poke_edits by (blast intro: edits_engine)
  have mask: "edits p w (mask_rows C A vec validity ibs w)" for vec validity ibs
    using mask_rows_edits [of C A vec validity ibs w] by (auto simp: edits_engine)
  show "ml_duckdb_stage_int64 C A v c r y w = Inr w' \<Longrightarrow> edits p w w'"
    unfolding ml_duckdb_stage_int64_def by (erule with_slot_edits) (rule poke)
  show "ml_duckdb_stage_float C A narrow v c r y w = Inr w' \<Longrightarrow> edits p w w'"
    unfolding ml_duckdb_stage_float_def by (erule with_slot_edits) (rule poke)
  show "ml_duckdb_stage_string C A v c r s w = Inr w' \<Longrightarrow> edits p w w'"
    unfolding ml_duckdb_stage_string_def using assms
    by (elim with_slot_edits) (auto simp: edits_engine engine_def split: if_splits prod.splits dest: stage_varchar_edits)
  show "ml_duckdb_stage_null C A v c r w = Inr w' \<Longrightarrow> edits p w w'"
    by (auto simp: ml_duckdb_stage_null_def bind_Inr_iff edits_engine set_row_invalid_def ensure_validity_writable_def engine_moves split: option.splits)
  show "ml_duckdb_stage_blit C A v c b at' n w = Inr w' \<Longrightarrow> edits p w w'"
    using assms poke by (auto simp: ml_duckdb_stage_blit_def bind_Inr_iff Let_def split: if_splits dest: stage_fail_edits)
  show "ml_duckdb_stage_mask C A v c b at' n w = Inr w' \<Longrightarrow> edits p w w'"
    using assms by (auto simp: ml_duckdb_stage_mask_def bind_Inr_iff mask split: if_splits dest: stage_fail_edits)
qed

text \<open>That each call returns: from \<open>batch\<close>, or because nothing is staged.\<close>

lemma nothing_staged:
  assumes "Appender w v = None \<or> (\<exists>p x. Appender w v = Some p \<and> appenders w p = Some x \<and> a_staged_rows x = 0 \<and> a_staged x = None)"
  shows "with_slot C A v c r f w = Inr w" and "ml_duckdb_stage_null C A v c r w = Inr w"
    and "\<exists>w'. ml_duckdb_stage_blit C A v c b at' n w = Inr w'" and "\<exists>w'. ml_duckdb_stage_mask C A v c b at' n w = Inr w'"
  using assms by (auto simp: with_slot_def appender_at_def slot_def ml_duckdb_stage_null_def ml_duckdb_stage_blit_def
      ml_duckdb_stage_mask_def stage_range_def stage_fail_def on_appender_def)

lemma nothing_written:
  assumes "Appender w v = None"
  shows "ml_duckdb_stage_blit C A v c b at' n w = Inr w" and "ml_duckdb_stage_mask C A v c b at' n w = Inr w"
  using assms by (simp_all add: appender_at_def ml_duckdb_stage_blit_def ml_duckdb_stage_mask_def stage_range_def stage_fail_def)

lemma staged_wf:
  assumes wf: "wf (appender_ok A G) w" and E: "typed_engine C A G"
    and "\<And>ts p. batch A ts (chunks_of G ts) v p w \<Longrightarrow> chunk_vectors C A ts (chunks_of G ts) \<Longrightarrow> runs m (batch A ts (chunks_of G ts) v p)"
    and "Appender w v = None \<or> (\<exists>p x. Appender w v = Some p \<and> appenders w p = Some x \<and> a_staged_rows x = 0 \<and> a_staged x = None) \<Longrightarrow> \<exists>w'. m = Inr w'"
    and "Appender w v = None \<Longrightarrow> m = Inr w" and "\<And>p w'. Appender w v = Some p \<Longrightarrow> m = Inr w' \<Longrightarrow> edits p w w'"
  shows "runs m (wf (appender_ok A G))"
proof (cases "Appender w v")
  case None
  then show ?thesis using assms(5) wf by simp
next
  case (Some p)
  then obtain x where x: "appenders w p = Some x" using slot_target(5) [OF wf] by blast
  then have ok: "appender_ok A G x" using wf by (auto simp: well_formed_def linked_def)
  have "\<exists>w'. m = Inr w'"
  proof (cases "a_types x")
    case None
    then show ?thesis using assms(4) Some x ok by (simp add: appender_ok_def)
  next
    case types: (Some ts)
    then have "batch A ts (chunks_of G ts) v p w" using Some x ok by (simp add: batch_def appender_ok_def)
    moreover have "chunk_vectors C A ts (chunks_of G ts)" using E by (simp add: typed_engine_def)
    ultimately show ?thesis using assms(3) by (auto simp: runs_exists)
  qed
  then show ?thesis using edits_wf [OF wf] assms(6) [OF Some] by auto
qed

lemma staging_wf:
  assumes wf: "wf (appender_ok A G) w" and E: "typed_engine C A G" and M: "memory_law C A" and A: "appender_releases A"
  shows "runs (ml_duckdb_stage_int64 C A v c r y w) (wf (appender_ok A G))"
    and "runs (ml_duckdb_stage_float C A narrow v c r y w) (wf (appender_ok A G))"
    and "runs (ml_duckdb_stage_string C A v c r s w) (wf (appender_ok A G))"
    and "runs (ml_duckdb_stage_null C A v c r w) (wf (appender_ok A G))"
    and "ba_ok b \<Longrightarrow> runs (ml_duckdb_stage_blit C A v c b at' n w) (wf (appender_ok A G))"
    and "ba_ok b \<Longrightarrow> runs (ml_duckdb_stage_mask C A v c b at' n w) (wf (appender_ok A G))"
proof -
  have per: "0 < duckdb_vector_size A" using A by (simp add: appender_releases_def)
  show "runs (ml_duckdb_stage_int64 C A v c r y w) (wf (appender_ok A G))"
    by (rule staged_wf [OF wf E stage_int64_batch [OF _ _ M per]]) (auto simp: ml_duckdb_stage_int64_def nothing_staged dest: staging_edits(1))
  show "runs (ml_duckdb_stage_float C A narrow v c r y w) (wf (appender_ok A G))"
    by (rule staged_wf [OF wf E stage_float_batch [OF _ _ M per]]) (auto simp: ml_duckdb_stage_float_def nothing_staged dest: staging_edits(2))
  show "runs (ml_duckdb_stage_string C A v c r s w) (wf (appender_ok A G))"
    by (rule staged_wf [OF wf E stage_string_batch [OF _ _ per]]) (auto simp: ml_duckdb_stage_string_def nothing_staged dest: staging_edits(3))
  show "runs (ml_duckdb_stage_null C A v c r w) (wf (appender_ok A G))"
    by (rule staged_wf [OF wf E stage_null_batch [OF _ _ per]]) (auto simp: nothing_staged dest: staging_edits(4))
  show "runs (ml_duckdb_stage_blit C A v c b at' n w) (wf (appender_ok A G))" if "ba_ok b"
    by (rule staged_wf [OF wf E stage_blit_batch [OF _ _ M per that]]) (auto simp: nothing_staged nothing_written dest: staging_edits(5))
  show "runs (ml_duckdb_stage_mask C A v c b at' n w) (wf (appender_ok A G))" if "ba_ok b"
    by (rule staged_wf [OF wf E stage_mask_batch [OF _ that]]) (auto simp: nothing_staged nothing_written dest: staging_edits(6))
qed

end
