(* ===== verification/Stubs_Safety.thy ===== *)
theory Stubs_Safety
  imports Stubs Staging_Safety
begin

text \<open>
  Every permitted call, started from the global invariant, returns and ends in it. The
  appenders' part of the invariant is \<open>appender_ok\<close>.
\<close>

definition lawful :: "'e apis \<Rightarrow> engine_types \<Rightarrow> bool" where
  "lawful A G \<longleftrightarrow> releases A \<and> appender_releases (appender A) \<and> typed_engine (chunk A) (appender A) G \<and>
     metadata_engine (statement A) (chunk A) G \<and> memory_law (chunk A) (appender A)"

named_theorems keeps_wf \<open>entry points that keep the global invariant\<close>

declare ml_duckdb_database_owner_wf [keeps_wf] ml_duckdb_native_request_create_wf [keeps_wf]
  ml_duckdb_finish_database_close_wf [keeps_wf] finalize_database_wf [keeps_wf]
  ml_duckdb_finish_connection_close_wf [keeps_wf] finalize_connection_wf [keeps_wf]
  ml_duckdb_finish_prepared_close_wf [keeps_wf] finalize_prepared_wf [keeps_wf]
  ml_duckdb_clear_stage_wf [keeps_wf] ml_duckdb_appender_owner_ok [keeps_wf]
  ml_duckdb_finish_appender_close_wf [keeps_wf] finalize_appender_wf [keeps_wf]
  ml_duckdb_stage_begin_wf [keeps_wf] staging_wf(1-4) [keeps_wf]
  ml_duckdb_local_file_work_wf [keeps_wf] finalize_work_wf [keeps_wf]

lemma state_of_runs: "runs m (\<lambda>(r, w'). Q w') \<Longrightarrow> runs (state_of m) Q"
  by (auto simp: state_of_def runs_bind elim!: runs_conseq)

lemma owner_of_slot_wf [keeps_wf]:
  assumes "wf K w"
  shows "Database w v \<noteq> None \<Longrightarrow> runs (ml_duckdb_connection_owner v w) (\<lambda>(r, w'). wf K w')"
    and "Connection w v \<noteq> None \<Longrightarrow> runs (ml_duckdb_prepared_owner v w) (\<lambda>(r, w'). wf K w')"
  using ml_duckdb_connection_owner_wf [OF assms] ml_duckdb_prepared_owner_wf [OF assms] by blast+

lemma with_databaseE:
  assumes "with_database v P w"
  obtains d x where "Database w v = Some d" and "databases w d = Some x" and "P x"
  using assms by (auto simp: with_database_def split: option.splits)

lemma with_connectionE:
  assumes "with_connection v P w"
  obtains a c where "Connection w v = Some a" and "connections w a = Some c" and "P c"
  using assms by (auto simp: with_connection_def split: option.splits)

lemma with_preparedE:
  assumes "with_prepared v P w"
  obtains p pr c where "Prepared w v = Some p" and "prepareds w p = Some pr" and "P pr"
    and "connections w (p_parent pr) = Some c" and "\<not> c_native_closing c"
  using assms by (auto simp: with_prepared_def split: option.splits)

subsection \<open>Databases\<close>

lemma wf_heaps_below: "wf K w \<Longrightarrow> heaps_below w"
  by (simp add: well_formed_def base_def)

lemma ml_duckdb_open_wf [keeps_wf]:
  assumes "wf K w" and "with_database v (\<lambda>x. d_database x = None \<and> d_config x = None \<and> d_path x = None) w" and "session_releases S"
  shows "runs (ml_duckdb_open S v path threads memory ro w) (\<lambda>(r, w'). wf K w')"
proof -
  obtain d x where d: "Database w v = Some d" "databases w d = Some x" "database_is False False False x"
    using assms(2) by (rule with_databaseE) (auto simp: database_is_def)
  show ?thesis
    by (rule runs_conseq [OF ml_duckdb_open_runs [OF d wf_heaps_below [OF assms(1)] assms(3)]])
      (use d(2) assms(1) in \<open>auto elim: database_settled_well_formed\<close>)
qed

lemma ml_duckdb_close_database_wf [keeps_wf]:
  assumes "wf K w" and "session_releases S"
  shows "runs (ml_duckdb_close_database S v w) (\<lambda>(r, w'). wf K w')"
proof (cases "Database w v")
  case None
  have "wf K w'" if "pending_raises u = (b, w')" "wf K u" for b u w'
    using that by (auto simp: pending_raises_def split: list.splits)
  then show ?thesis using None assms(1)
    by (auto simp: ml_duckdb_close_database_def database_clear_def blocking_def split: prod.splits)
next
  case (Some d)
  then obtain x where x: "databases w d = Some x" using slot_target(1) [OF assms(1)] by blast
  show ?thesis
    by (rule runs_conseq [OF ml_duckdb_close_database_runs [OF Some x wf_heaps_below [OF assms(1)] assms(2)]])
      (use x assms(1) in \<open>auto elim: database_settled_well_formed\<close>)
qed

subsection \<open>Connections\<close>

lemma ml_duckdb_connect_wf [keeps_wf]:
  assumes "wf K w" and "with_connection v (\<lambda>c. \<not> c_native_closing c \<and> c_connection c = None) w"
  shows "runs (ml_duckdb_connect S v w) (\<lambda>(r, w'). wf K w')"
proof -
  obtain a c where c: "Connection w v = Some a" "connections w a = Some c" "\<not> c_native_closing c" "c_connection c = None"
    using assms(2) by (auto elim: with_connectionE)
  have q: "quiescent a False w" using wf_quiescent [OF assms(1) c(2)] c(3) by simp
  have u: "unconnected a w" using c link_target(1) [OF assms(1) c(2)] by (auto simp: unconnected_def)
  show ?thesis
    by (rule runs_conseq [OF ml_duckdb_connect_runs [OF c(1) q u]]) (use c(2) assms(1) in \<open>auto elim: settled_connection\<close>)
qed

lemma pending_wf:
  assumes "pending_raises w = (b, w')" and "wf K w"
  shows "wf K w'"
  using assms by (auto simp: pending_raises_def split: list.splits)

lemma blocking_idle_wf:
  assumes "wf K w" and "\<And>w. body w = Inr (x, w)"
  shows "runs (blocking body w) (\<lambda>(r, w'). wf K w')"
  using assms by (auto simp: blocking_def split: prod.splits dest: pending_wf)

lemma ml_duckdb_close_connection_wf [keeps_wf]:
  assumes "wf K w" and "Connection w v = None \<or> with_connection v (\<lambda>c. c_active_request c = None) w"
    and "session_releases S" and "statement_releases T"
  shows "runs (ml_duckdb_close_connection S T v w) (\<lambda>(r, w'). wf K w')"
proof (cases "Connection w v")
  case None
  then show ?thesis
    unfolding ml_duckdb_close_connection_def by (intro blocking_idle_wf assms(1)) (simp add: connection_clear_def)
next
  case (Some a)
  then have "with_connection v (\<lambda>c. c_active_request c = None) w" using assms(2) by simp
  then obtain c where c: "connections w a = Some c" "c_active_request c = None" using Some by (auto elim: with_connectionE)
  show ?thesis
    by (rule runs_conseq [OF ml_duckdb_close_connection_runs [OF Some wf_quiescent [OF assms(1) c(1)] c assms(3,4)]])
      (use c(1) assms(1) in \<open>auto elim: settled_connection\<close>)
qed

lemma ml_duckdb_clear_work_wf [keeps_wf]:
  assumes "wf K w" and "statement_releases T"
  shows "runs (ml_duckdb_clear_work T v w) (wf K)"
proof (cases "Connection w v")
  case None
  then show ?thesis using assms(1) by (simp add: ml_duckdb_clear_work_def clear_work_def)
next
  case (Some a)
  then obtain c where c: "connections w a = Some c" using slot_target(2) [OF assms(1)] by blast
  have "busy a {a} False 0 (c_native_closing c) False 0 w (\<lambda>_. True) w"
    by (rule quiescent_busy [OF wf_quiescent [OF assms(1) c]]) simp_all
  then have "runs (clear_work T (Some a) DUCKDB_ML_RUNTIME_HELD w) (busy a {a} False 0 (c_native_closing c) False 0 w (has_work a False False False False))"
    by (rule clear_work_busy) (simp_all add: assms(2))
  then show ?thesis
    unfolding ml_duckdb_clear_work_def Some
    by (rule runs_conseq) (use c assms(1) in \<open>auto dest!: busy_settled elim: settled_connection\<close>)
qed

text \<open>An engine call outside a stub of work: only the engine and the history change.\<close>

lemma call_wf:
  assumes "well_formed K ed ea k w" and "disciplined (Engine a ph j)"
  shows "well_formed K ed ea k (w\<lparr>w_engine := e, w_log := Engine a ph j # w_log w\<rparr>)"
  using assms
  by (simp add: well_formed_def base_def heaps_below_def disjoint_owners_def slots_valid_def counted_def linked_def
      connection_ok_def request_ok_def database_holders_def connection_holders_def slack_def resources_def
      log_disciplined_def del: disciplined.simps)

lemma ml_duckdb_interrupt_wf [keeps_wf]:
  assumes "wf K w" and "Connection w v \<noteq> None"
  shows "runs (ml_duckdb_interrupt S v w) (wf K)"
proof -
  obtain a where a: "Connection w v = Some a" using assms(2) by blast
  obtain c where c: "connections w a = Some c" using slot_target(2) [OF assms(1) a] by blast
  show ?thesis using call_wf [OF assms(1), of a "c_native_phase c" Interrupt] by (simp add: ml_duckdb_interrupt_def a c call_def)
qed

subsection \<open>Requests\<close>

lemma wf_request:
  assumes "wf K w" and "requests w r = Some q"
  shows "r_owner q = Some a \<Longrightarrow> \<exists>c. connections w a = Some c \<and> c_active_request c = Some r \<and> \<not> c_native_guard c \<and>
      \<not> c_foreign_active c \<and> c_cleanup_depth c = 0 \<and> c_native_phase c \<noteq> DUCKDB_ML_NATIVE_USER"
    and "r_state q = DUCKDB_ML_REQUEST_INSTALLED \<longleftrightarrow> r_owner q \<noteq> None"
proof -
  have l: "linked K w" using assms(1) by (simp add: well_formed_def)
  then show "r_state q = DUCKDB_ML_REQUEST_INSTALLED \<longleftrightarrow> r_owner q \<noteq> None"
    using assms(2) by (auto simp: linked_def request_ok_def)
  assume "r_owner q = Some a"
  then obtain c where c: "connections w a = Some c" "c_active_request c = Some r" using link_target(2) [OF assms] by blast
  then have "connection_ok a c w" using l by (simp add: linked_def)
  then show "\<exists>c. connections w a = Some c \<and> c_active_request c = Some r \<and> \<not> c_native_guard c \<and>
      \<not> c_foreign_active c \<and> c_cleanup_depth c = 0 \<and> c_native_phase c \<noteq> DUCKDB_ML_NATIVE_USER"
    using c phase_of_not_user [of c] by (auto simp: connection_ok_def)
qed

lemma ml_duckdb_native_request_cancel_wf [keeps_wf]:
  assumes "wf K w"
  shows "runs (ml_duckdb_native_request_cancel v w) (wf K)"
proof (cases "Native_request w v")
  case (Some r)
  then obtain q where q: "requests w r = Some q" using slot_target(3) [OF assms] by blast
  then show ?thesis
    using request_flagged [OF assms q, of "q\<lparr>r_cancelled := True\<rparr>"] Some
    by (simp add: ml_duckdb_native_request_cancel_def on_request_def)
qed (simp add: ml_duckdb_native_request_cancel_def assms)

lemma ml_duckdb_native_request_retire_delivery_wf [keeps_wf]:
  assumes "wf K w"
  shows "runs (ml_duckdb_native_request_retire_delivery v w) (wf K)"
proof (cases "Native_request w v")
  case (Some r)
  then obtain q where q: "requests w r = Some q" using slot_target(3) [OF assms] by blast
  then show ?thesis
    using request_flagged [OF assms q, of "q\<lparr>r_reserved := False\<rparr>"] Some
    by (simp add: ml_duckdb_native_request_retire_delivery_def on_request_def)
qed (simp add: ml_duckdb_native_request_retire_delivery_def assms)

lemma ml_duckdb_native_request_reserve_delivery_wf [keeps_wf]:
  assumes "wf K w"
  shows "runs (ml_duckdb_native_request_reserve_delivery v w) (\<lambda>(r, w'). wf K w')"
proof (cases "Native_request w v")
  case (Some r)
  then obtain q where q: "requests w r = Some q" using slot_target(3) [OF assms] by blast
  show ?thesis
  proof (cases "r_owner q")
    case None
    then show ?thesis using Some q assms by (simp add: ml_duckdb_native_request_reserve_delivery_def)
  next
    case owner: (Some a)
    then obtain c where "connections w a = Some c" "\<not> c_native_guard c" using wf_request(1) [OF assms q] by blast
    from reserve_delivery_unlocked [OF Some q owner this] request_flagged [OF assms q, of "q\<lparr>r_reserved := True\<rparr>"] assms
    show ?thesis by simp
  qed
qed (simp add: ml_duckdb_native_request_reserve_delivery_def assms)

lemma ml_duckdb_native_request_deliver_wf [keeps_wf]:
  assumes "wf K w"
  shows "runs (ml_duckdb_native_request_deliver S v w) (\<lambda>(r, w'). wf K w')"
proof (cases "Native_request w v")
  case (Some r)
  then obtain q where q: "requests w r = Some q" using slot_target(3) [OF assms] by blast
  show ?thesis
  proof (cases "r_owner q")
    case None
    then show ?thesis using Some q assms by (simp add: ml_duckdb_native_request_deliver_def ml_duckdb_native_request_try_interrupt_def)
  next
    case owner: (Some a)
    then obtain c where "connections w a = Some c" "\<not> c_native_guard c" using wf_request(1) [OF assms q] by blast
    from try_interrupt_unlocked [OF Some q owner this, of S] call_wf [OF assms, of a DUCKDB_ML_NATIVE_USER Interrupt] assms
    show ?thesis by (simp add: ml_duckdb_native_request_deliver_def)
  qed
qed (simp add: ml_duckdb_native_request_deliver_def ml_duckdb_native_request_try_interrupt_def assms)

lemma ml_duckdb_native_request_install_wf [keeps_wf]:
  assumes "wf K w"
  shows "runs (ml_duckdb_native_request_install x v w) (\<lambda>(r, w'). wf K w')"
proof (cases "Native_request w v")
  case (Some r)
  then obtain q where q: "requests w r = Some q" using slot_target(3) [OF assms] by blast
  show ?thesis
  proof (cases "Connection w x")
    case None
    then show ?thesis using Some q assms by (simp add: ml_duckdb_native_request_install_def)
  next
    case owner: (Some a)
    then obtain c where c: "connections w a = Some c" using slot_target(2) [OF assms] by blast
    then have guard: "\<not> c_native_guard c" using assms by (auto simp: well_formed_def linked_def connection_ok_def)
    let ?c = "c\<lparr>c_references := c_references c + 1\<rparr>"
    have "wf K (put_request r (q\<lparr>r_owner := Some a, r_state := DUCKDB_ML_REQUEST_INSTALLED\<rparr>)
        (put_connection a (?c\<lparr>c_active_request := Some r\<rparr>) w))"
      if "r_state q = DUCKDB_ML_REQUEST_FRESH" "c_active_request c = None"
      using request_linked [OF connection_referenced [OF assms c], of r q ?c] q that wf_request(2) [OF assms q] by simp
    then show ?thesis using install_unlocked [OF Some q owner c guard] assms by simp
  qed
qed (simp add: ml_duckdb_native_request_install_def assms)

text \<open>The links of a request are dropped; its owner's deletion runs through the view \<open>V\<close>.\<close>

lemma uninstalling:
  assumes wf: "wf K w" and small: "small w" and S: "session_releases S" and T: "statement_releases T"
    and q: "requests w r = Some q" "r_owner q = Some a" "\<not> r_reserved q"
    and view: "connection_view V"
    and dropped: "\<And>w. well_formed K None (Some a) 0 w \<Longrightarrow> Native_request w = Nr \<Longrightarrow>
      requests w r = Some (q\<lparr>r_owner := None, r_state := DUCKDB_ML_REQUEST_DETACHED\<rparr>) \<Longrightarrow> well_formed K None (Some a) k (V w)"
    and slot: "Native_request w = Nr"
  shows "runs (native_request_uninstall S T (Some r) w) (\<lambda>(x, w'). x = REQUEST_UNINSTALLED \<and> well_formed K None None k (V w'))"
proof -
  obtain c where c: "connections w a = Some c" "c_active_request c = Some r" "\<not> c_native_guard c" "\<not> c_foreign_active c"
    "c_cleanup_depth c = 0" using wf_request(1) [OF wf q(1,2)] by blast
  have state: "r_state q = DUCKDB_ML_REQUEST_INSTALLED" using wf_request(2) [OF wf q(1)] q(2) by simp
  let ?w = "put_connection a (c\<lparr>c_active_request := None\<rparr>) (put_request r (q\<lparr>r_owner := None, r_state := DUCKDB_ML_REQUEST_DETACHED\<rparr>) w)"
  have unlinked: "well_formed K None (Some a) 0 ?w" by (rule request_unlinked [OF wf q(1,2) c(1)])
  have "well_formed K None (Some a) k (V ?w)" by (rule dropped [OF unlinked]) (simp_all add: slot)
  moreover have "small ?w" using small by (simp add: small_def)
  ultimately have "runs (connection_delete S T (Some a) ?w) (\<lambda>w'. base w' \<and> w_next w' = w_next ?w \<and> well_formed K None None k (V w'))"
    by (intro connection_view.delete [OF view _ well_formed_base [OF unlinked] _ _ S T]) simp_all
  then show ?thesis
    unfolding uninstall_unlocked [OF q(1) state q(2) c(1,2,3)]
    using c q(3) by (simp add: runs_bind) (auto elim: runs_conseq)
qed

lemma ml_duckdb_native_request_uninstall_wf [keeps_wf]:
  assumes "wf K w" and "small w" and "session_releases S" and "statement_releases T"
  shows "runs (ml_duckdb_native_request_uninstall S T v w) (\<lambda>(r, w'). wf K w')"
proof (cases "Native_request w v")
  case None
  then show ?thesis using assms(1) by (simp add: ml_duckdb_native_request_uninstall_def native_request_uninstall_def)
next
  case (Some r)
  then obtain q where q: "requests w r = Some q" using slot_target(3) [OF assms(1)] by blast
  show ?thesis
  proof (cases "r_owner q")
    case None
    then show ?thesis using Some q assms(1) wf_request(2) [OF assms(1) q]
      by (simp add: ml_duckdb_native_request_uninstall_def native_request_uninstall_def)
  next
    case owner: (Some a)
    obtain c where c: "connections w a = Some c" "c_active_request c = Some r" "\<not> c_native_guard c" "\<not> c_foreign_active c"
      "c_cleanup_depth c = 0" using wf_request(1) [OF assms(1) q owner] by blast
    have state: "r_state q = DUCKDB_ML_REQUEST_INSTALLED" using wf_request(2) [OF assms(1) q] owner by simp
    show ?thesis
    proof (cases "r_reserved q")
      case True
      then show ?thesis
        using uninstall_unlocked [OF q state owner c(1,2,3)] c assms(1) by (simp add: ml_duckdb_native_request_uninstall_def Some)
    next
      case False
      have "runs (native_request_uninstall S T (Some r) w) (\<lambda>(x, w'). x = REQUEST_UNINSTALLED \<and> wf K w')"
        by (rule uninstalling [OF assms(1-4) q owner False whole.connection_view_axioms _ refl])
      then show ?thesis unfolding ml_duckdb_native_request_uninstall_def Some by (rule runs_conseq) auto
    qed
  qed
qed

lemma ml_duckdb_native_request_dispose_wf [keeps_wf]:
  assumes "wf K w"
  shows "runs (ml_duckdb_native_request_dispose v w) (\<lambda>(r, w'). wf K w')"
proof (cases "Native_request w v")
  case (Some r)
  then obtain q where q: "requests w r = Some q" using slot_target(3) [OF assms] by blast
  then show ?thesis
    using request_freed [OF assms Some q] wf_request(2) [OF assms q] assms Some by (simp add: ml_duckdb_native_request_dispose_def)
qed (simp add: ml_duckdb_native_request_dispose_def assms)

lemma finalize_native_request_wf [keeps_wf]:
  assumes "wf K w" and "small w" and "session_releases S" and "statement_releases T"
    and "case Native_request w v of None \<Rightarrow> True | Some r \<Rightarrow>
      (case requests w r of None \<Rightarrow> False | Some q \<Rightarrow> r_owner q = None \<or> \<not> r_reserved q)"
  shows "runs (finalize_native_request S T v w) (wf K)"
proof (cases "Native_request w v")
  case None
  then show ?thesis using assms(1) by (simp add: finalize_native_request_def)
next
  case (Some r)
  then obtain q where q: "requests w r = Some q" using slot_target(3) [OF assms(1)] by blast
  have state: "r_state q = DUCKDB_ML_REQUEST_INSTALLED \<longleftrightarrow> r_owner q \<noteq> None" by (rule wf_request(2) [OF assms(1) q])
  show ?thesis
  proof (cases "r_owner q")
    case None
    then have "wf K (free_request v r (count_fallback w))"
      using request_freed [of K "count_fallback w" v r q] assms(1) Some q by simp
    then show ?thesis using None Some q state by (simp add: finalize_native_request_def)
  next
    case owner: (Some a)
    have free: "\<not> r_reserved q" using assms(5) Some q owner by simp
    let ?V = "\<lambda>w. w\<lparr>requests := (requests w)(r := None), Native_request := (Native_request w)(v := None)\<rparr>"
    have "runs (native_request_uninstall S T (Some r) w) (\<lambda>(x, w'). x = REQUEST_UNINSTALLED \<and> well_formed K None None 1 (?V w'))"
    proof (rule uninstalling [OF assms(1-4) q owner free request_gone.connection_view_axioms _ refl])
      fix u
      assume u: "well_formed K None (Some a) 0 u" "Native_request u = Native_request w"
        "requests u r = Some (q\<lparr>r_owner := None, r_state := DUCKDB_ML_REQUEST_DETACHED\<rparr>)"
      show "well_formed K None (Some a) 1 (?V u)"
        using request_dropped [OF u(1) _ u(3), of v] u(2) Some by simp
    qed
    then have "runs (bind (native_request_uninstall S T (Some r) w) (\<lambda>(result, w). if result \<noteq> REQUEST_UNINSTALLED
        then Inl (Fatal ''native request finalization requires quiescent exclusive ownership'') else Inr w))
        (\<lambda>w'. well_formed K None None 1 (?V w'))"
      by (auto simp: runs_bind elim!: runs_conseq)
    then have "runs (bind (bind (native_request_uninstall S T (Some r) w) (\<lambda>(result, w). if result \<noteq> REQUEST_UNINSTALLED
        then Inl (Fatal ''native request finalization requires quiescent exclusive ownership'') else Inr w))
        (\<lambda>w. Inr (free_request v r (count_fallback w)))) (wf K)"
    proof (rule runs_bindI)
      fix u
      assume "well_formed K None None 1 (?V u)"
      then have "well_formed K None None (0 + 1) (?V (count_fallback u))"
        using well_formed_oracles(4) [of K None None 1 "?V u"] by (cases u) (simp add: count_fallback_def)
      then show "runs (Inr (free_request v r (count_fallback u))) (wf K)"
        unfolding free_request_def runs_simps by (rule well_formed_released)
    qed
    then show ?thesis using owner Some q state by (simp add: finalize_native_request_def)
  qed
qed

subsection \<open>Statements\<close>

lemma no_work_has_work: "connections w a = Some c \<Longrightarrow> no_work c \<Longrightarrow> has_work a False False False False w"
  by (simp add: no_work_def has_work_def)

lemma ml_duckdb_execute_wf [keeps_wf]:
  assumes "wf K w" and "with_connection v (\<lambda>c. \<not> c_native_closing c \<and> no_work c) w" and "statement_releases T"
  shows "runs (ml_duckdb_execute T v sql is_control w) (\<lambda>(r, w'). wf K w')"
    and "runs (ml_duckdb_execute_control T v s w) (\<lambda>(r, w'). wf K w')"
proof -
  obtain a c where c: "Connection w v = Some a" "connections w a = Some c" "\<not> c_native_closing c" "no_work c"
    using assms(2) by (auto elim: with_connectionE)
  have q: "quiescent a False w" using wf_quiescent [OF assms(1) c(2)] c(3) by simp
  note idle = no_work_has_work [OF c(2,4)]
  show "runs (ml_duckdb_execute T v sql is_control w) (\<lambda>(r, w'). wf K w')"
    by (rule runs_conseq [OF ml_duckdb_execute_runs [OF c(1) q idle assms(3)]])
      (use c(2) assms(1) in \<open>auto elim: settled_connection\<close>)
  show "runs (ml_duckdb_execute_control T v s w) (\<lambda>(r, w'). wf K w')"
    by (rule runs_conseq [OF ml_duckdb_execute_control_runs [OF c(1) q idle assms(3)]])
      (use c(2) assms(1) in \<open>auto elim: settled_connection\<close>)
qed

lemma ml_duckdb_admit_local_file_wf [keeps_wf]:
  assumes "wf K w" and "with_connection v (\<lambda>c. \<not> c_native_closing c) w"
  shows "runs (ml_duckdb_admit_local_file v w) (\<lambda>(r, w'). wf K w')"
proof -
  obtain a c where c: "Connection w v = Some a" "connections w a = Some c" "\<not> c_native_closing c"
    using assms(2) by (rule with_connectionE)
  have q: "quiescent a False w" using wf_quiescent [OF assms(1) c(2)] c(3) by simp
  show ?thesis
    by (rule runs_conseq [OF admit_local_file_runs [OF c(1) q]]) (use assms(1) in \<open>auto elim: settled_well_formed\<close>)
qed

subsection \<open>Prepared statements\<close>

lemma open_prepared:
  assumes "wf K w" and "with_prepared v P w"
  obtains p pr where "Prepared w v = Some p" and "prepareds w p = Some pr" and "P pr"
    and "quiescent (p_parent pr) False w" and "owned p (p_parent pr) w"
proof -
  obtain p pr c where p: "Prepared w v = Some p" "prepareds w p = Some pr" "P pr"
    "connections w (p_parent pr) = Some c" "\<not> c_native_closing c" using assms(2) by (rule with_preparedE)
  then show thesis using that [OF p(1-3)] wf_quiescent [OF assms(1) p(4)] wf_owned [OF assms(1) p(2)] by simp
qed

lemma prepared_wf:
  assumes "wf K w" and "runs m (\<lambda>(r, w'). settled a {p} cl w w' \<and> owned p a w')"
  shows "runs m (\<lambda>(r, w'). wf K w')"
  using assms(2) by (rule runs_conseq) (use assms(1) in \<open>auto elim: settled_owned\<close>)

lemma ml_duckdb_fetch_wf [keeps_wf]:
  assumes "wf K w" and "with_prepared v (\<lambda>pr. True) w" and "chunk_releases C"
  shows "runs (ml_duckdb_fetch T C v w) (\<lambda>(r, w'). wf K w')"
  using assms(1,2) by (rule open_prepared) (blast intro: prepared_wf ml_duckdb_fetch_runs assms)

lemma ml_duckdb_prepare_wf [keeps_wf]:
  assumes "wf K w" and "with_prepared v (\<lambda>pr. p_prepared pr = None \<and> p_extracted pr = None \<and> p_input pr = None) w"
    and "statement_releases T"
  shows "runs (ml_duckdb_prepare T v sql w) (\<lambda>(r, w'). wf K w')"
  using assms(1,2) by (rule open_prepared) (blast intro: prepared_wf ml_duckdb_prepare_runs assms)

lemma ml_duckdb_bind_wf [keeps_wf]:
  assumes "wf K w" and "with_prepared v (\<lambda>pr. True) w"
  shows "runs (ml_duckdb_bind_null T B v i w) (\<lambda>(r, w'). wf K w')"
    and "runs (ml_duckdb_bind_int64 T B v i t x w) (\<lambda>(r, w'). wf K w')"
    and "runs (ml_duckdb_bind_float T B f v i t x w) (\<lambda>(r, w'). wf K w')"
    and "runs (ml_duckdb_reset T B v w) (\<lambda>(r, w'). wf K w')"
proof -
  obtain p and pr :: prepared_owner where p: "Prepared w v = Some p" "quiescent (p_parent pr) False w" "owned p (p_parent pr) w"
    by (rule open_prepared [OF assms]) (rule that)
  note wf = prepared_wf [OF assms(1)] and bind = ml_duckdb_bind_runs [OF p]
  show "runs (ml_duckdb_bind_null T B v i w) (\<lambda>(r, w'). wf K w')" by (rule wf [OF bind(1)])
  show "runs (ml_duckdb_bind_int64 T B v i t x w) (\<lambda>(r, w'). wf K w')" by (rule wf [OF bind(2)])
  show "runs (ml_duckdb_bind_float T B f v i t x w) (\<lambda>(r, w'). wf K w')" by (rule wf [OF bind(3)])
  show "runs (ml_duckdb_reset T B v w) (\<lambda>(r, w'). wf K w')" by (rule wf [OF bind(4)])
qed

lemma ml_duckdb_bind_string_wf [keeps_wf]:
  assumes "wf K w" and "with_prepared v (\<lambda>pr. p_input pr = None) w"
  shows "runs (ml_duckdb_bind_string T B v i t text w) (\<lambda>(r, w'). wf K w')"
  using assms by (rule open_prepared) (blast intro: prepared_wf ml_duckdb_bind_string_runs assms)

lemma ml_duckdb_execute_prepared_wf [keeps_wf]:
  assumes "wf K w" and "with_prepared v (\<lambda>pr. \<not> p_has_result pr) w"
  shows "runs (ml_duckdb_execute_prepared T v w) (\<lambda>(r, w'). wf K w')"
proof -
  obtain p pr where p: "Prepared w v = Some p" "prepareds w p = Some pr" "\<not> p_has_result pr"
    "quiescent (p_parent pr) False w" "owned p (p_parent pr) w" using assms by (rule open_prepared)
  let ?a = "p_parent pr"
  have connection: "connections w ?a \<noteq> None" using link_target(3) [OF assms(1) p(2)] by blast
  have "wf K w'" if s: "settled ?a {?a, p} False w w'" "owned p ?a w'" for w'
  proof -
    have e: "evo {?a} {?a, p} 0 w w'" using s(1) by (simp add: settled_def)
    note base = evo_base [OF e well_formed_base [OF assms(1)]]
    have "prepareds w' ?a = None \<and> appenders w' ?a = None"
      using distinct_owners(2) [OF base, of ?a] evo_none(2) [OF e, of ?a] connection by simp
    moreover have "appenders w' p = None" using distinct_owners(3) [OF base, of p] s(2) by (auto simp: owned_def)
    ultimately show ?thesis using s by (intro settled_well_formed [OF s(1) assms(1)]) (auto simp: owned_def)
  qed
  then show ?thesis
    using ml_duckdb_execute_prepared_runs [OF p(1,4,5,2,3), of T] by (auto elim!: runs_conseq)
qed

lemma live_prepared:
  assumes "wf K w" and "Prepared w v = Some p"
  obtains a cl where "quiescent a cl w" and "owned p a w"
proof -
  obtain pr where pr: "prepareds w p = Some pr" using slot_target(4) [OF assms] by blast
  obtain c where "connections w (p_parent pr) = Some c" using link_target(3) [OF assms(1) pr] by blast
  then show thesis using that wf_quiescent [OF assms(1)] wf_owned [OF assms(1) pr] by blast
qed

lemma closing_prepared_wf [keeps_wf]:
  assumes "wf K w" and "statement_releases T" and "chunk_releases C"
  shows "runs (ml_duckdb_close_result T C v w) (\<lambda>(r, w'). wf K w')"
    and "runs (ml_duckdb_close_prepared T C v w) (\<lambda>(r, w'). wf K w')"
    and "runs (ml_duckdb_finish_result_close T C v w) (wf K)"
    and "runs (ml_duckdb_clear_prepared_input v w) (wf K)"
proof -
  have "runs (ml_duckdb_close_result T C v w) (\<lambda>(r, w'). wf K w') \<and> runs (ml_duckdb_close_prepared T C v w) (\<lambda>(r, w'). wf K w') \<and>
    runs (ml_duckdb_finish_result_close T C v w) (wf K) \<and> runs (ml_duckdb_clear_prepared_input v w) (wf K)"
  proof (cases "Prepared w v")
    case None
    then show ?thesis
      using assms(1) blocking_idle_wf [OF assms(1), of "\<lambda>w. Inr ((), w)"]
      by (simp add: ml_duckdb_close_result_def ml_duckdb_close_prepared_def ml_duckdb_finish_result_close_def
          ml_duckdb_clear_prepared_input_def clear_result_def clear_prepared_def clear_prepared_input_def)
  next
    case (Some p)
    obtain a cl where q: "quiescent a cl w" and o: "owned p a w" using assms(1) Some by (rule live_prepared)
    note idle = Some q o
    have wf: "wf K w'" if "settled a {p} cl w w'" "owned p a w'" for w' using settled_owned [OF that assms(1)] .
    show ?thesis
      using prepared_wf [OF assms(1) ml_duckdb_close_result_runs [OF idle assms(2,3)]]
        prepared_wf [OF assms(1) ml_duckdb_close_prepared_runs [OF idle assms(2,3)]]
        runs_conseq [OF ml_duckdb_finish_result_close_runs [OF idle assms(2,3)], of "wf K"]
        runs_conseq [OF ml_duckdb_clear_prepared_input_runs [OF idle], of "wf K"] wf by blast
  qed
  then show "runs (ml_duckdb_close_result T C v w) (\<lambda>(r, w'). wf K w')"
    and "runs (ml_duckdb_close_prepared T C v w) (\<lambda>(r, w'). wf K w')"
    and "runs (ml_duckdb_finish_result_close T C v w) (wf K)"
    and "runs (ml_duckdb_clear_prepared_input v w) (wf K)" by blast+
qed

subsection \<open>Appenders\<close>

lemma with_appenderE:
  assumes "with_appender v P w"
  obtains p x c where "Appender w v = Some p" and "appenders w p = Some x" and "P x"
    and "connections w (a_parent x) = Some c" and "\<not> c_native_closing c"
  using assms by (auto simp: with_appender_def split: option.splits)

lemmas staging_array_wf [keeps_wf] = staging_wf(5,6) [unfolded ba_ok_def]

lemma create_appender_wf [keeps_wf]:
  assumes "wf (appender_ok A G) w" and "metadata_engine T C G" and "typed_engine C A G"
    and "with_appender v (\<lambda>x. a_appender x = None \<and> a_schema x = None \<and> a_table x = None \<and> a_types x = None \<and> a_nullable x = None) w"
  shows "runs (ml_duckdb_create_appender T C A v schema table w) (\<lambda>(r, w'). wf (appender_ok A G) w')"
  using assms(4) by (rule with_appenderE) (auto intro: ml_duckdb_create_appender_wf assms(1-3))

lemma append_staged_wf [keeps_wf]:
  assumes "wf (appender_ok A G) w" and "appender_releases A" and "Appender w v = None \<or> with_appender v (\<lambda>x. True) w"
  shows "runs (ml_duckdb_append_staged C A v w) (\<lambda>(r, w'). wf (appender_ok A G) w')"
proof (cases "Appender w v")
  case None
  then show ?thesis using assms(1) by (simp add: ml_duckdb_append_staged_def)
next
  case (Some p)
  then have "with_appender v (\<lambda>x. True) w" using assms(3) by simp
  then show ?thesis by (rule with_appenderE) (rule ml_duckdb_append_wf(1) [OF assms(1) _ _ _ _ assms(2)])
qed

lemma flush_appender_wf [keeps_wf]:
  assumes "wf (appender_ok A G) w" and "appender_releases A" and "with_appender v (\<lambda>x. True) w"
  shows "runs (ml_duckdb_flush_appender A v w) (\<lambda>(r, w'). wf (appender_ok A G) w')"
  using assms(3) by (rule with_appenderE) (rule ml_duckdb_append_wf(2) [OF assms(1) _ _ _ _ assms(2)])

lemma close_appender_wf [keeps_wf]:
  assumes "wf (appender_ok A G) w" and "appender_releases A" and "flush \<longrightarrow> Appender w v = None \<or> with_appender v (\<lambda>x. True) w"
  shows "runs (ml_duckdb_close_appender C A v flush w) (\<lambda>(r, w'). wf (appender_ok A G) w')"
proof (cases "Appender w v")
  case None
  then show ?thesis using blocking_nothing_wf [OF assms(1), of "()"] by (simp add: ml_duckdb_close_appender_def close_native_def)
next
  case (Some p)
  show ?thesis
    by (rule ml_duckdb_close_appender_wf [OF assms(1,2)]) (use assms(3) Some in \<open>auto elim!: with_appenderE\<close>)
qed

subsection \<open>File works\<close>

lemma with_workE:
  assumes "with_work v P w"
  obtains k x where "Work w v = Some k" and "works w k = Some x" and "P x"
  using assms by (auto simp: with_work_def split: option.splits)

lemma publish_file_wf [keeps_wf]:
  assumes "wf K w" and "with_work v (\<lambda>x. f_source x = None \<and> f_destination x = None) w"
  shows "runs (ml_duckdb_publish_local_file F v source destination w) (\<lambda>(r, w'). wf K w')"
  using assms(2) by (rule with_workE) (auto intro: ml_duckdb_publish_local_file_wf [OF assms(1)])

lemma publish_admitted_wf [keeps_wf]:
  assumes "wf K w" and "with_work v (\<lambda>x. f_source x = None \<and> f_destination x = None \<and> f_parent x = None) w \<and>
    with_connection connection (\<lambda>c. \<not> c_native_closing c) w"
  shows "runs (ml_duckdb_publish_local_file_admitted F connection v source destination w) (\<lambda>(r, w'). wf K w')"
  using assms(2) by (auto elim!: with_workE with_connectionE intro: ml_duckdb_publish_local_file_admitted_wf [OF assms(1)])

lemma remove_file_wf [keeps_wf]:
  assumes "wf K w" and "with_work v (\<lambda>x. f_source x = None) w"
  shows "runs (ml_duckdb_remove_local_file F v source w) (\<lambda>(r, w'). wf K w')"
  using assms(2) by (rule with_workE) (auto intro: ml_duckdb_remove_local_file_wf [OF assms(1)])

lemma finish_work_wf [keeps_wf]:
  "wf K w \<Longrightarrow> small w \<Longrightarrow> session_releases S \<Longrightarrow> statement_releases T \<Longrightarrow> runs (ml_duckdb_finish_local_file_work S T v w) (wf K)"
  unfolding ml_duckdb_finish_local_file_work_def by (rule finish_wf)

subsection \<open>Every permitted call\<close>

lemma perform_wf:
  assumes "wf (appender_ok (appender A) G) w" and "small w" and "lawful A G" and "permitted s w"
  shows "runs (perform A s w) (wf (appender_ok (appender A) G))"
proof -
  have A: "session_releases (session A)" "statement_releases (statement A)" "chunk_releases (chunk A)"
    "appender_releases (appender A)" "memory_law (chunk A) (appender A)" "metadata_engine (statement A) (chunk A) G" "typed_engine (chunk A) (appender A) G"
    using assms(3) by (simp_all add: lawful_def releases_def)
  show ?thesis
    by (insert assms(4), cases s; simp only: perform.simps permitted.simps;
        ((rule state_of_runs)?, (rule keeps_wf; (rule assms(1,2) A | assumption))))
qed

end
