(* ===== verification/Reachability.thy ===== *)
theory Reachability
  imports Stubs_Safety
begin

text \<open>
  The worlds a process can reach by permitted calls, and what holds in all of them: no call
  faults, no owner dangles, counters are exact, nothing leaks, and the engine is only called
  in the phases the protocol allows.
\<close>

subsection \<open>Runs of the process\<close>

definition initial :: "'e world \<Rightarrow> bool" where
  "initial w \<longleftrightarrow> w_next w = 0 \<and> w_live w = 0 \<and> w_log w = [] \<and>
     databases w = Map.empty \<and> connections w = Map.empty \<and> requests w = Map.empty \<and>
     prepareds w = Map.empty \<and> appenders w = Map.empty \<and> works w = Map.empty \<and>
     Database w = Map.empty \<and> Connection w = Map.empty \<and> Native_request w = Map.empty \<and>
     Prepared w = Map.empty \<and> Appender w = Map.empty \<and> Work w = Map.empty"

text \<open>
  Between two calls the engine may move by itself, and the outcomes of later allocations and
  runtime transitions are anything.
\<close>

inductive reachable :: "'e apis \<Rightarrow> 'e world \<Rightarrow> bool" for A where
  start: "initial w \<Longrightarrow> reachable A w"
| elsewhere: "reachable A w \<Longrightarrow> reachable A (w\<lparr>w_engine := e, w_oom := os, w_pending := ps\<rparr>)"
| stub: "reachable A w \<Longrightarrow> small w \<Longrightarrow> permitted s w \<Longrightarrow> perform A s w = Inr w' \<Longrightarrow> reachable A w'"

lemma initial_wf: "initial w \<Longrightarrow> wf K w"
  by (simp add: initial_def well_formed_def base_def heaps_below_def disjoint_owners_def slots_valid_def slots_ok_def
      sole_def counted_def linked_def slack_def resources_def log_disciplined_def)

lemma reachable_wf:
  assumes "lawful A G" and "reachable A w"
  shows "wf (appender_ok (appender A) G) w"
  using assms(2)
proof induction
  case (start w)
  then show ?case by (rule initial_wf)
next
  case (elsewhere w e os ps)
  then show ?case using well_formed_oracles(1,2,3) by metis
next
  case (stub w s w')
  then show ?case using perform_wf [OF stub.IH stub.hyps(2) assms(1) stub.hyps(3)] by simp
qed

text \<open>
  C2: the global invariant holds in every reachable world: slots and links point to live
  owners, every owner but the shared ones has exactly one slot, reference counts are the
  number of holders, the resource counter is in step, every connection is idle, and every
  appender knows the types of its columns and has a chunk for every row staged.
\<close>

theorem reachable_well_formed:
  assumes "lawful A G" and "reachable A w"
  shows "well_formed (appender_ok (appender A) G) None None 0 w"
  using assms by (rule reachable_wf)


lemma sole_empty: "sole n Map.empty h \<Longrightarrow> h = Map.empty"
  by (metis sole_def ran_empty dom_eq_empty_conv)

lemma positive_count: "0 < n \<Longrightarrow> n < 2 ^ 32 \<Longrightarrow> (of_nat n :: 32 word) \<noteq> 0"
  by (auto simp: word_of_nat_eq_0_iff dest: dvd_imp_le)




text \<open>
  C6: no dangling owner. The owner behind a prepared statement's slot is allocated, and so
  are its connection and that connection's database, each with at least one reference.
\<close>

theorem prepared_chain_alive:
  assumes "lawful A G" and "reachable A w" and "small w" and "Prepared w v = Some p"
  shows "\<exists>pr c d. prepareds w p = Some pr \<and> connections w (p_parent pr) = Some c \<and>
    databases w (c_parent c) = Some d \<and> c_references c \<noteq> 0 \<and> d_references d \<noteq> 0"
proof -
  have wf: "wf (appender_ok (appender A) G) w" using assms(1,2) by (rule reachable_wf)
  obtain pr c d where owners: "prepareds w p = Some pr" "connections w (p_parent pr) = Some c" "databases w (c_parent c) = Some d"
    using slot_target(4) [OF wf assms(4)] link_target(3) [OF wf] link_target(1) [OF wf] by blast
  have count: "counted None None w" using wf by (simp add: well_formed_def)
  have "connection_holders (p_parent pr) w < 2 ^ 32" "database_holders (c_parent c) w < 2 ^ 32"
    using holders_bounded(2) [OF wf, of "p_parent pr"] holders_bounded(1) [OF wf, of "c_parent c"] assms(3)
    by (simp_all add: small_def)
  moreover have "0 < connection_holders (p_parent pr) w \<and> c_references c = of_nat (connection_holders (p_parent pr) w)"
    "0 < database_holders (c_parent c) w \<and> d_references d = of_nat (database_holders (c_parent c) w)"
    using count owners(2,3) by (simp_all add: counted_def)
  ultimately have "c_references c \<noteq> 0" "d_references d \<noteq> 0" using positive_count by simp_all
  then show ?thesis using owners by blast
qed

text \<open>
  C7: between two calls every connection is idle: its guard is free, no foreign work and no
  cleanup is open, and its phase is IDLE or, once closing has begun, CLOSING. A delivery
  attempted then is never reserved.
\<close>

theorem idle_between_calls:
  assumes "lawful A G" and "reachable A w"
  shows "(\<forall>a c. connections w a = Some c \<longrightarrow> \<not> c_native_guard c \<and> \<not> c_foreign_active c \<and> c_cleanup_depth c = 0 \<and>
      c_native_phase c = (if c_native_closing c then DUCKDB_ML_NATIVE_CLOSING else DUCKDB_ML_NATIVE_IDLE)) \<and>
    (\<forall>v w'. ml_duckdb_native_request_reserve_delivery v w \<noteq> Inr (REQUEST_RESERVED, w'))"
proof (intro conjI allI impI)
  have wf: "wf (appender_ok (appender A) G) w" using assms by (rule reachable_wf)
  fix a c
  assume "connections w a = Some c"
  then have "connection_ok a c w" using wf by (simp add: well_formed_def linked_def)
  then show "\<not> c_native_guard c" "\<not> c_foreign_active c" "c_cleanup_depth c = 0"
    "c_native_phase c = (if c_native_closing c then DUCKDB_ML_NATIVE_CLOSING else DUCKDB_ML_NATIVE_IDLE)"
    by (auto simp: connection_ok_def phase_of_def)
next
  have wf: "wf (appender_ok (appender A) G) w" using assms by (rule reachable_wf)
  fix v w'
  show "ml_duckdb_native_request_reserve_delivery v w \<noteq> Inr (REQUEST_RESERVED, w')"
  proof (cases "Native_request w v")
    case None
    then show ?thesis by (simp add: ml_duckdb_native_request_reserve_delivery_def)
  next
    case (Some r)
    then obtain q where q: "requests w r = Some q" using slot_target(3) [OF wf] by blast
    show ?thesis
    proof (cases "r_owner q")
      case None
      then show ?thesis using Some q by (simp add: ml_duckdb_native_request_reserve_delivery_def)
    next
      case owner: (Some a)
      obtain c where c: "connections w a = Some c" "\<not> c_native_guard c" "c_native_phase c \<noteq> DUCKDB_ML_NATIVE_USER"
        using wf_request(1) [OF wf q owner] by blast
      show ?thesis
        using reserve_delivery_unlocked [OF Some q owner c(1,2)] c(3) by (auto simp: interruptible_now_def)
    qed
  qed
qed

subsection \<open>Instances\<close>

text \<open>An engine whose state is its memory; byte 0 tells whether the metadata has been read.\<close>

definition plain_session :: "(nat \<Rightarrow> 8 word) session_api" where
  "plain_session = \<lparr>duckdb_library_version = ''v1.5.5'', duckdb_create_config = \<lambda>e. ((DuckDBSuccess, Some 1), e),
     duckdb_set_config = \<lambda>h name setting e. (DuckDBSuccess, e), duckdb_destroy_config = \<lambda>h e. (None, e),
     duckdb_open_ext = \<lambda>path config e. ((DuckDBSuccess, Some 2, None), e), duckdb_close = \<lambda>h e. (None, e),
     duckdb_connect = \<lambda>h e. ((DuckDBSuccess, Some 3), e), duckdb_disconnect = \<lambda>h e. (None, e), duckdb_interrupt = \<lambda>h e. e\<rparr>"

definition plain_statements :: "(nat \<Rightarrow> 8 word) statement_api" where
  "plain_statements = \<lparr>duckdb_query = \<lambda>h sql e. ((DuckDBSuccess, 4), e), duckdb_result_error = \<lambda>r e. None,
     duckdb_destroy_result = \<lambda>r e. (0, e), duckdb_extract_statements = \<lambda>h sql e. ((1, Some 5), e),
     duckdb_extract_statements_error = \<lambda>h e. None, duckdb_destroy_extracted = \<lambda>h e. (None, e),
     duckdb_prepare_extracted_statement = \<lambda>h x i e. ((DuckDBSuccess, Some 6), e), duckdb_prepare_error = \<lambda>h e. None,
     duckdb_prepared_statement_type = \<lambda>h e. DUCKDB_STATEMENT_TYPE_CREATE,
     duckdb_execute_prepared = \<lambda>h e. ((DuckDBSuccess, 4), e(0 := 0)), duckdb_destroy_prepare = \<lambda>h e. (None, e)\<rparr>"

definition plain_chunks :: "(nat \<Rightarrow> 8 word) chunk_api" where
  "plain_chunks = memory_chunks\<lparr>duckdb_fetch_chunk := \<lambda>r e. if e 0 = 0 then (Some 7, e(0 := 1)) else (None, e),
     duckdb_data_chunk_get_size := \<lambda>h e. 2\<rparr>"

definition plain_binds :: "(nat \<Rightarrow> 8 word) bind_api" where
  "plain_binds = \<lparr>duckdb_bind_null = \<lambda>s i e. (DuckDBSuccess, e), duckdb_bind_boolean = \<lambda>s i x e. (DuckDBSuccess, e),
     duckdb_bind_int8 = \<lambda>s i x e. (DuckDBSuccess, e), duckdb_bind_int16 = \<lambda>s i x e. (DuckDBSuccess, e),
     duckdb_bind_int32 = \<lambda>s i x e. (DuckDBSuccess, e), duckdb_bind_int64 = \<lambda>s i x e. (DuckDBSuccess, e),
     duckdb_bind_date = \<lambda>s i x e. (DuckDBSuccess, e), duckdb_bind_timestamp = \<lambda>s i x e. (DuckDBSuccess, e),
     duckdb_bind_timestamp_tz = \<lambda>s i x e. (DuckDBSuccess, e), duckdb_create_timestamp_s = \<lambda>x e. (Some 8, e),
     duckdb_create_timestamp_ms = \<lambda>x e. (Some 8, e), duckdb_create_timestamp_ns = \<lambda>x e. (Some 8, e),
     duckdb_bind_value = \<lambda>s i x e. (DuckDBSuccess, e), duckdb_destroy_value = \<lambda>h e. ((), e),
     duckdb_bind_float = \<lambda>s i x e. (DuckDBSuccess, e), duckdb_bind_double = \<lambda>s i x e. (DuckDBSuccess, e),
     duckdb_bind_blob = \<lambda>s i x e. (DuckDBSuccess, e), duckdb_bind_varchar_length = \<lambda>s i x e. (DuckDBSuccess, e),
     duckdb_clear_bindings = \<lambda>s e. (DuckDBSuccess, e)\<rparr>"

definition plain_files :: "(nat \<Rightarrow> 8 word) file_api" where
  "plain_files = \<lparr>link = \<lambda>s d e. (0, e), unlink = \<lambda>s e. (0, e), strerror = \<lambda>n. ''error'', ENOENT = 2, EEXIST = 17\<rparr>"

definition sample_apis :: "(nat \<Rightarrow> 8 word) apis" where
  "sample_apis = \<lparr>session = plain_session, statement = plain_statements, chunk = plain_chunks,
     binding = plain_binds, narrow = ucast, appender = memory_appender, files = plain_files\<rparr>"

definition plain_types :: engine_types where
  "plain_types = \<lparr>type_of = \<lambda>_. DUCKDB_TYPE_BIGINT, column_of = \<lambda>_ _. DUCKDB_TYPE_BIGINT, chunks_of = \<lambda>_. UNIV, metadata_handles = UNIV\<rparr>"

lemma sample_apis_simps [simp]:
  "session sample_apis = plain_session" "statement sample_apis = plain_statements" "chunk sample_apis = plain_chunks"
  "appender sample_apis = memory_appender"
  by (simp_all add: sample_apis_def)

lemmas plain_engine = plain_session_def plain_statements_def plain_chunks_def memory_chunks_def memory_appender_def

lemma sample_lawful: "lawful sample_apis plain_types"
proof -
  have "releases sample_apis" by (simp add: releases_def session_releases_def statement_releases_def chunk_releases_def plain_engine)
  moreover have "appender_releases memory_appender" by (simp add: appender_releases_def memory_appender_def)
  moreover have "typed_engine plain_chunks memory_appender plain_types"
    by (simp add: typed_engine_def plain_types_def chunk_vectors_def plain_engine readable_range_def)
  moreover have "metadata_engine plain_statements plain_chunks plain_types"
    by (simp add: metadata_engine_def plain_types_def plain_engine readable_range_def)
  moreover have "memory_law plain_chunks memory_appender" by (auto simp: memory_law_def plain_engine)
  ultimately show ?thesis by (simp add: lawful_def)
qed

text \<open>A database, then a connection on it, then a prepared statement; and the database alone, closed again.\<close>

definition sample_one :: "(nat \<Rightarrow> 8 word) world" where
  "sample_one = (empty_world (\<lambda>_. 0))\<lparr>w_next := 2, w_live := 1,
     databases := [1 \<mapsto> database_owner0\<lparr>d_references := 1\<rparr>], Database := [0 \<mapsto> 1]\<rparr>"

definition sample_two :: "(nat \<Rightarrow> 8 word) world" where
  "sample_two = sample_one\<lparr>w_next := 4, w_live := 2, databases := [1 \<mapsto> database_owner0\<lparr>d_references := 2\<rparr>],
     connections := [3 \<mapsto> connection_owner0\<lparr>c_references := 1, c_parent := 1\<rparr>], Connection := [2 \<mapsto> 3]\<rparr>"

definition sample_three :: "(nat \<Rightarrow> 8 word) world" where
  "sample_three = sample_two\<lparr>w_next := 6, w_live := 3,
     connections := [3 \<mapsto> connection_owner0\<lparr>c_references := 2, c_parent := 1\<rparr>],
     prepareds := [5 \<mapsto> prepared_owner0\<lparr>p_parent := 3\<rparr>], Prepared := [4 \<mapsto> 5]\<rparr>"

definition sample_gone :: "(nat \<Rightarrow> 8 word) world" where
  "sample_gone = (empty_world (\<lambda>_. 0))\<lparr>w_next := 2\<rparr>"

lemmas sample_steps = sample_one_def sample_two_def sample_three_def sample_gone_def fresh_def malloc_fails_def
  acquired_def released_def state_of_def small_def

lemma perform_samples:
  "perform sample_apis New_database (empty_world (\<lambda>_. 0)) = Inr sample_one"
  "perform sample_apis (New_connection 0) sample_one = Inr sample_two"
  "perform sample_apis (New_prepared 2) sample_two = Inr sample_three"
  "perform sample_apis (Finish_database 0) sample_one = Inr sample_gone"
  by (simp_all add: sample_steps ml_duckdb_database_owner_def ml_duckdb_connection_owner_def ml_duckdb_prepared_owner_def
      duckdb_ml_connection_ref_def on_database_def on_connection_def ml_duckdb_finish_database_close_def database_unref_def
      database_clear_def close_database_handle_def destroy_config_handle_def free_path_def database_owner0_def
      connection_owner0_def)

lemma reachable_samples:
  "reachable sample_apis (empty_world (\<lambda>_. 0))" "reachable sample_apis sample_one" "reachable sample_apis sample_two"
  "reachable sample_apis sample_three" "reachable sample_apis sample_gone"
proof -
  show 0: "reachable sample_apis (empty_world (\<lambda>_. 0))" by (rule reachable.start) (simp add: initial_def)
  show 1: "reachable sample_apis sample_one"
    by (rule reachable.stub [OF 0 _ _ perform_samples(1)]) (simp_all add: small_def)
  show 2: "reachable sample_apis sample_two"
    by (rule reachable.stub [OF 1 _ _ perform_samples(2)]) (simp_all add: sample_steps)
  show "reachable sample_apis sample_three"
    by (rule reachable.stub [OF 2 _ _ perform_samples(3)]) (simp_all add: sample_steps)
  show "reachable sample_apis sample_gone"
    by (rule reachable.stub [OF 1 _ _ perform_samples(4)]) (simp_all add: sample_steps)
qed

lemma reachable_well_formed_witness: "well_formed (appender_ok memory_appender plain_types) None None 0 sample_three"
  using reachable_well_formed [OF sample_lawful reachable_samples(4)] by simp





lemma prepared_chain_witness: "\<exists>pr c. prepareds sample_three 5 = Some pr \<and> connections sample_three (p_parent pr) = Some c \<and> c_references c \<noteq> 0"
  using prepared_chain_alive [OF sample_lawful reachable_samples(4), of 4 5] by (auto simp: sample_steps)

lemma idle_witness: "\<exists>c. connections sample_two 3 = Some c \<and> c_native_phase c = DUCKDB_ML_NATIVE_IDLE \<and> \<not> c_foreign_active c"
  using idle_between_calls [OF sample_lawful reachable_samples(3)]
  by (auto simp: sample_steps connection_owner0_def)

end
