(* ===== verification/Appender_Properties.thy ===== *)
theory Appender_Properties
  imports Reachability
begin

text \<open>
  What the invariant of the appenders means for the calls that read one: an appender that is
  open and has not failed describes all its columns, and every staged row has a place in the
  engine's memory.
\<close>

text \<open>
  C8: an open appender is described. In every reachable world an appender with a handle that
  has not failed reports status OK, the engine's type of each of its columns, and one
  NULL-ability flag per column.
\<close>

theorem open_appender_described:
  assumes "lawful A G" and "reachable A w" and "Appender w v = Some p" and "appenders w p = Some x"
    and "a_appender x = Some g" and "a_status x = DUCKDB_ML_STATUS_OK"
  shows "ml_duckdb_appender_status v w = Inr (status_code DUCKDB_ML_STATUS_OK) \<and>
    ml_duckdb_appender_types v w = Inr (map (column_of G g) [0..<a_columns x]) \<and>
    (\<exists>flags. ml_duckdb_appender_nullable v w = Inr flags \<and> length flags = a_columns x)"
proof -
  have "appender_ok (appender A) G x"
    using reachable_wf [OF assms(1,2)] assms(4) by (auto simp: well_formed_def linked_def)
  then obtain ts flags where "a_types x = Some ts" "map (column_of G g) [0..<a_columns x] = ts" "a_nullable x = Some flags" "length flags = a_columns x"
    using assms(5,6) by (auto simp: appender_ok_def split: option.splits)
  then show ?thesis
    using assms(3,4,6) by (auto simp: ml_duckdb_appender_status_def ml_duckdb_appender_types_def ml_duckdb_appender_nullable_def
        open_appender_def read_array_def)
qed


subsection \<open>Instances\<close>

definition sample_four :: "(nat \<Rightarrow> 8 word) world" where
  "sample_four = sample_two\<lparr>w_next := 6, w_live := 3,
     connections := [3 \<mapsto> connection_owner0\<lparr>c_references := 2, c_parent := 1\<rparr>],
     appenders := [5 \<mapsto> appender_owner0\<lparr>a_parent := 3\<rparr>], Appender := [4 \<mapsto> 5]\<rparr>"

lemma reachable_four: "reachable sample_apis sample_four"
proof -
  have "perform sample_apis (New_appender 2) sample_two = Inr sample_four"
    by (simp add: sample_steps sample_four_def ml_duckdb_appender_owner_def duckdb_ml_connection_ref_def on_connection_def
        database_owner0_def connection_owner0_def)
  then show ?thesis
    by (rule reachable.stub [OF reachable_samples(3), rotated -1]) (simp_all add: sample_steps)
qed

lemma two_columns: "[0..<2] = [0, 1 :: nat]" "replicate 2 y = [y, y]"
  by (simp_all add: upt_rec numeral_2_eq_2)

lemmas create_defs = ml_duckdb_create_appender_def create_body_def metadata_extract_def metadata_prepare_def
  metadata_bind_def metadata_execute_def metadata_fetch_def metadata_exhausted_def metadata_create_def metadata_release_def
  create_native_def catalog_name_def read_schema_def read_column_def admit_user_def admit_scalar_def check_def
  blocking_def pending_raises_def guard_defs latched_def call_def engine_def on_appender_def duckdb_ml_connection_handle_def
  connection_owner0_def database_owner0_def appender_owner0_def plain_engine two_columns

lemmas stage_defs = ml_duckdb_stage_begin_def clear_input_def stage_logical_def stage_grow_def stage_reset_def stage_clear_strings_def
  staged_chunk_def staged_chunks_def

text \<open>The table ''t'' has two BIGINT columns; three rows are staged.\<close>

lemma stage_sample:
  "\<exists>w1 w2 x. perform sample_apis (Create_appender 4 ''main'' ''t'') sample_four = Inr w1 \<and> small w1 \<and>
     perform sample_apis (Stage_begin 4 3) w1 = Inr w2 \<and> Appender w2 4 = Some 5 \<and> appenders w2 5 = Some x \<and>
     a_appender x = Some 1 \<and> a_status x = DUCKDB_ML_STATUS_OK \<and> a_columns x = 2 \<and> a_staged_rows x = 3"
  by (simp add: sample_steps sample_four_def create_defs stage_defs Let_def)

lemma reachable_staged:
  obtains w x where "reachable sample_apis w" and "Appender w 4 = Some 5" and "appenders w 5 = Some x"
    and "a_appender x = Some 1" and "a_status x = DUCKDB_ML_STATUS_OK" and "a_columns x = 2" and "a_staged_rows x = 3"
proof -
  obtain w1 w2 x where w: "perform sample_apis (Create_appender 4 ''main'' ''t'') sample_four = Inr w1" "small w1"
    "perform sample_apis (Stage_begin 4 3) w1 = Inr w2" "Appender w2 4 = Some 5" "appenders w2 5 = Some x"
    "a_appender x = Some 1" "a_status x = DUCKDB_ML_STATUS_OK" "a_columns x = 2" "a_staged_rows x = 3" using stage_sample by blast
  have "reachable sample_apis w1"
    by (rule reachable.stub [OF reachable_four _ _ w(1)])
      (simp_all add: sample_steps sample_four_def with_appender_def appender_owner0_def connection_owner0_def)
  then have "reachable sample_apis w2" by (rule reachable.stub [OF _ w(2) _ w(3)]) simp
  then show thesis using w(4-) by (rule that)
qed

lemma open_appender_witness:
  "\<exists>w. reachable sample_apis w \<and> ml_duckdb_appender_types 4 w = Inr [DUCKDB_TYPE_BIGINT, DUCKDB_TYPE_BIGINT]"
proof -
  obtain w x where w: "reachable sample_apis w" "Appender w 4 = Some 5" "appenders w 5 = Some x" "a_appender x = Some 1"
    "a_status x = DUCKDB_ML_STATUS_OK" "a_columns x = 2" by (rule reachable_staged)
  from open_appender_described [OF sample_lawful w(1-5)] w(1,6)
  show ?thesis by (auto simp: two_columns plain_types_def)
qed


end
