(* ===== verification/Fetch_Properties.thy ===== *)
theory Fetch_Properties
  imports View_Properties Statement_Properties
begin

text \<open>
  Prepared execution and fetching. Executing a prepared statement is one engine call with
  the epoch advanced on both sides of a schema change; a fetch that answers 1 leaves the
  cache that the views of \<open>View_Properties\<close> read: the engine's vectors of the chunk, with the
  types of the result's columns.
\<close>

lemmas run_prepared = run_prepared_defs run_call run_outside

subsection \<open>Executing a prepared statement\<close>

text \<open>
  C27: executing an uncancelled prepared statement is exactly one engine call, in the phase
  in which it may be interrupted. Around a schema change the epoch advances before the call
  and again after it, and the connection is marked until its transaction ends; otherwise
  epoch and mark stay. The statement holds the result, and the status tells the outcome.
\<close>

theorem execute_prepared_effect:
  assumes "idle_at a c w" and "undisturbed w" and "uncancelled_at c w" and "Prepared w v = Some p" and "prepareds w p = Some pr"
    and "p_parent pr = a"
    and "duckdb_execute_prepared T (p_prepared pr) (w_engine w) = ((state, r), e)"
    and "t = duckdb_prepared_statement_type T (p_prepared pr) (w_engine w)"
  shows "\<exists>w' c' pr'. ml_duckdb_execute_prepared T v w = Inr (Returned (), w') \<and>
    connections w' a = Some c' \<and> prepareds w' p = Some pr' \<and> w_engine w' = e \<and>
    w_log w' = (if statement_changes_schema t then [Epoch_advanced, Engine a (user_phase c) (Execute t), Epoch_advanced]
                else [Engine a (user_phase c) (Execute t)]) @ w_log w \<and>
    w_schema_epoch w' = w_schema_epoch w + (if statement_changes_schema t then 2 else 0) \<and>
    c_schema_dirty c' = (c_schema_dirty c \<or> statement_changes_schema t) \<and>
    p_result pr' = r \<and> p_has_result pr' \<and> (p_status pr' = DUCKDB_ML_STATUS_OK \<longleftrightarrow> state = DuckDBSuccess)"
proof (cases c)
  case c: (fields references parent connection guard active phase closing foreign dirty depth sq extracted prep result has_result
      st msg)
  have latch: "latched active w = Inr False" using latched_uncancelled [OF assms(3)] by (simp add: c)
  note facts = assms [unfolded idle_at_def undisturbed_def c, simplified] latch
  show ?thesis
    using facts
    by (cases state; cases "statement_changes_schema t")
      (auto simp: ml_duckdb_execute_prepared_def run_prepared_def duckdb_ml_schema_enter_def duckdb_ml_changes_schema_def
        duckdb_ml_schema_leave_def advance_epoch_def set_error_def run_prepared c user_phase_def)
qed

subsection \<open>Fetching\<close>

text \<open>The cache entry of a column: where the engine keeps the chunk's vector, and its type.\<close>

definition column_view :: "'e chunk_api \<Rightarrow> nat option \<Rightarrow> 'e \<Rightarrow> duckdb_type \<Rightarrow> nat \<Rightarrow> duckdb_ml_vector" where
  "column_view C chunk e t c = (let vector = duckdb_data_chunk_get_vector C chunk c e in
     \<lparr>v_data = duckdb_vector_get_data C vector e, v_validity = duckdb_vector_get_validity C vector e,
      v_type = t, v_width = duckdb_ml_type_width t\<rparr>)"

text \<open>A cache, if there is one, has the types of the result's columns.\<close>

definition typed_cache :: "duckdb_type list \<Rightarrow> prepared_owner \<Rightarrow> bool" where
  "typed_cache ts pr \<longleftrightarrow> (\<forall>vs. p_vectors pr = Some vs \<longrightarrow>
     map v_type vs = ts \<and> map v_width vs = map duckdb_ml_type_width ts \<and> p_vector_count pr = length ts)"

lemma refreshed_vectors:
  assumes "map v_type vs = ts" and "map v_width vs = map duckdb_ml_type_width ts"
  shows "refresh_vectors C chunk e (length ts) vs = map (\<lambda>c. column_view C chunk e (ts ! c) c) [0..<length ts]"
proof (rule nth_equalityI)
  show "length (refresh_vectors C chunk e (length ts) vs) = length (map (\<lambda>c. column_view C chunk e (ts ! c) c) [0..<length ts])"
    using arg_cong [OF assms(1), of length] by (simp add: refresh_vectors_def)
next
  fix i
  assume "i < length (refresh_vectors C chunk e (length ts) vs)"
  then have i: "i < length vs" "length ts = length vs"
    using arg_cong [OF assms(1), of length] by (simp_all add: refresh_vectors_def)
  have "v_type (vs ! i) = ts ! i" "v_width (vs ! i) = duckdb_ml_type_width (ts ! i)"
    using arg_cong [OF assms(1), of "\<lambda>l. l ! i"] arg_cong [OF assms(2), of "\<lambda>l. l ! i"] i by simp_all
  then show "refresh_vectors C chunk e (length ts) vs ! i = map (\<lambda>c. column_view C chunk e (ts ! c) c) [0..<length ts] ! i"
    using i by (cases "vs ! i") (simp add: refresh_vectors_def refresh_vector_def column_view_def Let_def nth_enumerate_eq)
qed

lemma fresh_vectors_typed:
  assumes "\<forall>c<length ts. duckdb_column_type C r c e = ts ! c"
  shows "map v_type (fresh_vectors C (length ts) r e) = ts"
    and "map v_width (fresh_vectors C (length ts) r e) = map duckdb_ml_type_width ts"
  using assms by (auto simp: fresh_vectors_def Let_def intro!: nth_equalityI)

lemma cached_chunk:
  assumes "prepareds w p = Some pr" and "p_chunk pr = Some h" and "w_oom w = []" and "typed_cache ts pr" and "ts \<noteq> []"
    and "duckdb_data_chunk_get_column_count C (Some h) (w_engine w) = length ts"
    and "\<forall>c<length ts. duckdb_column_type C (p_result pr) c (w_engine w) = ts ! c"
  shows "cache_vectors C p w = Inr (put_prepared p (pr\<lparr>p_vector_count := length ts,
      p_vectors := Some (map (\<lambda>c. column_view C (Some h) (w_engine w) (ts ! c) c) [0..<length ts]),
      p_chunk_rows := duckdb_data_chunk_get_size C (Some h) (w_engine w)\<rparr>) (if p_vectors pr = None then acquired w else w))"
proof (cases "p_vectors pr")
  case None
  then show ?thesis
    using assms(1-3,5,6) refreshed_vectors [OF fresh_vectors_typed [OF assms(7)], of C "Some h" "w_engine w"]
    by (simp add: cache_vectors_def malloc_fails_def on_prepared_def Let_def acquired_def)
next
  case (Some vs)
  then have vs: "map v_type vs = ts" "map v_width vs = map duckdb_ml_type_width ts" "p_vector_count pr = length ts"
    using assms(4) by (auto simp: typed_cache_def)
  have "pr\<lparr>p_vector_count := length ts\<rparr> = pr" by (simp add: vs(3) [symmetric])
  then show ?thesis
    using assms(1-3,5,6) Some refreshed_vectors [OF vs(1,2), of C "Some h" "w_engine w"]
    by (simp add: cache_vectors_def on_prepared_def Let_def)
qed

lemma typed_cache_frame [simp]:
  "typed_cache ts (pr\<lparr>p_chunk := h\<rparr>) = typed_cache ts pr" "typed_cache ts (pr\<lparr>p_chunk_rows := n\<rparr>) = typed_cache ts pr"
  "typed_cache ts (pr\<lparr>p_status := st\<rparr>) = typed_cache ts pr"
  by (simp_all add: typed_cache_def)

lemma typed_cache_views:
  "typed_cache ts (pr\<lparr>p_vector_count := length ts, p_vectors := Some (map (\<lambda>c. column_view C h e (ts ! c) c) [0..<length ts])\<rparr>)"
  by (auto simp: typed_cache_def column_view_def Let_def intro!: nth_equalityI)

lemma fetched:
  assumes "idle_at a c w" and "undisturbed w" and "uncancelled_at c w" and "Prepared w v = Some p" and "prepareds w p = Some pr"
    and "p_parent pr = a" and "typed_cache ts pr" and "ts \<noteq> []"
    and "e1 = (case p_chunk pr of None \<Rightarrow> w_engine w | Some h \<Rightarrow> snd (duckdb_destroy_data_chunk C h (w_engine w)))"
    and "duckdb_fetch_chunk C (p_result pr) e1 = (chunk, e2)"
    and "chunk \<noteq> None \<Longrightarrow> duckdb_data_chunk_get_column_count C chunk e2 = length ts"
    and "chunk \<noteq> None \<Longrightarrow> \<forall>c<length ts. duckdb_column_type C (p_result pr) c e2 = ts ! c"
  shows "\<exists>w' pr'. ml_duckdb_fetch T C v w = Inr (Returned (if chunk \<noteq> None then 1
        else if nonempty (duckdb_result_error T (p_result pr) e2) then - 1 else 0), w') \<and>
    Prepared w' = Prepared w \<and> prepareds w' p = Some pr' \<and> p_chunk pr' = chunk \<and> w_engine w' = e2 \<and> typed_cache ts pr' \<and>
    p_chunk_rows pr' = (if chunk = None then 0 else duckdb_data_chunk_get_size C chunk e2) \<and>
    (chunk \<noteq> None \<longrightarrow> p_vectors pr' = Some (map (\<lambda>c. column_view C chunk e2 (ts ! c) c) [0..<length ts])) \<and>
    w_log w' = Engine a (user_phase c) Fetch #
      (if p_chunk pr = None then [] else [Engine a DUCKDB_ML_NATIVE_CLEANUP Destroy_chunk]) @ w_log w"
proof (cases c)
  case c: (fields references parent connection guard active phase closing foreign dirty depth sq extracted prep result has_result
      st msg)
  have latch: "latched active w = Inr False" using latched_uncancelled [OF assms(3)] by (simp add: c)
  note facts = assms(1-10) [unfolded idle_at_def undisturbed_def c, simplified] latch
  note unfold = ml_duckdb_fetch_def fetch_body_def destroy_chunk_def fetch_next_def set_error_def run_prepared c user_phase_def
  show ?thesis
  proof (cases chunk)
    case None
    then show ?thesis
      using facts by (cases "p_chunk pr"; cases "duckdb_destroy_data_chunk C (the (p_chunk pr)) (w_engine w)")
        (auto simp: unfold typed_cache_def)
  next
    case (Some h)
    have law: "duckdb_data_chunk_get_column_count C (Some h) e2 = length ts"
      "\<forall>c<length ts. duckdb_column_type C (p_result pr) c e2 = ts ! c" using assms(11,12) Some by simp_all
    show ?thesis
      using facts law Some
      by (cases "p_chunk pr"; cases "duckdb_destroy_data_chunk C (the (p_chunk pr)) (w_engine w)"; cases "p_vectors pr")
        (simp_all add: unfold cached_chunk [where ts = ts] typed_cache_views)
  qed
qed

text \<open>
  C28: an uncancelled fetch first destroys the previous chunk, then makes one call for the next.
  It answers 1 with a chunk, 0 at the end and -1 on an error of the engine. With a chunk the
  cache describes, for every column, the vectors of this very chunk with the result's types,
  and the row count is the chunk's; without one the row count is 0, so that no view reads a
  stale address.
\<close>

theorem fetch_caches_chunk:
  assumes "idle_at a c w" and "undisturbed w" and "uncancelled_at c w" and "Prepared w v = Some p" and "prepareds w p = Some pr"
    and "p_parent pr = a" and "typed_cache ts pr" and "ts \<noteq> []"
    and "e1 = (case p_chunk pr of None \<Rightarrow> w_engine w | Some h \<Rightarrow> snd (duckdb_destroy_data_chunk C h (w_engine w)))"
    and "duckdb_fetch_chunk C (p_result pr) e1 = (chunk, e2)"
    and "chunk \<noteq> None \<Longrightarrow> duckdb_data_chunk_get_column_count C chunk e2 = length ts"
    and "chunk \<noteq> None \<Longrightarrow> \<forall>c<length ts. duckdb_column_type C (p_result pr) c e2 = ts ! c"
  shows "\<exists>w' pr'. ml_duckdb_fetch T C v w = Inr (Returned (if chunk \<noteq> None then 1
        else if nonempty (duckdb_result_error T (p_result pr) e2) then - 1 else 0), w') \<and>
    Prepared w' = Prepared w \<and> prepareds w' p = Some pr' \<and> p_chunk pr' = chunk \<and> w_engine w' = e2 \<and> typed_cache ts pr' \<and>
    p_chunk_rows pr' = (if chunk = None then 0 else duckdb_data_chunk_get_size C chunk e2) \<and>
    (chunk \<noteq> None \<longrightarrow> p_vectors pr' = Some (map (\<lambda>c. column_view C chunk e2 (ts ! c) c) [0..<length ts])) \<and>
    w_log w' = Engine a (user_phase c) Fetch #
      (if p_chunk pr = None then [] else [Engine a DUCKDB_ML_NATIVE_CLEANUP Destroy_chunk]) @ w_log w"
  using fetched [OF assms] .

subsection \<open>From the fetch to the views\<close>

text \<open>
  C29: fetching and viewing compose. If the engine maps the memory of the chunk's vectors, then
  after a fetch that answers 1 no view of the statement faults, and the 64-bit views read
  the engine's element: a row of a column of that width gives the eight bytes at its
  place in the vector just fetched, with the caller's default where its validity bit is off.
\<close>

theorem fetch_then_view:
  assumes "idle_at a c w" and "undisturbed w" and "uncancelled_at c w" and "Prepared w v = Some p" and "prepareds w p = Some pr"
    and "p_parent pr = a" and "typed_cache ts pr" and "ts \<noteq> []"
    and "e1 = (case p_chunk pr of None \<Rightarrow> w_engine w | Some h \<Rightarrow> snd (duckdb_destroy_data_chunk C h (w_engine w)))"
    and "duckdb_fetch_chunk C (p_result pr) e1 = (Some h, e2)"
    and "duckdb_data_chunk_get_column_count C (Some h) e2 = length ts"
    and "\<forall>k<length ts. duckdb_column_type C (p_result pr) k e2 = ts ! k"
    and "\<forall>k<length ts. backed (mapped C e2) (duckdb_data_chunk_get_size C (Some h) e2) (column_view C (Some h) e2 (ts ! k) k)"
    and "k < length ts" and "duckdb_ml_type_width (ts ! k) = 8" and "i < duckdb_data_chunk_get_size C (Some h) e2"
    and "x = column_view C (Some h) e2 (ts ! k) k"
  shows "\<exists>w'. ml_duckdb_fetch T C v w = Inr (Returned 1, w') \<and> view_ok C v w' \<and>
    ml_duckdb_view_int64 C v (int k) (int i) w' = Inr (value_at (mapped C e2) x i) \<and>
    ml_duckdb_view_int64_or C v (int k) (int i) d w' =
      Inr (if row_valid (mapped C e2) x i then value_at (mapped C e2) x i else d)"
proof -
  obtain w' pr' where w': "ml_duckdb_fetch T C v w = Inr (Returned 1, w')" "prepareds w' p = Some pr'" "p_chunk pr' = Some h"
    "w_engine w' = e2" "typed_cache ts pr'" "p_chunk_rows pr' = duckdb_data_chunk_get_size C (Some h) e2"
    "p_vectors pr' = Some (map (\<lambda>c. column_view C (Some h) e2 (ts ! c) c) [0..<length ts])" "Prepared w' v = Some p"
    using fetched [OF assms(1-10), of T] assms(4,11,12) by auto
  have count: "p_vector_count pr' = length ts" using w'(5,7) by (simp add: typed_cache_def)
  have ok: "view_ok C v w'" using assms(13) w' by (auto simp: view_ok_def count)
  have "visible v (int k) w' = Some (x, duckdb_data_chunk_get_size C (Some h) e2)"
    using w' assms(14,17) by (simp add: visible_def count)
  then show ?thesis
    using w'(1,4) ok assms(15-17) by (auto simp: scalar_view_defs read_T_shown [OF ok] read_T_or_shown [OF ok]
        shown_def row_is_null_def column_view_def Let_def)
qed

subsection \<open>Instances\<close>

lemma sample_backed: "k < 1 \<Longrightarrow> backed sample_memory 3 (column_view sample_chunks (Some 94) 95 ([DUCKDB_TYPE_BIGINT] ! k) k)"
  by (simp add: backed_def readable_range_def column_view_def sample_chunks_def sample_memory_def)

lemma execute_prepared_witness:
  "\<exists>w'. ml_duckdb_execute_prepared sample_statements 13 (sample_world False) = Inr (Returned (), w') \<and>
     w_log w' = [Epoch_advanced, Engine 3 DUCKDB_ML_NATIVE_USER (Execute DUCKDB_STATEMENT_TYPE_CREATE), Epoch_advanced]"
  using execute_prepared_effect [OF sample_idle sample_undisturbed sample_uncancelled, of 13 5 sample_prepared sample_statements
      DuckDBSuccess 94 95 DUCKDB_STATEMENT_TYPE_CREATE]
  by (auto simp: sample_statements_def user_phase_def sample_defs)

lemma sample_typed: "typed_cache [DUCKDB_TYPE_BIGINT] sample_prepared"
  by (simp add: typed_cache_def sample_defs)

lemma sample_fetch:
  "Prepared (sample_world b) 13 = Some 5" "prepareds (sample_world b) 5 = Some sample_prepared" "p_parent sample_prepared = 3"
  "94 = (case p_chunk sample_prepared of None \<Rightarrow> w_engine (sample_world b)
    | Some h \<Rightarrow> snd (duckdb_destroy_data_chunk sample_chunks h (w_engine (sample_world b))))"
  "duckdb_fetch_chunk sample_chunks (p_result sample_prepared) 94 = (Some 94, 95)"
  "duckdb_data_chunk_get_column_count sample_chunks h 95 = length [DUCKDB_TYPE_BIGINT]"
  "\<forall>c<length [DUCKDB_TYPE_BIGINT]. duckdb_column_type sample_chunks (p_result sample_prepared) c 95 = [DUCKDB_TYPE_BIGINT] ! c"
  "duckdb_data_chunk_get_size sample_chunks h 95 = 3" "mapped sample_chunks e = sample_memory"
  by (simp_all add: sample_world_def sample_prepared_def prepared_owner0_def sample_chunks_def)

lemma fetch_witness:
  "\<exists>w' pr'. ml_duckdb_fetch sample_statements sample_chunks 13 (sample_world False) = Inr (Returned 1, w') \<and>
     prepareds w' 5 = Some pr' \<and> p_chunk_rows pr' = 3"
  using fetch_caches_chunk [OF sample_idle sample_undisturbed sample_uncancelled sample_fetch(1-3) sample_typed _ sample_fetch(4-5),
      of sample_statements] sample_fetch(6-8) by auto

lemma fetch_then_view_witness:
  "\<exists>w'. ml_duckdb_fetch sample_statements sample_chunks 13 (sample_world False) = Inr (Returned 1, w') \<and>
     ml_duckdb_view_int64 sample_chunks 13 0 2 w' = Inr 0x5756555453525150"
proof -
  let ?x = "column_view sample_chunks (Some 94) 95 ([DUCKDB_TYPE_BIGINT] ! 0) 0"
  have third: "value_at sample_memory ?x 2 = (0x5756555453525150 :: 64 word)"
    by (simp add: value_at_def bytes_at_def column_view_def sample_chunks_def sample_memory_def le_word_def upt_rec)
  have backed: "\<forall>k<length [DUCKDB_TYPE_BIGINT]. backed (mapped sample_chunks 95) (duckdb_data_chunk_get_size sample_chunks (Some 94) 95)
      (column_view sample_chunks (Some 94) 95 ([DUCKDB_TYPE_BIGINT] ! k) k)"
    using sample_backed by (simp add: sample_fetch)
  have "(2 :: nat) < duckdb_data_chunk_get_size sample_chunks (Some 94) 95" by (simp add: sample_fetch)
  from fetch_then_view [OF sample_idle sample_undisturbed sample_uncancelled sample_fetch(1-3) sample_typed _ sample_fetch(4-7)
      backed _ _ this refl, where T = sample_statements and d = 0]
  show ?thesis using third by (auto simp: sample_fetch(9))
qed

end
