(* ===== verification/Append_Properties.thy ===== *)
theory Append_Properties
  imports Staging_Properties
begin

text \<open>
  Appending a staged batch: the chunks go to the engine in order until one is refused, the
  first failure decides status and message, a batch that was spoiled while it was staged is
  not appended at all, and afterwards nothing is staged.
\<close>

subsection \<open>A spoiled batch\<close>

lemma diagnostic_again: "diagnostic dflt (Some (diagnostic dflt' m)) = diagnostic dflt' m"
proof -
  have "c_string (take n (c_string s)) = take n (c_string s)" for n s
    unfolding c_string_def takeWhile_eq_all_conv by (blast dest: in_set_takeD set_takeWhileD)
  then show ?thesis by (simp add: diagnostic_def snprintf_s_def split: option.splits)
qed


subsection \<open>Submitting the chunks\<close>

text \<open>The chunks are handed over until one is refused: how many were, and whether all were taken.\<close>

primrec submitted :: "'e appender_api \<Rightarrow> nat option \<Rightarrow> nat list \<Rightarrow> 'e \<Rightarrow> nat \<times> bool" where
  "submitted A h [] e = (0, True)"
| "submitted A h (k # ks) e = (case duckdb_append_data_chunk A h k e of (state, e') \<Rightarrow>
     if state = DuckDBSuccess then map_prod Suc id (submitted A h ks e') else (1, False))"

definition append_event :: "event \<Rightarrow> bool" where
  "append_event x = (case x of Engine a ph k \<Rightarrow> k = Appender_append | Epoch_advanced \<Rightarrow> False)"

lemma append_event_simps [simp]: "append_event (Engine a ph k) \<longleftrightarrow> k = Appender_append" "\<not> append_event Epoch_advanced"
  by (simp_all add: append_event_def)

text \<open>
  The appender \<open>x\<close> inside the work of its connection. Its request \<open>q\<close> stays uncancelled;
  \<open>s\<close> tells whether its status is OK, \<open>events\<close> are the appends so far.
\<close>

definition appending :: "nat \<Rightarrow> nat \<Rightarrow> nat option \<Rightarrow> appender_owner \<Rightarrow> bool \<Rightarrow> event list \<Rightarrow> 'e world \<Rightarrow> bool" where
  "appending a p q x s events w \<longleftrightarrow> w_pending w = [] \<and> filter append_event (w_log w) = events \<and> latched q w = Inr False \<and>
     (\<exists>c. connections w a = Some c \<and> \<not> c_native_guard c \<and> c_foreign_active c \<and> c_cleanup_depth c = 0 \<and>
       \<not> c_native_closing c \<and> c_active_request c = q) \<and>
     (\<exists>y. appenders w p = Some y \<and> a_parent y = a \<and> a_appender y = a_appender x \<and> a_staged y = a_staged x \<and>
       a_staged_capacity y = a_staged_capacity x \<and> a_types y = a_types x \<and> a_columns y = a_columns x \<and>
       (a_status y = DUCKDB_ML_STATUS_OK \<longleftrightarrow> s))"

lemma admit_refused: "appending a p q x False events w \<Longrightarrow> admit_user p w = Inr (False, w)"
  by (auto simp: appending_def admit_user_def)

lemma latched_put [simp]: "latched q (put_connection a c w) = latched q w" "latched q (put_appender p x w) = latched q w"
  "latched q (w\<lparr>appenders := m\<rparr>) = latched q w"
  by (cases q; simp add: latched_def)+

lemma admitted_chunk:
  assumes "appending a p q x True events w"
  obtains w1 where "admit_user p w = Inr (True, w1)" and "appending a p q x True events w1" and "w_engine w1 = w_engine w"
    and "map_option c_native_phase (connections w1 a) = Some (if q = None then DUCKDB_ML_NATIVE_NONINTERRUPTIBLE else DUCKDB_ML_NATIVE_USER)"
proof -
  obtain c where c: "connections w a = Some c" "\<not> c_native_guard c" "c_foreign_active c" "c_cleanup_depth c = 0"
    "\<not> c_native_closing c" "c_active_request c = q" using assms by (auto simp: appending_def)
  obtain y where y: "appenders w p = Some y" "a_parent y = a" "a_status y = DUCKDB_ML_STATUS_OK" using assms by (auto simp: appending_def)
  let ?w = "put_connection a (c\<lparr>c_native_phase := if q = None then DUCKDB_ML_NATIVE_NONINTERRUPTIBLE else DUCKDB_ML_NATIVE_USER\<rparr>) w"
  show thesis
  proof (rule that [of ?w])
    show "admit_user p w = Inr (True, ?w)"
      using c y assms by (auto simp: admit_user_def duckdb_ml_native_user_call_begin_def call_begin_eq appending_def)
    show "appending a p q x True events ?w" using c assms by (auto simp: appending_def)
  qed simp_all
qed

lemma check_appending:
  assumes "appending a p q x True events w"
  shows "runs (check A p state DUCKDB_ML_RUNTIME_RELEASED w)
    (\<lambda>w'. appending a p q x (state = DuckDBSuccess) events w' \<and> (state = DuckDBSuccess \<longrightarrow> w' = w))"
proof (cases state)
  case DuckDBSuccess
  then show ?thesis using assms by (simp add: check_def)
next
  case DuckDBError
  obtain c where c: "connections w a = Some c" "\<not> c_native_guard c" "c_foreign_active c" "c_cleanup_depth c = 0"
    "\<not> c_native_closing c" "c_active_request c = q" using assms by (auto simp: appending_def)
  obtain y where y: "appenders w p = Some y" "a_parent y = a" "a_status y = DUCKDB_ML_STATUS_OK" using assms by (auto simp: appending_def)
  obtain data e where data: "duckdb_appender_error_data A (a_appender y) (w_engine w) = (data, e)" by force
  define w1 where "w1 = put_appender p (y\<lparr>a_status := DUCKDB_ML_STATUS_ERROR, a_message := diagnostic ''DuckDB appender failed''
    (case data of None \<Rightarrow> None | Some d \<Rightarrow> duckdb_error_data_message A d e)\<rparr>) (w\<lparr>w_engine := e\<rparr>)"
  have failed: "appending a p q x False events w1" using assms y by (auto simp: appending_def w1_def latched_frame)
  have w1: "connections w1 a = Some c" using c by (simp add: w1_def)
  have "check A p state DUCKDB_ML_RUNTIME_RELEASED w = (case data of None \<Rightarrow> Inr w1
      | Some d \<Rightarrow> bind (duckdb_ml_native_cleanup_begin a DUCKDB_ML_RUNTIME_RELEASED w1) (\<lambda>w.
          bind (call a Destroy_error_data (duckdb_destroy_error_data A d) w) (\<lambda>(_, w).
          duckdb_ml_native_cleanup_end a DUCKDB_ML_RUNTIME_RELEASED w)))"
    using DuckDBError y data by (cases data) (simp_all add: check_def appender_error_def on_appender_def engine_def w1_def)
  also have "runs \<dots> (appending a p q x False events)"
  proof (cases data)
    case (Some d)
    obtain e2 where destroy: "duckdb_destroy_error_data A d (w_engine w1) = ((), e2)"
      by (cases "duckdb_destroy_error_data A d (w_engine w1)") auto
    show ?thesis
      using c w1 failed Some destroy
      by (simp add: cleanup_begin_eq [OF w1] call_def cleanup_end_eq) (simp add: appending_def latched_frame)
  qed (simp add: failed)
  finally show ?thesis using DuckDBError by simp
qed

lemma appended_chunk:
  assumes "appending a p q x True events w" and "staged_chunk x k = Inr h"
    and "duckdb_append_data_chunk A (a_appender x) h (w_engine w) = (state, e)"
    and "map_option c_native_phase (connections w a) = Some u"
  shows "runs (append_chunk A a p k w) (\<lambda>w'. appending a p q x (state = DuckDBSuccess) (Engine a u Appender_append # events) w' \<and>
    (state = DuckDBSuccess \<longrightarrow> w_engine w' = e))"
proof -
  obtain c where c: "connections w a = Some c" "\<not> c_native_guard c" "c_foreign_active c" "c_cleanup_depth c = 0"
    "\<not> c_native_closing c" "c_active_request c = q" "c_native_phase c = u" using assms(1,4) by (auto simp: appending_def)
  obtain y where y: "appenders w p = Some y" "a_staged y = a_staged x" "a_appender y = a_appender x"
    using assms(1) by (auto simp: appending_def)
  have h: "staged_chunk y k = Inr h" using assms(2) y(2) by (simp add: staged_chunk_def)
  define w1 where "w1 = put_connection a (c\<lparr>c_native_phase := phase_of c\<rparr>) (w\<lparr>w_engine := e, w_log := Engine a u Appender_append # w_log w\<rparr>)"
  have w1: "appending a p q x True (Engine a u Appender_append # events) w1" "w_engine w1 = e"
    using assms(1) c by (auto simp: appending_def w1_def latched_frame)
  have "append_chunk A a p k w = check A p state DUCKDB_ML_RUNTIME_RELEASED w1"
    using assms(3) c y h by (simp add: append_chunk_def call_def user_call_end_eq w1_def)
  then show ?thesis using check_appending [OF w1(1), of A state] w1(2) by (auto intro: runs_conseq)
qed

text \<open>The loop hands over exactly the chunks of the reference.\<close>

lemma appended_chunks:
  assumes "appending a p q x True events w" and "list_all2 (\<lambda>k h. staged_chunk x k = Inr h) ks hs"
    and "submitted A (a_appender x) hs (w_engine w) = (n, taken)"
    and "ev = Engine a (if q = None then DUCKDB_ML_NATIVE_NONINTERRUPTIBLE else DUCKDB_ML_NATIVE_USER) Appender_append"
  shows "runs (for_while (admit_user p) (append_chunk A a p) ks w) (appending a p q x taken (replicate n ev @ events))"
  using assms(1-3)
proof (induction ks arbitrary: hs events w n)
  case Nil
  then show ?case by simp
next
  case (Cons k ks)
  then obtain h hs' where hs: "hs = h # hs'" "staged_chunk x k = Inr h" "list_all2 (\<lambda>k h. staged_chunk x k = Inr h) ks hs'"
    by (auto simp: list_all2_Cons1)
  obtain state e where call: "duckdb_append_data_chunk A (a_appender x) h (w_engine w) = (state, e)" by force
  obtain w1 where w1: "admit_user p w = Inr (True, w1)" "appending a p q x True events w1" "w_engine w1 = w_engine w"
    "map_option c_native_phase (connections w1 a) = Some (if q = None then DUCKDB_ML_NATIVE_NONINTERRUPTIBLE else DUCKDB_ML_NATIVE_USER)"
    by (rule admitted_chunk [OF Cons.prems(1)])
  from appended_chunk [OF w1(2) hs(2), of A state e, unfolded w1(3), OF call w1(4)]
  obtain w2 where w2: "append_chunk A a p k w1 = Inr w2" "appending a p q x (state = DuckDBSuccess) (ev # events) w2"
    "state = DuckDBSuccess \<longrightarrow> w_engine w2 = e" by (auto simp: runs_exists assms(4))
  show ?case
  proof (cases state)
    case DuckDBSuccess
    obtain m where m: "submitted A (a_appender x) hs' e = (m, taken)" "n = Suc m"
      using Cons.prems(3) hs(1) call DuckDBSuccess by (auto simp: map_prod_def split: prod.splits)
    from Cons.IH [OF _ hs(3), of "ev # events" w2 m] w2 m DuckDBSuccess
    show ?thesis by (simp add: w1(1) replicate_app_Cons_same)
  next
    case DuckDBError
    then have "n = 1" "\<not> taken" using Cons.prems(3) hs(1) call by auto
    moreover have "appending a p q x False (ev # events) w2" using w2(2) DuckDBError by simp
    moreover from admit_refused [OF this] have "for_while (admit_user p) (append_chunk A a p) ks w2 = Inr w2" by (cases ks) simp_all
    ultimately show ?thesis using w2(1) by (simp add: w1(1))
  qed
qed

subsection \<open>After the last chunk\<close>

text \<open>Chunks above the retained ones are destroyed; \<open>k\<close> is the next one.\<close>

definition shrinking :: "nat \<Rightarrow> nat \<Rightarrow> nat set \<Rightarrow> appender_owner \<Rightarrow> bool \<Rightarrow> event list \<Rightarrow> 32 word \<Rightarrow> nat \<Rightarrow> nat \<Rightarrow> 'e world \<Rightarrow> bool" where
  "shrinking a p H x s events d k n w \<longleftrightarrow> w_pending w = [] \<and> filter append_event (w_log w) = events \<and>
     (\<exists>c. connections w a = Some c \<and> \<not> c_native_guard c \<and> c_foreign_active c \<and> c_cleanup_depth c = d) \<and>
     (\<exists>y. appenders w p = Some y \<and> a_parent y = a \<and> a_staged_rows y = 0 \<and> a_types y = a_types x \<and> a_columns y = a_columns x \<and>
       a_staged_capacity y = n \<and> (\<forall>j<n. (j < STAGED_RETAINED \<or> k \<le> j) \<longrightarrow> (\<exists>h\<in>H. staged_chunk y j = Inr h)) \<and>
       (a_status y = DUCKDB_ML_STATUS_OK \<longleftrightarrow> s))"

lemma staged_chunk_iff: "staged_chunk y k = Inr h \<longleftrightarrow> (\<exists>slots. a_staged y = Some slots \<and> k < length slots \<and> slots ! k = Some h)"
  by (auto simp: staged_chunk_def bind_Inr_iff not_null_def at_index_def split: option.splits if_splits)

lemma destroy_staged_shrinking:
  assumes "shrinking a p H x s events d k n w" and "k < n" and "STAGED_RETAINED \<le> k"
  shows "runs (destroy_staged C p k w) (shrinking a p H x s events d (Suc k) n)"
proof -
  obtain y where y: "appenders w p = Some y" "a_parent y = a" "a_staged_rows y = 0" "a_types y = a_types x" "a_columns y = a_columns x"
    "a_staged_capacity y = n" "\<forall>j<n. (j < STAGED_RETAINED \<or> k \<le> j) \<longrightarrow> (\<exists>h\<in>H. staged_chunk y j = Inr h)"
    "a_status y = DUCKDB_ML_STATUS_OK \<longleftrightarrow> s"
    using assms(1) by (auto simp: shrinking_def)
  then obtain h slots where h: "a_staged y = Some slots" "k < length slots" "slots ! k = Some h"
    using assms(2) by (auto simp: staged_chunk_iff)
  obtain h' e where destroy: "duckdb_destroy_data_chunk C h (w_engine w) = (h', e)" by force
  have "\<forall>j<n. (j < STAGED_RETAINED \<or> Suc k \<le> j) \<longrightarrow> (\<exists>h\<in>H. staged_chunk (y\<lparr>a_staged := Some (slots[k := h'])\<rparr>) j = Inr h)"
    using y(7) assms(3) h by (auto simp: staged_chunk_iff)
  then show ?thesis
    using assms(1) y h destroy by (auto simp: destroy_staged_def call_def on_appender_def shrinking_def)
qed

lemma destroy_all_staged:
  assumes "shrinking a p H x s events d k n w" and "k \<le> n" and "STAGED_RETAINED \<le> k"
  shows "runs (for_each (destroy_staged C p) [k..<n] w) (shrinking a p H x s events d n n)"
  using assms
proof (induction "n - k" arbitrary: k w)
  case (Suc m)
  then have "[k..<n] = k # [Suc k..<n]" by (simp add: upt_conv_Cons)
  then show ?case
    using Suc by (auto intro!: runs_bindI [OF destroy_staged_shrinking [OF Suc.prems(1)]])
qed simp

lemma shrink_staged_runs:
  fixes w :: "'e world"
  assumes "shrinking a p H x s events 0 STAGED_RETAINED n w"
  shows "runs (shrink_staged C a p w) (shrinking a p H x s events 0 (min n STAGED_RETAINED) (min n STAGED_RETAINED))"
proof -
  obtain y where y: "appenders w p = Some y" "a_staged_capacity y = n" using assms by (auto simp: shrinking_def)
  show ?thesis
  proof (cases "STAGED_RETAINED < n")
    case True
    have "runs (duckdb_ml_native_cleanup_begin a DUCKDB_ML_RUNTIME_RELEASED w) (shrinking a p H x s events 1 STAGED_RETAINED n)"
      using assms by (auto simp: shrinking_def cleanup_begin_eq)
    then have "runs (bind (duckdb_ml_native_cleanup_begin a DUCKDB_ML_RUNTIME_RELEASED w) (\<lambda>w.
          bind (for_each (destroy_staged C p) [STAGED_RETAINED..<n] w) (\<lambda>w.
          bind (on_appender p (\<lambda>x. x\<lparr>a_staged_capacity := STAGED_RETAINED\<rparr>) w) (\<lambda>w.
          duckdb_ml_native_cleanup_end a DUCKDB_ML_RUNTIME_RELEASED w))))
        (shrinking a p H x s events 0 STAGED_RETAINED STAGED_RETAINED)"
    proof (rule runs_bindI)
      fix w :: "'e world"
      assume "shrinking a p H x s events 1 STAGED_RETAINED n w"
      note all = destroy_all_staged [OF this less_imp_le [OF True] order.refl]
      show "runs (bind (for_each (destroy_staged C p) [STAGED_RETAINED..<n] w) (\<lambda>w.
          bind (on_appender p (\<lambda>x. x\<lparr>a_staged_capacity := STAGED_RETAINED\<rparr>) w) (\<lambda>w.
          duckdb_ml_native_cleanup_end a DUCKDB_ML_RUNTIME_RELEASED w)))
        (shrinking a p H x s events 0 STAGED_RETAINED STAGED_RETAINED)"
      proof (rule runs_bindI [OF all])
        fix w :: "'e world"
        assume "shrinking a p H x s events 1 n n w"
        then show "runs (bind (on_appender p (\<lambda>x. x\<lparr>a_staged_capacity := STAGED_RETAINED\<rparr>) w) (\<lambda>w.
            duckdb_ml_native_cleanup_end a DUCKDB_ML_RUNTIME_RELEASED w)) (shrinking a p H x s events 0 STAGED_RETAINED STAGED_RETAINED)"
          using True by (auto simp: shrinking_def on_appender_def cleanup_end_eq staged_chunk_iff)
      qed
    qed
    then show ?thesis using True y by (simp add: shrink_staged_def min_def)
  next
    case False
    then show ?thesis using assms y by (auto simp: shrink_staged_def shrinking_def min_def)
  qed
qed

subsection \<open>Appending a batch\<close>

text \<open>The engine after the chunks got their sizes.\<close>

definition sized :: "'e appender_api \<Rightarrow> nat list \<Rightarrow> nat \<Rightarrow> 'e \<Rightarrow> 'e" where
  "sized A hs rows e = fold (\<lambda>(k, h) e. snd (duckdb_data_chunk_set_size A h (staged_size (duckdb_vector_size A) rows k) e)) (enumerate 0 hs) e"

lemma set_sizes:
  assumes "list_all2 (\<lambda>k h. staged_chunk x k = Inr h) ks hs"
  shows "for_each (\<lambda>k w. bind (staged_chunk x k) (\<lambda>h. Inr (snd (engine (duckdb_data_chunk_set_size A h (s k)) w)))) ks w =
    Inr (w\<lparr>w_engine := fold (\<lambda>(k, h) e. snd (duckdb_data_chunk_set_size A h (s k) e)) (zip ks hs) (w_engine w)\<rparr>)"
  using assms
proof (induction arbitrary: w rule: list_all2_induct)
  case (Cons k ks h hs)
  obtain e where "duckdb_data_chunk_set_size A h (s k) (w_engine w) = ((), e)"
    by (cases "duckdb_data_chunk_set_size A h (s k) (w_engine w)") auto
  with Cons show ?case by (simp add: engine_def)
qed simp

lemma staged_handles:
  assumes "staging_ok A ts H x" and "0 < duckdb_vector_size A"
    and "hs = map (\<lambda>k. the (the (a_staged x) ! k)) [0..<staged_chunks (duckdb_vector_size A) (a_staged_rows x)]"
  shows "list_all2 (\<lambda>k h. staged_chunk x k = Inr h) [0..<staged_chunks (duckdb_vector_size A) (a_staged_rows x)] hs"
proof -
  let ?k = "staged_chunks (duckdb_vector_size A) (a_staged_rows x)"
  have "?k \<le> a_staged_capacity x"
  proof (rule leI, rule notI)
    assume "a_staged_capacity x < ?k"
    then show False using staged_chunks_le [OF assms(2), of "a_staged_capacity x" "a_staged_rows x"] assms(1) by (simp add: staging_ok_def)
  qed
  then have "staged_chunk x k = Inr (the (the (a_staged x) ! k))" if "k < ?k" for k
    using staging_chunk [OF assms(1), of k] that by (fastforce simp: staged_chunk_iff)
  then show ?thesis by (simp add: assms(3) list_all2_conv_all_nth)
qed

text \<open>Once the surplus chunks are gone the bookkeeping is sound again.\<close>

lemma shrunk_staging:
  assumes "shrinking a p H x s events d k n w" and "n \<le> STAGED_RETAINED" and "staging_ok A ts H x"
  obtains z where "appenders w p = Some z" and "a_staged_rows z = 0" and "staging_ok A ts H z"
    and "a_status z = DUCKDB_ML_STATUS_OK \<longleftrightarrow> s"
proof -
  obtain z where z: "appenders w p = Some z" "a_staged_rows z = 0" "a_types z = a_types x" "a_columns z = a_columns x"
    "a_staged_capacity z = n" "\<forall>j<n. \<exists>h\<in>H. staged_chunk z j = Inr h" "a_status z = DUCKDB_ML_STATUS_OK \<longleftrightarrow> s"
    using assms(1,2) by (auto simp: shrinking_def)
  have "staging_ok A ts H z"
  proof (cases "a_staged z")
    case None
    with z(6) have "\<not> 0 < a_staged_capacity z" by (force simp: z(5) staged_chunk_def)
    then show ?thesis using z(2-4) assms(3) None by (simp add: staging_ok_def)
  next
    case (Some slots)
    with z(5,6) have "\<forall>j<a_staged_capacity z. j < length slots \<and> (\<exists>h\<in>H. slots ! j = Some h)" by (auto simp: staged_chunk_iff)
    moreover from this have "a_staged_capacity z \<le> length slots" by (rule_tac leI) (metis less_irrefl)
    ultimately show ?thesis using z(2-4) assms(3) Some by (simp add: staging_ok_def)
  qed
  from that [OF z(1,2) this z(7)] show thesis .
qed

lemma append_body_submits:
  assumes "idle_at a c w" and "w_pending w = []" and "uncancelled_at c w" and "appenders w p = Some x" and "a_parent x = a"
    and "a_status x = DUCKDB_ML_STATUS_OK" and "staging_ok A ts H x" and "list_all2 (\<lambda>k h. staged_chunk x k = Inr h) [0..<k] hs"
    and "submitted A (a_appender x) hs (w_engine w) = (n, taken)"
  shows "runs (append_body C A a p k w) (\<lambda>(_, w'). w_pending w' = [] \<and>
    filter append_event (w_log w') = replicate n (Engine a (user_phase c) Appender_append) @ filter append_event (w_log w) \<and>
    (\<exists>x'. appenders w' p = Some x' \<and> (a_status x' = DUCKDB_ML_STATUS_OK \<longleftrightarrow> taken) \<and> a_staged_rows x' = 0 \<and> staging_ok A ts H x'))"
proof -
  let ?log = "filter append_event (w_log w)" and ?min = "min (a_staged_capacity x) STAGED_RETAINED"
  let ?events = "replicate n (Engine a (user_phase c) Appender_append) @ ?log"
  have c: "connections w a = Some c" "\<not> c_native_guard c" "\<not> c_foreign_active c" "c_cleanup_depth c = 0" "\<not> c_native_closing c"
    using assms(1) by (simp_all add: idle_at_def)
  define w1 where "w1 = put_connection a (c\<lparr>c_foreign_active := True, c_native_phase := DUCKDB_ML_NATIVE_NONINTERRUPTIBLE\<rparr>) w"
  have "appending a p (c_active_request c) x True ?log w1"
    using c assms(2,4-6) latched_uncancelled [OF assms(3)] by (simp add: appending_def w1_def latched_frame)
  from appended_chunks [OF this assms(8) _ refl, of A n taken] assms(9)
  obtain w2 where w2: "for_while (admit_user p) (append_chunk A a p) [0..<k] w1 = Inr w2"
    "appending a p (c_active_request c) x taken ?events w2" by (auto simp: runs_exists w1_def user_phase_def)
  then obtain y where y: "appenders w2 p = Some y" "a_staged y = a_staged x" by (auto simp: appending_def)
  define w3 where "w3 = put_appender p (y\<lparr>a_staged_rows := 0, a_stage_failed := False\<rparr>) w2"
  have "staged_chunk (y\<lparr>a_staged_rows := 0, a_stage_failed := False\<rparr>) k = staged_chunk x k" for k by (simp add: staged_chunk_def y(2))
  then have "shrinking a p H x taken ?events 0 STAGED_RETAINED (a_staged_capacity x) w3"
    using w2(2) y staging_chunk [OF assms(7)] by (fastforce simp: appending_def shrinking_def w3_def)
  from shrink_staged_runs [OF this, of C] obtain w4
    where w4: "shrink_staged C a p w3 = Inr w4" "shrinking a p H x taken ?events 0 ?min ?min w4" by (auto simp: runs_exists)
  obtain z where z: "appenders w4 p = Some z" "a_staged_rows z = 0" "staging_ok A ts H z" "a_status z = DUCKDB_ML_STATUS_OK \<longleftrightarrow> taken"
    by (rule shrunk_staging [OF w4(2) min.cobounded2 assms(7)])
  obtain c4 where c4: "connections w4 a = Some c4" "\<not> c_native_guard c4" "c_foreign_active c4" "c_cleanup_depth c4 = 0"
    using w4(2) by (auto simp: shrinking_def)
  show ?thesis
    using c w2(1) w4 y(1) c4 z
    by (simp add: append_body_def work_begin_eq w1_def clear_input_def on_appender_def w3_def work_end_eq shrinking_def)
qed

text \<open>
  C35: appending hands the staged chunks to the engine in order, each with its number of rows,
  until one is refused: as many calls as in the reference \<open>submitted\<close>, in the phase in which
  they may be interrupted. The status stays OK exactly if all were taken. Afterwards no row
  is staged and the bookkeeping is sound, so the appender can be used for the next batch.
\<close>

theorem append_submits_chunks:
  assumes "idle_at a c w" and "undisturbed w" and "uncancelled_at c w" and "Appender w v = Some p" and "appenders w p = Some x"
    and "a_parent x = a" and "a_appender x \<noteq> None" and "a_status x = DUCKDB_ML_STATUS_OK" and "\<not> a_stage_failed x"
    and "staging_ok A ts H x" and "0 < duckdb_vector_size A"
    and "hs = map (\<lambda>k. the (the (a_staged x) ! k)) [0..<staged_chunks (duckdb_vector_size A) (a_staged_rows x)]"
    and "submitted A (a_appender x) hs (sized A hs (a_staged_rows x) (w_engine w)) = (n, taken)"
  shows "\<exists>w' x'. ml_duckdb_append_staged C A v w = Inr (Returned (), w') \<and> appenders w' p = Some x' \<and>
    filter append_event (w_log w') = replicate n (Engine a (user_phase c) Appender_append) @ filter append_event (w_log w) \<and>
    (a_status x' = DUCKDB_ML_STATUS_OK \<longleftrightarrow> taken) \<and> a_staged_rows x' = 0 \<and> staging_ok A ts H x'"
proof -
  let ?k = "staged_chunks (duckdb_vector_size A) (a_staged_rows x)"
  let ?w = "w\<lparr>w_engine := sized A hs (a_staged_rows x) (w_engine w)\<rparr>"
  note handles = staged_handles [OF assms(10-12)]
  have "for_each (\<lambda>k w. bind (staged_chunk x k) (\<lambda>h.
      Inr (snd (engine (duckdb_data_chunk_set_size A h (staged_size (duckdb_vector_size A) (a_staged_rows x) k)) w)))) [0..<?k] w = Inr ?w"
    using set_sizes [OF handles, of A "staged_size (duckdb_vector_size A) (a_staged_rows x)" w] list_all2_lengthD [OF handles]
    by (simp add: sized_def enumerate_eq_zip)
  moreover have "idle_at a c ?w" "w_pending ?w = []" "uncancelled_at c ?w" "appenders ?w p = Some x" "w_log ?w = w_log w"
    using assms(1-3,5) by (simp_all add: idle_at_def undisturbed_def uncancelled_at_def latched_frame split: option.splits)
  moreover from append_body_submits [OF this(1-4) assms(6,8,10) handles, of n taken C] this(5) assms(13)
  obtain w' x' where "append_body C A a p ?k ?w = Inr ((), w')" "w_pending w' = []" "appenders w' p = Some x'"
    "filter append_event (w_log w') = replicate n (Engine a (user_phase c) Appender_append) @ filter append_event (w_log w)"
    "a_status x' = DUCKDB_ML_STATUS_OK \<longleftrightarrow> taken" "a_staged_rows x' = 0" "staging_ok A ts H x'"
    by (auto simp: runs_exists)
  ultimately show ?thesis
    using assms(2,4-7,9) by (auto simp: ml_duckdb_append_staged_def Let_def blocking_def pending_raises_def undisturbed_def)
qed

subsection \<open>Selecting columns without memory\<close>

lemma select_loop_fails:
  fixes w :: "'e world"
  assumes "a_types x = Some types" and "a_nullable x = Some bs"
    and "a_columns x \<le> length types" and "a_columns x \<le> length bs" and "\<forall>i\<in>set indices. 0 \<le> i \<and> nat i < a_columns x"
    and "appenders w p = Some x" and "w_oom w = replicate k False @ True # oom" and "k < length names" and "j + length names \<le> length indices"
  shows "select_loop p indices (enumerate j names) s w = Inr (None, w\<lparr>w_oom := oom, w_live := w_live w + of_nat k\<rparr>)"
  using assms(6-)
proof (induction names arbitrary: j s w k)
  case (Cons name names)
  obtain copies ts ns where s: "s = (copies, ts, ns)" by (metis prod.collapse)
  have "j < length indices" using Cons.prems(4) by simp
  moreover from this assms(5) have "0 \<le> indices ! j" "nat (indices ! j) < a_columns x" by (auto dest: nth_mem)
  moreover have "nat (indices ! j) < length types" "nat (indices ! j) < length bs" using calculation assms(3,4) by simp_all
  ultimately show ?case
    using Cons.prems assms(1,2) s Cons.IH [of "acquired (w\<lparr>w_oom := replicate (k - 1) False @ True # oom\<rparr>)" "k - 1" "Suc j"]
    by (cases k) (simp_all add: at_index_def not_null_def malloc_fails_def acquired_def add.commute add.left_commute)
qed simp

text \<open>
  C37: selecting columns leaks when memory runs out while the names are copied. If the
  allocation for name \<open>k\<close> fails, the call raises, and the three arrays and the \<open>k\<close> copies made
  before stay counted as live although no owner refers to them.
\<close>

theorem select_columns_leaks:
  fixes w :: "'e world"
  assumes "Appender w v = Some p" and "appenders w p = Some x" and "a_types x = Some types" and "a_nullable x = Some bs"
    and "a_columns x \<le> length types" and "a_columns x \<le> length bs" and "length names \<le> length indices"
    and "\<forall>i\<in>set indices. 0 \<le> i \<and> nat i < a_columns x"
    and "w_oom w = replicate (3 + k) False @ True # oom" and "k < length names"
  shows "ml_duckdb_appender_select_columns C A v names indices w = Inr (Out_of_memory, w\<lparr>w_oom := oom, w_live := w_live w + of_nat (3 + k)\<rparr>)"
proof -
  let ?w = "w\<lparr>w_oom := replicate k False @ True # oom, w_live := w_live w + 3\<rparr>"
  have "select_loop p indices (enumerate 0 names) ([], [], []) ?w = Inr (None, ?w\<lparr>w_oom := oom, w_live := w_live ?w + of_nat k\<rparr>)"
    using assms by (intro select_loop_fails) auto
  moreover have "w_oom w = False # False # False # replicate k False @ True # oom" using assms(9) by (simp add: numeral_3_eq_3)
  ultimately show ?thesis
    using assms(1) by (simp add: ml_duckdb_appender_select_columns_def malloc_fails_def acquired_def add.assoc)
qed

subsection \<open>Instances\<close>

lemma staging_world_simps:
  "idle_at 3 sample_connection staging_world" "undisturbed staging_world" "uncancelled_at sample_connection staging_world"
  "w_log staging_world = []" "w_engine staging_world = (\<lambda>_. 0)"
  by (simp_all add: idle_at_def undisturbed_def uncancelled_at_def staging_world_def sample_connection_def sample_request_def connection_owner0_def)

lemma sample_appender_simps:
  "a_parent sample_appender = 3" "a_appender sample_appender = Some 95" "a_status sample_appender = DUCKDB_ML_STATUS_OK"
  "\<not> a_stage_failed sample_appender" "a_staged sample_appender = Some [Some 1]" "a_staged_rows sample_appender = 3"
  by (simp_all add: sample_appender_def appender_owner0_def)

lemma append_submits_witness:
  "\<exists>w' x'. ml_duckdb_append_staged memory_chunks memory_appender 17 staging_world = Inr (Returned (), w') \<and>
     appenders w' 7 = Some x' \<and> filter append_event (w_log w') = [Engine 3 DUCKDB_ML_NATIVE_USER Appender_append] \<and>
     a_status x' = DUCKDB_ML_STATUS_OK"
proof -
  have chunks: "[1] = map (\<lambda>k. the (the (a_staged sample_appender) ! k))
      [0..<staged_chunks (duckdb_vector_size memory_appender) (a_staged_rows sample_appender)]"
    by (simp add: sample_appender_simps memory_appender_def staged_chunks_def)
  have taken: "submitted memory_appender (a_appender sample_appender) [1] e = (1, True)" for e
    by (simp add: memory_appender_def)
  have some: "a_appender sample_appender \<noteq> None" by (simp add: sample_appender_simps)
  from append_submits_chunks [OF staging_world_simps(1-3) sample_staging(1,2) sample_appender_simps(1) some sample_appender_simps(3,4)
      sample_staging(3,4) chunks taken, of memory_chunks]
  show ?thesis by (auto simp: staging_world_simps user_phase_def sample_connection_def)
qed

definition strict_appender :: "(nat \<Rightarrow> 8 word) appender_api" where
  "strict_appender = memory_appender\<lparr>duckdb_valid_utf8_check := \<lambda>s e. (Some 5, e)\<rparr>"

definition text_appender :: appender_owner where
  "text_appender = sample_appender\<lparr>a_types := Some [DUCKDB_TYPE_VARCHAR], a_columns := 1\<rparr>"


lemma select_columns_witness:
  "\<exists>w :: (nat \<Rightarrow> 8 word) world. w_oom w = [False, False, False, False, True] \<and> w_live w = 0 \<and>
     (\<exists>w'. ml_duckdb_appender_select_columns memory_chunks memory_appender 17 [''a'', ''b''] [0, 0] w = Inr (Out_of_memory, w') \<and>
        w_live w' = 4)"
proof -
  let ?x = "sample_appender\<lparr>a_nullable := Some [True, True]\<rparr>"
  let ?w = "put_appender 7 ?x (staging_world\<lparr>w_oom := [False, False, False, False, True]\<rparr>)"
  have places: "Appender ?w 17 = Some 7" "appenders ?w 7 = Some ?x" "a_types ?x = Some sample_types" "a_nullable ?x = Some [True, True]"
    and "w_live ?w = 0"
    by (simp_all add: staging_world_def sample_appender_def)
  moreover from select_columns_leaks [OF places, of "[''a'', ''b'']" "[0, 0]" 1 "[]"]
  have "\<exists>w'. ml_duckdb_appender_select_columns memory_chunks memory_appender 17 [''a'', ''b''] [0, 0] ?w = Inr (Out_of_memory, w') \<and>
      w_live w' = w_live ?w + 4"
    by (simp add: sample_appender_def sample_types_def numeral_3_eq_3)
  ultimately show ?thesis by (intro exI [of _ ?w]) simp
qed

end
