(* ===== verification/Session_Properties.thy ===== *)
theory Session_Properties
  imports Statement_Properties
begin

text \<open>
  Whole stubs against straight-line references: opening a database with its configuration,
  binding an integer at the parameter's type, and publishing a local file under the admission
  of a connection.
\<close>

subsection \<open>Opening a database\<close>

text \<open>The options are set in order until one is refused.\<close>

primrec configure :: "'e session_api \<Rightarrow> nat option \<Rightarrow> (string \<times> string) list \<Rightarrow> 'e \<Rightarrow> duckdb_state \<times> 'e" where
  "configure S config [] e = (DuckDBSuccess, e)"
| "configure S config (opt # opts) e = (case duckdb_set_config S config (fst opt) (snd opt) e of (state, e') \<Rightarrow>
     if state = DuckDBSuccess then configure S config opts e' else (state, e'))"

definition open_options :: "int \<Rightarrow> int \<Rightarrow> bool \<Rightarrow> (string \<times> string) list" where
  "open_options threads memory_bytes read_only = [(''threads'', decimal threads)] @
     (if memory_bytes > 0 then [(''memory_limit'', decimal memory_bytes @ ''B'')] else []) @
     [(''access_mode'', if read_only then ''READ_ONLY'' else ''READ_WRITE''), (''disabled_optimizers'', ''compressed_materialization'')]"

text \<open>Status, database handle and engine's diagnosis, and the engine's state.\<close>

definition reference_open :: "'e session_api \<Rightarrow> string \<Rightarrow> (string \<times> string) list \<Rightarrow> 'e \<Rightarrow> (duckdb_state \<times> nat option \<times> string option) \<times> 'e" where
  "reference_open S path opts e =
     (case duckdb_create_config S e of ((state, config), e) \<Rightarrow>
      case (if state = DuckDBSuccess then configure S config opts e else (state, e)) of (state, e) \<Rightarrow>
      case (if state = DuckDBSuccess then duckdb_open_ext S (if path = [] then None else Some (c_string path)) config e
            else ((state, None, None), e)) of (r, e) \<Rightarrow>
      (r, case config of None \<Rightarrow> e | Some h \<Rightarrow> snd (duckdb_destroy_config S h e)))"

lemma set_config_eq:
  "databases w d = Some db \<Longrightarrow> set_config S d name setting state w =
     Inr (fst (if state = DuckDBSuccess then duckdb_set_config S (d_config db) name setting (w_engine w) else (state, w_engine w)),
       w\<lparr>w_engine := snd (if state = DuckDBSuccess then duckdb_set_config S (d_config db) name setting (w_engine w)
         else (state, w_engine w))\<rparr>)"
  by (simp add: set_config_def engine_def split_beta)

lemma acquired_moves:
  "(acquired w)\<lparr>databases := m\<rparr> = acquired (w\<lparr>databases := m\<rparr>)" "(acquired w)\<lparr>w_engine := e\<rparr> = acquired (w\<lparr>w_engine := e\<rparr>)"
  by (simp_all add: acquired_def)

lemma options_set:
  assumes "databases w d = Some db" and "d_config db = config"
  shows "bind (set_config S d ''threads'' (decimal threads) state w) (\<lambda>(state, w).
     bind (if memory_bytes > 0 then set_config S d ''memory_limit'' (decimal memory_bytes @ ''B'') state w
           else Inr (state, w)) (\<lambda>(state, w).
     bind (set_config S d ''access_mode'' (if read_only then ''READ_ONLY'' else ''READ_WRITE'') state w) (\<lambda>(state, w).
     bind (set_config S d ''disabled_optimizers'' ''compressed_materialization'' state w) (\<lambda>(state, w).
     f state w)))) =
   (case (if state = DuckDBSuccess then configure S config (open_options threads memory_bytes read_only) (w_engine w)
          else (state, w_engine w)) of (state, e) \<Rightarrow> f state (w\<lparr>w_engine := e\<rparr>))"
  using assms by (simp add: set_config_eq open_options_def split_beta)

text \<open>\<open>open_body\<close> once the options are set.\<close>

definition open_rest :: "'e session_api \<Rightarrow> nat \<Rightarrow> duckdb_state \<Rightarrow> 'e world \<Rightarrow> (unit \<times> 'e world) run" where
  "open_rest S d state w = bind (open_engine S d state w) (\<lambda>(state, w).
     bind (deref (databases w) d) (\<lambda>db.
     let w = (if d_database db \<noteq> None then acquired w else w) in
     bind (on_database d (\<lambda>db. if state = DuckDBSuccess then db\<lparr>d_status := DUCKDB_ML_STATUS_OK\<rparr>
             else db\<lparr>d_message := message (d_open_error db)\<rparr>) w) (\<lambda>w.
     bind (destroy_config_handle S d w) (\<lambda>w.
     bind (on_database d (\<lambda>db. db\<lparr>d_path := None\<rparr>) w) (\<lambda>w.
     let w = released w in
     bind (on_database d (\<lambda>db. db\<lparr>d_open_error := None\<rparr>) w) (\<lambda>w.
     Inr ((), w)))))))"

lemma open_rest_meets:
  assumes "databases w d = Some db" and "d_config db = config" and "w_pending w = []" and "d_database db = None"
    and "d_status db = DUCKDB_ML_STATUS_ERROR" and "d_open_error db = None" and "d_path db = Some path" and "w_engine w = e2"
    and "(if ostate = DuckDBSuccess then duckdb_open_ext S (if path = [] then None else Some (c_string path)) config e2
      else ((ostate, None, None), e2)) = ((state, h, err), e)"
  shows "\<exists>w' db'. open_rest S d ostate w = Inr ((), w') \<and> databases w' d = Some db' \<and> w_pending w' = [] \<and>
    w_engine w' = (case config of None \<Rightarrow> e | Some h \<Rightarrow> snd (duckdb_destroy_config S h e)) \<and>
    d_database db' = h \<and> d_path db' = None \<and> d_open_error db' = None \<and>
    (d_status db' = DUCKDB_ML_STATUS_OK \<longleftrightarrow> state = DuckDBSuccess) \<and> (state \<noteq> DuckDBSuccess \<longrightarrow> d_message db' = message err)"
  using assms
  by (cases db; cases config; cases ostate; cases state; cases h)
    (auto simp: open_rest_def open_engine_def on_database_def engine_def destroy_config_handle_def split: prod.splits)

lemma open_body_eq:
  assumes "databases w d = Some db" and "duckdb_create_config S (w_engine w) = ((cstate, config), e1)" and "d_path db = Some path"
    and "(if cstate = DuckDBSuccess then configure S config (open_options threads memory_bytes read_only) e1 else (cstate, e1)) = (ostate, e2)"
    and "w1 = (put_database d (db\<lparr>d_status := DUCKDB_ML_STATUS_ERROR, d_config := config\<rparr>) w)\<lparr>w_engine := e2\<rparr>"
  shows "open_body S d threads memory_bytes read_only w = open_rest S d ostate (if config \<noteq> None then acquired w1 else w1)"
proof -
  define db1 where "db1 = db\<lparr>d_status := DUCKDB_ML_STATUS_ERROR, d_config := config\<rparr>"
  define w2 where "w2 = (if config \<noteq> None then acquired (put_database d db1 (w\<lparr>w_engine := e1\<rparr>)) else put_database d db1 (w\<lparr>w_engine := e1\<rparr>))"
  have w2: "databases w2 d = Some db1" "d_config db1 = config" "w_engine w2 = e1" by (simp_all add: w2_def db1_def)
  have "open_body S d threads memory_bytes read_only w =
     bind (set_config S d ''threads'' (decimal threads) cstate w2) (\<lambda>(state, w).
     bind (if memory_bytes > 0 then set_config S d ''memory_limit'' (decimal memory_bytes @ ''B'') state w
           else Inr (state, w)) (\<lambda>(state, w).
     bind (set_config S d ''access_mode'' (if read_only then ''READ_ONLY'' else ''READ_WRITE'') state w) (\<lambda>(state, w).
     bind (set_config S d ''disabled_optimizers'' ''compressed_materialization'' state w) (\<lambda>(state, w).
     open_rest S d state w))))"
    using assms(1,2)
    by (cases config) (simp_all add: open_body_def on_database_def engine_def w2_def db1_def open_rest_def acquired_moves)
  also have "\<dots> = open_rest S d ostate (w2\<lparr>w_engine := e2\<rparr>)" using assms(4) unfolding options_set [OF w2(1,2)] w2(3) by simp
  finally show ?thesis by (cases config) (simp_all add: assms(5) w2_def db1_def acquired_moves)
qed

text \<open>
  C38: opening a database is: create a configuration, set thread count, memory limit (only a
  positive one), access mode and the disabled optimizer in this order while the engine
  accepts, open the path (none for an empty one), destroy the configuration in every case.
  The owner then has the handle, the status tells the outcome, a failure has the engine's
  diagnosis as message, and the path and diagnosis buffers are gone.
\<close>

theorem open_meets_reference:
  assumes "undisturbed w" and "Database w v = Some d" and "databases w d = Some db" and "d_database db = None" and "d_open_error db = None"
    and "duckdb_library_version S = ''v1.5.5''"
    and "reference_open S path (open_options threads memory_bytes read_only) (w_engine w) = ((state, h, err), e)"
  shows "\<exists>w' db'. ml_duckdb_open S v path threads memory_bytes read_only w = Inr (Returned (), w') \<and> databases w' d = Some db' \<and>
    w_engine w' = e \<and> d_database db' = h \<and> d_path db' = None \<and> d_open_error db' = None \<and>
    (d_status db' = DUCKDB_ML_STATUS_OK \<longleftrightarrow> state = DuckDBSuccess) \<and>
    (state \<noteq> DuckDBSuccess \<longrightarrow> d_message db' = message err)"
proof -
  obtain cstate config e1 where create: "duckdb_create_config S (w_engine w) = ((cstate, config), e1)" by (metis prod.collapse)
  obtain ostate e2 where options:
    "(if cstate = DuckDBSuccess then configure S config (open_options threads memory_bytes read_only) e1 else (cstate, e1)) = (ostate, e2)"
    by force
  obtain e3 where opened: "(if ostate = DuckDBSuccess
      then duckdb_open_ext S (if path = [] then None else Some (c_string path)) config e2
      else ((ostate, None, None), e2)) = ((state, h, err), e3)" "e = (case config of None \<Rightarrow> e3 | Some h \<Rightarrow> snd (duckdb_destroy_config S h e3))"
    using assms(7) create options by (auto simp: reference_open_def split: prod.splits if_splits)
  define w0 where "w0 = acquired (put_database d (db\<lparr>d_path := Some path\<rparr>) w)"
  have w0: "databases w0 d = Some (db\<lparr>d_path := Some path\<rparr>)" "duckdb_create_config S (w_engine w0) = ((cstate, config), e1)"
    "d_path (db\<lparr>d_path := Some path\<rparr>) = Some path" "w_pending w0 = []"
    using create assms(1) by (simp_all add: w0_def undisturbed_def)
  define db1 where "db1 = (db\<lparr>d_path := Some path\<rparr>)\<lparr>d_status := DUCKDB_ML_STATUS_ERROR, d_config := config\<rparr>"
  define w1 where "w1 = (put_database d db1 w0)\<lparr>w_engine := e2\<rparr>"
  define w2 where "w2 = (if config \<noteq> None then acquired w1 else w1)"
  have w2: "databases w2 d = Some db1" "d_config db1 = config" "w_pending w2 = []" "w_engine w2 = e2"
    using w0(4) by (simp_all add: w2_def w1_def db1_def)
  have body: "open_body S d threads memory_bytes read_only w0 = open_rest S d ostate w2"
    unfolding w2_def by (rule open_body_eq [OF w0(1-3) options]) (simp add: w1_def db1_def)
  have "\<exists>w' db'. open_body S d threads memory_bytes read_only w0 = Inr ((), w') \<and> databases w' d = Some db' \<and> w_pending w' = [] \<and>
    w_engine w' = e \<and> d_database db' = h \<and> d_path db' = None \<and> d_open_error db' = None \<and>
    (d_status db' = DUCKDB_ML_STATUS_OK \<longleftrightarrow> state = DuckDBSuccess) \<and> (state \<noteq> DuckDBSuccess \<longrightarrow> d_message db' = message err)"
    unfolding body opened(2) by (rule open_rest_meets [OF w2(1,2,3) _ _ _ _ w2(4) opened(1)]) (simp_all add: db1_def assms(4,5))
  then show ?thesis
    using assms(1-3,6)
    by (auto simp: w0_def ml_duckdb_open_def on_database_def blocking_def pending_raises_def malloc_fails_def undisturbed_def)
qed

subsection \<open>Publishing a local file\<close>

lemma latched_works: "latched r (w\<lparr>works := m\<rparr>) = latched r w" "latched r (w\<lparr>w_engine := e\<rparr>) = latched r w"
  by (cases r; simp add: latched_def)+

text \<open>
  C39: publishing under a connection's admission links the file once and answers with the
  outcome of the link, or, when the connection's request is cancelled, answers -1 and does
  not touch the file system. Finishing the work then frees both paths and gives the
  connection back as it was; nothing of the work is left.
\<close>

theorem publish_and_finish:
  assumes "idle_at a c w" and "undisturbed w" and "c_references c \<noteq> 0" and "cancelled_at c w \<or> uncancelled_at c w"
    and "Connection w connection = Some a" and "Work w v = Some k" and "works w k = Some file_work0"
    and "link F (c_string source) (c_string destination) (w_engine w) = (outcome, e)"
  shows "\<exists>w' w''. ml_duckdb_publish_local_file_admitted F connection v source destination w =
      Inr (Returned (if cancelled_at c w then - 1 else outcome), w') \<and>
    w_engine w' = (if cancelled_at c w then w_engine w else e) \<and>
    ml_duckdb_finish_local_file_work S T v w' = Inr w'' \<and>
    w'' = released (w\<lparr>w_engine := w_engine w', works := (works w)(k := None), Work := (Work w)(v := None)\<rparr>)"
proof (cases c)
  case c: (fields references parent connection' guard active phase closing foreign dirty depth sq extracted prep result has_result
      st msg)
  note facts = assms(1-3,5-8) [unfolded idle_at_def undisturbed_def c, simplified]
  note unchanged = fun_upd_idem [of "connections w" a]
  have last: "references + 1 \<noteq> 1" using assms(3) by (simp add: c)
  show ?thesis
  proof (cases "cancelled_at c w")
    case True
    then obtain r q where r: "active = Some r" "requests w r = Some q" "r_cancelled q" by (auto simp: cancelled_at_def c)
    then have latch: "latched active w = Inr True" by (simp add: latched_def)
    show ?thesis
      using facts True latch last
      by (simp add: ml_duckdb_publish_local_file_admitted_def with_paths_def duckdb_ml_connection_ref_def on_work_def file_work0_def
          ml_duckdb_finish_local_file_work_def finish_def free_source_def free_destination_def duckdb_ml_connection_unref_def
          connection_delete_def latched_works unchanged run_call run_outside c)
  next
    case False
    then have latch: "latched active w = Inr False" using assms(4) latched_uncancelled by (force simp: c)
    show ?thesis
      using facts False latch last
      by (simp add: ml_duckdb_publish_local_file_admitted_def with_paths_def duckdb_ml_connection_ref_def on_work_def file_work0_def
          ml_duckdb_finish_local_file_work_def finish_def free_source_def free_destination_def duckdb_ml_connection_unref_def
          connection_delete_def link_paths_def engine_def latched_works unchanged run_call run_outside c)
  qed
qed

subsection \<open>Instances\<close>

definition blank_world :: "nat world" where
  "blank_world = (empty_world 94)\<lparr>databases := [2 \<mapsto> database_owner0\<lparr>d_references := 1\<rparr>], Database := [10 \<mapsto> 2]\<rparr>"

lemma open_witness:
  "\<exists>w' db'. ml_duckdb_open sample_session 10 ''db'' 4 0 False blank_world = Inr (Returned (), w') \<and> databases w' 2 = Some db' \<and>
     d_database db' = Some 95 \<and> d_status db' = DUCKDB_ML_STATUS_OK"
proof -
  have facts: "undisturbed blank_world" "Database blank_world 10 = Some 2" "databases blank_world 2 = Some (database_owner0\<lparr>d_references := 1\<rparr>)"
    "d_database (database_owner0\<lparr>d_references := 1\<rparr>) = None" "d_open_error (database_owner0\<lparr>d_references := 1\<rparr>) = None"
    "duckdb_library_version sample_session = ''v1.5.5''"
    "reference_open sample_session ''db'' (open_options 4 0 False) (w_engine blank_world) = ((DuckDBSuccess, Some 95, None), 96)"
    by (simp_all add: blank_world_def undisturbed_def database_owner0_def sample_session_def reference_open_def open_options_def)
  from open_meets_reference [OF facts] show ?thesis by auto
qed

definition sample_files :: "nat file_api" where
  "sample_files = \<lparr>link = \<lambda>s d e. (17, Suc e), unlink = \<lambda>s e. (2, Suc e), strerror = \<lambda>n. ''error'', ENOENT = 2, EEXIST = 17\<rparr>"

definition publishing_world :: "bool \<Rightarrow> nat world" where
  "publishing_world b = (sample_world b)\<lparr>works := [6 \<mapsto> file_work0], Work := [16 \<mapsto> 6]\<rparr>"

lemma publish_witness:
  "\<exists>w' w''. ml_duckdb_publish_local_file_admitted sample_files 11 16 ''tmp'' ''out'' (publishing_world True) = Inr (Returned (- 1), w') \<and>
     w_engine w' = 94 \<and> ml_duckdb_finish_local_file_work sample_session sample_statements 16 w' = Inr w'' \<and> works w'' 6 = None"
proof -
  have facts: "idle_at 3 sample_connection (publishing_world True)" "undisturbed (publishing_world True)" "c_references sample_connection \<noteq> 0"
    "cancelled_at sample_connection (publishing_world True) \<or> uncancelled_at sample_connection (publishing_world True)"
    "Connection (publishing_world True) 11 = Some 3" "Work (publishing_world True) 16 = Some 6" "works (publishing_world True) 6 = Some file_work0"
    "link sample_files (c_string ''tmp'') (c_string ''out'') (w_engine (publishing_world True)) = (17, 95)"
    and cancelled: "cancelled_at sample_connection (publishing_world True)"
    by (simp_all add: publishing_world_def idle_at_def undisturbed_def cancelled_at_def sample_defs sample_files_def)
  from publish_and_finish [OF facts, of sample_session sample_statements] cancelled
  show ?thesis by (auto simp: publishing_world_def sample_world_def)
qed

end
