(* ===== verification/Binding_Properties.thy ===== *)
theory Binding_Properties
  imports Statement_Properties
begin

text \<open>
  Binding an integer parameter at its type, against a straight-line reference over unbounded
  integers: the engine gets the value at the width of the parameter's type; the temporal
  types of other units go through a value that is destroyed in any case.
\<close>

fun temporal_type :: "duckdb_type \<Rightarrow> bool" where
  "temporal_type DUCKDB_TYPE_TIMESTAMP_S = True"
| "temporal_type DUCKDB_TYPE_TIMESTAMP_MS = True"
| "temporal_type DUCKDB_TYPE_TIMESTAMP_NS = True"
| "temporal_type _ = False"

definition create_temporal :: "'e bind_api \<Rightarrow> duckdb_type \<Rightarrow> int \<Rightarrow> 'e \<Rightarrow> nat option \<times> 'e" where
  "create_temporal B t n = (case t of
      DUCKDB_TYPE_TIMESTAMP_S \<Rightarrow> duckdb_create_timestamp_s B (word_of_int n)
    | DUCKDB_TYPE_TIMESTAMP_MS \<Rightarrow> duckdb_create_timestamp_ms B (word_of_int n)
    | _ \<Rightarrow> duckdb_create_timestamp_ns B (word_of_int n))"

definition bind_scalar :: "'e bind_api \<Rightarrow> nat option \<Rightarrow> nat \<Rightarrow> duckdb_type \<Rightarrow> int \<Rightarrow> 'e \<Rightarrow> duckdb_state \<times> 'e" where
  "bind_scalar B s i t n = (case t of
      DUCKDB_TYPE_BOOLEAN \<Rightarrow> duckdb_bind_boolean B s i (n \<noteq> 0)
    | DUCKDB_TYPE_TINYINT \<Rightarrow> duckdb_bind_int8 B s i (word_of_int n)
    | DUCKDB_TYPE_SMALLINT \<Rightarrow> duckdb_bind_int16 B s i (word_of_int n)
    | DUCKDB_TYPE_INTEGER \<Rightarrow> duckdb_bind_int32 B s i (word_of_int n)
    | DUCKDB_TYPE_BIGINT \<Rightarrow> duckdb_bind_int64 B s i (word_of_int n)
    | DUCKDB_TYPE_DATE \<Rightarrow> duckdb_bind_date B s i (word_of_int n)
    | DUCKDB_TYPE_TIMESTAMP \<Rightarrow> duckdb_bind_timestamp B s i (word_of_int n)
    | DUCKDB_TYPE_TIMESTAMP_TZ \<Rightarrow> duckdb_bind_timestamp_tz B s i (word_of_int n)
    | _ \<Rightarrow> Pair DuckDBError)"

text \<open>The types of the other scalars; every other type is refused.\<close>

definition scalar_types :: "duckdb_type set" where
  "scalar_types = {DUCKDB_TYPE_BOOLEAN, DUCKDB_TYPE_TINYINT, DUCKDB_TYPE_SMALLINT, DUCKDB_TYPE_INTEGER, DUCKDB_TYPE_BIGINT,
     DUCKDB_TYPE_DATE, DUCKDB_TYPE_TIMESTAMP, DUCKDB_TYPE_TIMESTAMP_TZ}"

text \<open>Outcome, engine calls (newest first) and the engine's state.\<close>

definition reference_bind :: "'e bind_api \<Rightarrow> nat option \<Rightarrow> nat \<Rightarrow> duckdb_type \<Rightarrow> int \<Rightarrow> 'e
    \<Rightarrow> duckdb_state \<times> engine_call list \<times> 'e" where
  "reference_bind B s i t n e =
     (if temporal_type t
      then case create_temporal B t n e of (None, e) \<Rightarrow> (DuckDBError, [Create_value], e)
        | (Some x, e) \<Rightarrow> (case duckdb_bind_value B s i x e of (state, e) \<Rightarrow>
            (state, [Destroy_value, Bind, Create_value], snd (duckdb_destroy_value B x e)))
      else if t \<in> scalar_types then case bind_scalar B s i t n e of (state, e) \<Rightarrow> (state, [Bind], e)
      else (DuckDBError, [], e))"

text \<open>A value is destroyed in the cleanup phase; everything else is not interruptible.\<close>

definition binding_event :: "nat \<Rightarrow> engine_call \<Rightarrow> event" where
  "binding_event a k = Engine a (if k = Destroy_value then DUCKDB_ML_NATIVE_CLEANUP else DUCKDB_ML_NATIVE_NONINTERRUPTIBLE) k"

lemma ucast_narrow: "LENGTH('b::len) \<le> LENGTH('a::len) \<Longrightarrow> ucast (word_of_int n :: 'a word) = (word_of_int n :: 'b word)"
  by (rule bit_word_eqI) (simp add: bit_ucast_iff bit_word_of_int_iff)

lemmas narrowed = ucast_narrow [where 'a = 64 and 'b = 8, simplified] ucast_narrow [where 'a = 64 and 'b = 16, simplified]
  ucast_narrow [where 'a = 64 and 'b = 32, simplified]

lemma bind_temporal_type:
  assumes "temporal_type t"
  shows "bind_by_type B s i t (word_of_int n) e = map_prod Temporal id (create_temporal B t n e)"
    and "bind_call_kind t = Some Create_value"
  using assms by (cases t; simp add: bind_by_type_def create_temporal_def bind_call_kind_def)+

lemma bind_scalar_type:
  assumes "t \<in> scalar_types" and "- (2 ^ 63) \<le> n" and "n < 2 ^ 63"
  shows "bind_by_type B s i t (word_of_int n) e = map_prod Bound id (bind_scalar B s i t n e)"
    and "bind_call_kind t = Some Bind"
proof -
  have "sint (word_of_int n :: 64 word) = n" using assms(2,3) by (simp add: sint_sbintrunc' signed_take_bit_int_eq_self)
  then have "(word_of_int n :: 64 word) \<noteq> 0 \<longleftrightarrow> n \<noteq> 0" by auto
  then show "bind_by_type B s i t (word_of_int n) e = map_prod Bound id (bind_scalar B s i t n e)" "bind_call_kind t = Some Bind"
    using assms(1) by (auto simp: scalar_types_def bind_by_type_def bind_scalar_def narrowed bind_call_kind_def)
qed

lemma bind_other_type: "\<not> temporal_type t \<Longrightarrow> t \<notin> scalar_types \<Longrightarrow> bind_call_kind t = None"
  by (cases t) (auto simp: scalar_types_def bind_call_kind_def)

lemmas binding_steps = ml_duckdb_bind_int64_def bind_int64_body_def bind_temporal_def working_on_def admit_binding_def
  bind_status_def run_prepared_defs run_call run_outside binding_event_def

text \<open>
  C40: an uncancelled binding of a 64-bit integer makes the calls of the reference: the value
  reaches the engine at the parameter's width (0 or not for a Boolean), a temporary value is
  destroyed whether the binding succeeds or not, any other type is refused without a call, the status tells the outcome, and nothing
  but status and message of the statement changes.
\<close>

theorem bind_int64_meets_reference:
  assumes "idle_at a c w" and "undisturbed w" and "uncancelled_at c w" and "Prepared w v = Some p" and "prepareds w p = Some pr"
    and "p_parent pr = a" and "- (2 ^ 63) \<le> n" and "n < 2 ^ 63"
    and "reference_bind B (p_prepared pr) i t n (w_engine w) = (state, calls, e)"
  shows "\<exists>w' m. ml_duckdb_bind_int64 T B v i t (word_of_int n) w = Inr (Returned (), w') \<and> w_engine w' = e \<and>
    w_log w' = map (binding_event a) calls @ w_log w \<and>
    prepareds w' p = Some (pr\<lparr>p_status := if state = DuckDBSuccess then DUCKDB_ML_STATUS_OK else DUCKDB_ML_STATUS_ERROR, p_message := m\<rparr>)"
proof (cases c)
  case c: (fields references parent connection guard active phase closing foreign dirty depth sq extracted prep result has_result
      st msg)
  have "latched active w = Inr False" using latched_uncancelled [OF assms(3)] by (simp add: c)
  note facts = assms(1,2,4-6) [unfolded idle_at_def undisturbed_def c, simplified] this
  consider "temporal_type t" | "\<not> temporal_type t" "t \<in> scalar_types" | "\<not> temporal_type t" "t \<notin> scalar_types" by blast
  then show ?thesis
  proof cases
    case 1
    then show ?thesis using facts assms(9)
      by (cases pr; cases state) (auto simp: bind_temporal_type [OF 1] reference_bind_def binding_steps c Let_def split: prod.splits option.splits)
  next
    case 2
    then have "bind_scalar B (p_prepared pr) i t n (w_engine w) = (state, e)" "calls = [Bind]"
      using assms(9) by (auto simp: reference_bind_def split: prod.splits)
    then show ?thesis using facts
      by (cases pr; cases state) (auto simp: bind_scalar_type [OF 2(2) assms(7,8)] binding_steps c Let_def)
  next
    case 3
    then have "state = DuckDBError" "e = w_engine w" "calls = []" using assms(9) by (auto simp: reference_bind_def)
    then show ?thesis using facts by (cases pr) (auto simp: bind_other_type [OF 3] binding_steps c Let_def)
  qed
qed

subsection \<open>Instance\<close>

lemma bind_int64_witness:
  "\<exists>w'. ml_duckdb_bind_int64 sample_statements sample_bindings 13 1 DUCKDB_TYPE_TIMESTAMP_S (word_of_int (- 7)) (sample_world False) =
     Inr (Returned (), w') \<and> w_log w' = [Engine 3 DUCKDB_ML_NATIVE_CLEANUP Destroy_value,
       Engine 3 DUCKDB_ML_NATIVE_NONINTERRUPTIBLE Bind, Engine 3 DUCKDB_ML_NATIVE_NONINTERRUPTIBLE Create_value]"
proof -
  have facts: "Prepared (sample_world False) 13 = Some 5" "prepareds (sample_world False) 5 = Some sample_prepared"
    "p_parent sample_prepared = 3" "- (2 ^ 63) \<le> (- 7 :: int)" "(- 7 :: int) < 2 ^ 63"
    "reference_bind sample_bindings (p_prepared sample_prepared) 1 DUCKDB_TYPE_TIMESTAMP_S (- 7) (w_engine (sample_world False)) =
      (DuckDBSuccess, [Destroy_value, Bind, Create_value], 95)"
    by (simp_all add: sample_world_def sample_prepared_def prepared_owner0_def reference_bind_def create_temporal_def sample_bindings_def)
  from bind_int64_meets_reference [OF sample_idle sample_undisturbed sample_uncancelled facts, of sample_statements]
  show ?thesis by (auto simp: binding_event_def sample_world_def)
qed

end
