(* ===== verification/Spec2Isabelle.thy ===== *)
theory Spec2Isabelle
  imports Guard_Properties View_Properties Reachability Appender_Properties Statement_Properties Fetch_Properties
    Append_Properties Session_Properties Binding_Properties
begin

text \<open>
  The native layer of an OCaml binding of DuckDB: every C source under \<open>src/lib/ffi\<close>. Each
  stub \<open>ml_duckdb_*\<close> is a definition of the same name, each helper function too, guards and
  early returns included.

  The program. OCaml holds custom blocks; each has a slot that points to an owner: a database,
  a connection, a prepared statement, an appender, a request or a file work. A connection
  keeps its database alive by a reference, prepared statements, appenders, file works and
  installed requests keep their connection. A stub that waits for the engine releases the
  OCaml runtime; a small lock in the connection (the native guard) protects a phase that a
  controller thread reads to decide whether it may interrupt the engine. A cancelled request
  is a latch: no later call of its connection is admitted. Everything an owner holds is
  counted in one process-wide counter of live resources.

  The model. \<open>'e world\<close> (\<open>World\<close>) is the state: a heap of records per kind of owner, a slot
  map per kind of custom block, the counters, a log of engine calls with the phase in which
  they were made, and the engine's own state \<open>'e\<close>, which is arbitrary. DuckDB's C API and the
  file system are records of functions over \<open>'e\<close>, parameters of the stubs that call them;
  \<open>w_oom\<close> and \<open>w_pending\<close> decide which allocation fails and which runtime transition raises.
  A C function is a function into \<open>fault + result\<close>: a fault is an abort, a wait on a lock
  nobody releases, or an access to memory that is NULL, freed or out of bounds. Counters are
  words of their C width; addresses and handles are natural numbers.

  Definitions, by source file:

  \<^item> \<open>query_native.h\<close>: \<open>Native_Types\<close> (status codes, statement and column types, widths,
    diagnostics), \<open>World\<close> (\<open>prepared_owner\<close>).
  \<^item> \<open>resource_stubs.c\<close>: \<open>World\<close> (owners, counters), \<open>Native_Guard\<close> (lock, phase, work, call,
    cleanup and close brackets), \<open>Owners\<close> (creation, open, connect, clearing, reference counts,
    closing, finalizers), \<open>Native_Requests\<close> (create, cancel, install, reserve, interrupt,
    deliver, retire, uninstall, dispose), \<open>Statements\<close> (allow-list, execution, transaction
    control, schema epoch).
  \<^item> \<open>prepared_stubs.c\<close>: \<open>Prepared_Statements\<close>; \<open>view_stubs.c\<close>: \<open>Chunks\<close>, \<open>Views\<close>;
    \<open>typed_stubs.c\<close>: \<open>Binding\<close>; \<open>appender_stubs.c\<close>: \<open>Appenders\<close>, \<open>Staging\<close>;
    \<open>local_file_stubs.c\<close>: \<open>Local_Files\<close>.

  The proofs about all stubs together:

  \<^item> \<open>Evolution\<close>, \<open>Brackets\<close>: what a stub may do to the world while it works on one
    connection, and triples for the guard's brackets. \<open>Owners_Safety\<close>, \<open>Statements_Safety\<close>,
    \<open>Prepared_Safety\<close>, \<open>Prepared_Calls\<close>, \<open>Sessions_Safety\<close>: a triple for every stub, from the
    C code's structure.
  \<^item> \<open>Well_Formed\<close>: the global invariant: references are counted exactly, slots and links point
    to live owners, the counter equals what the owners hold, no lock is held and every phase
    agrees with its flags, destructors ran in a cleanup phase only. \<open>Deletion\<close> (the locales
    \<open>database_view\<close> and \<open>connection_view\<close>, interpreted for every kind of holder), \<open>Creation\<close>,
    \<open>Requests_Safety\<close>, \<open>Lifecycle\<close>, \<open>Files_Safety\<close>: every operation keeps it.
  \<^item> \<open>Appender_Safety\<close>, \<open>Appender_Calls\<close>, \<open>Appender_Creation\<close>, \<open>Appender_Lifecycle\<close>: the invariant
    of an appender (\<open>appender_ok\<close>), what the code relies on of the engine's types and of the
    metadata query (\<open>typed_engine\<close>, \<open>metadata_engine\<close>), triples for creating, appending,
    flushing and closing, and that each keeps the global invariant. The locale
    \<open>appender_assertion\<close> proves admission and error handling once for every assertion that a
    failure does not break. \<open>Staging_Safety\<close>: opening a batch, writing values, columns and masks
    keep the staged chunks sound.
  \<^item> \<open>Stubs\<close>, \<open>Stubs_Safety\<close>, \<open>Reachability\<close>: 60 stubs and finalizers as one type, when the
    OCaml layer may call them (\<open>permitted\<close>), the states reachable by such calls, and the
    properties of all of them: a permitted call returns, nothing leaks, the counter is exact,
    engine calls keep to their phases. The bounds are those of the C counters: fewer than
    2^29 allocations, so that no 32-bit reference count or counter wraps.

  The proofs about single parts:

  \<^item> \<open>Guard_Properties\<close>: sequences of guarded operations implement an abstract protocol; what
    the controller reads and what a delivery does.
  \<^item> \<open>Statement_Properties\<close>, \<open>Session_Properties\<close>, \<open>Binding_Properties\<close>, \<open>Fetch_Properties\<close>:
    stubs against straight-line references (execute, control statements, open, publish, bind,
    prepared execution, fetch), cancelled requests, and the cache a fetch leaves.
  \<^item> \<open>View_Properties\<close>: views read the engine's elements and validity bits; null counts and
    searches a word at a time; copies into Bigarrays.
  \<^item> \<open>Staging_Properties\<close>, \<open>Append_Properties\<close>: staging is memory-safe and exact, what it writes
    is read back, the chunks partition the rows, appending stops at the first refusal.
  \<^item> \<open>Appender_Properties\<close>: in every reachable world an open appender is described by the
    engine's types, and every staged row has a place in mapped memory.
  \<^item> \<open>Samples\<close>: small engines and worlds in which the hypotheses hold.

  Not modelled:

  \<^item> True concurrency. A stub runs as one step; a controller sees the worlds between stubs, and
    the claims of \<open>Guard_Properties\<close> are about the worlds in the middle of a stub. A held guard
    is a fault (\<open>Spins\<close>), since only another thread could release it.
  \<^item> The OCaml layer. What it guarantees is \<open>permitted\<close>. Every stub that changes the state is
    among the stubs of \<open>Reachability\<close> but one: \<open>ml_duckdb_appender_select_columns\<close> leaks when
    memory runs out, which \<open>Append_Properties\<close> shows, so the invariant does not hold after it.
    The stubs that only read (views, observers) are left out too; their properties are about
    single calls.
  \<^item> The garbage collector's roots and the conversion macros (\<open>CAMLparam\<close>, \<open>Val_int\<close>), and the
    numeric values of the engine's enumerations where the code does not depend on them.
\<close>

end
